(* ===== verification/Prelude.thy ===== *)
theory Prelude
  imports Main "HOL-Library.Sublist"
begin

text \<open>
  Shared vocabulary of the development: the SQL text functions the commands use, the result
  type of a database command, and the generic lemmas on row lists (a table is a list of rows)
  that the component theories rely on.

  Text is \<open>string\<close>. PostgreSQL's \<open>btrim\<close> with one argument removes the space character
  only, unlike JavaScript's \<open>trim\<close>; both are defined here.
\<close>

section \<open>Collections\<close>


named_theorems cmd_inv \<open>every command keeps the invariant\<close>



section \<open>SQL and JavaScript text functions\<close>

definition blank :: "char \<Rightarrow> bool" where
  "blank c \<longleftrightarrow> c = CHR '' ''"

definition btrim :: "string \<Rightarrow> string" where
  "btrim s = rev (dropWhile blank (rev (dropWhile blank s)))"

definition coalesce :: "'a option \<Rightarrow> 'a \<Rightarrow> 'a" where
  "coalesce x d = (case x of None \<Rightarrow> d | Some v \<Rightarrow> v)"

definition nullif :: "'a \<Rightarrow> 'a \<Rightarrow> 'a option" where
  "nullif x y = (if x = y then None else Some x)"

text \<open>White space of JavaScript's \<open>String.prototype.trim\<close>, on the 8-bit characters.\<close>

definition js_space :: "char \<Rightarrow> bool" where
  "js_space c \<longleftrightarrow> of_char c \<in> {9, 10, 11, 12, 13, 32, 160 :: nat}"

definition js_trim :: "string \<Rightarrow> string" where
  "js_trim s = rev (dropWhile js_space (rev (dropWhile js_space s)))"

lemma dropWhile_idem': "dropWhile P (dropWhile P xs) = dropWhile P xs"
  by (induction xs) auto

lemma dropWhile_snoc_keep: "\<not> P a \<Longrightarrow> dropWhile P (xs @ [a]) = dropWhile P xs @ [a]"
  by (induction xs) auto

lemma dropWhile_rev_dropWhile:
  "dropWhile P (rev (dropWhile P (rev (dropWhile P xs)))) = rev (dropWhile P (rev (dropWhile P xs)))"
  by (induction xs) (auto simp: dropWhile_snoc_keep)

lemma btrim_idem [simp]: "btrim (btrim s) = btrim s"
  by (simp add: btrim_def dropWhile_rev_dropWhile dropWhile_idem')

lemma js_trim_idem [simp]: "js_trim (js_trim s) = js_trim s"
  by (simp add: js_trim_def dropWhile_rev_dropWhile dropWhile_idem')

lemma btrim_Nil [simp]: "btrim [] = []"
  by (simp add: btrim_def)

lemma coalesce_simps [simp]:
  "coalesce None d = d" "coalesce (Some v) d = v"
  by (simp_all add: coalesce_def)

lemma nullif_eq_None [simp]: "nullif x y = None \<longleftrightarrow> x = y"
  by (simp add: nullif_def)

lemma nullif_eq_Some [simp]: "nullif x y = Some z \<longleftrightarrow> x = z \<and> x \<noteq> y"
  by (auto simp: nullif_def)

text \<open>Decimal rendering of an integer, as \<open>||\<close> and template strings do it.\<close>

fun nat_text :: "nat \<Rightarrow> string" where
  "nat_text n = (if n < 10 then [char_of (48 + n)] else nat_text (n div 10) @ [char_of (48 + n mod 10)])"

declare nat_text.simps [simp del]

definition int_text :: "int \<Rightarrow> string" where
  "int_text i = (if i < 0 then ''-'' @ nat_text (nat (- i)) else nat_text (nat i))"

section \<open>Results of a database command\<close>

text \<open>
  A command either raises or returns. What it raises is one of the errors the SQL functions
  name (\<open>MESSAGE\<close> and \<open>DETAIL\<close>), or a PostgreSQL condition by its SQLSTATE.
\<close>

datatype db_error =
    Rhinoq string "string option"
  | Sql_state string

abbreviation "unique_violation \<equiv> Sql_state ''23505''"
abbreviation "foreign_key_violation \<equiv> Sql_state ''23503''"
abbreviation "check_violation \<equiv> Sql_state ''23514''"
abbreviation "not_null_violation \<equiv> Sql_state ''23502''"
abbreviation "row_security_violation \<equiv> Sql_state ''42501''"
abbreviation "ambiguous_column \<equiv> Sql_state ''42702''"

type_synonym 'a res = "db_error + 'a"

text \<open>Sequencing: the first error ends the command, and the transaction keeps nothing of it.\<close>

definition bind_res :: "'a res \<Rightarrow> ('a \<Rightarrow> 'b res) \<Rightarrow> 'b res" where
  "bind_res m f = (case m of Inl e \<Rightarrow> Inl e | Inr x \<Rightarrow> f x)"

lemma bind_res_simps [simp]:
  "bind_res (Inl e) f = Inl e" "bind_res (Inr x) f = f x"
  by (simp_all add: bind_res_def)

lemma bind_res_Inr_iff: "bind_res m f = Inr y \<longleftrightarrow> (\<exists>x. m = Inr x \<and> f x = Inr y)"
  by (cases m) auto

lemma bind_res_InrE [elim!]:
  assumes "bind_res m f = Inr y"
  obtains x where "m = Inr x" and "f x = Inr y"
  using assms by (auto simp: bind_res_Inr_iff)

lemma bind_res_cong [fundef_cong]:
  assumes "m = m'" and "\<And>x. m' = Inr x \<Longrightarrow> f x = g x"
  shows "bind_res m f = bind_res m' g"
  using assms by (cases m') auto

section \<open>Row lists\<close>

text \<open>\<open>UPDATE ... WHERE p\<close> on the rows of a table.\<close>

definition upd_where :: "('r \<Rightarrow> bool) \<Rightarrow> ('r \<Rightarrow> 'r) \<Rightarrow> 'r list \<Rightarrow> 'r list" where
  "upd_where p f rows = map (\<lambda>r. if p r then f r else r) rows"

lemma set_upd_where: "set (upd_where p f rows) = f ` {r \<in> set rows. p r} \<union> {r \<in> set rows. \<not> p r}"
  by (auto simp: upd_where_def)

lemma length_upd_where [simp]: "length (upd_where p f rows) = length rows"
  by (simp add: upd_where_def)

lemma in_upd_whereE:
  assumes "r' \<in> set (upd_where p f rows)"
  obtains r where "r \<in> set rows" and "r' = (if p r then f r else r)"
  using assms by (auto simp: upd_where_def)

lemma map_upd_where: "(\<And>r. p r \<Longrightarrow> g (f r) = g r) \<Longrightarrow> map g (upd_where p f rows) = map g rows"
  by (auto simp: upd_where_def)

lemma map_upd_where_on:
  "(\<And>r. r \<in> set rows \<Longrightarrow> p r \<Longrightarrow> g (f r) = g r) \<Longrightarrow> map g (upd_where p f rows) = map g rows"
  by (auto simp: upd_where_def)

lemma upd_where_none: "(\<And>r. r \<in> set rows \<Longrightarrow> \<not> p r) \<Longrightarrow> upd_where p f rows = rows"
  by (auto simp: upd_where_def intro: map_idI)

lemma filter_upd_where:
  assumes "\<And>r. p r \<Longrightarrow> q (f r) = q r" and "\<And>r. p r \<Longrightarrow> \<not> q r"
  shows "filter q (upd_where p f rows) = filter q rows"
  using assms by (induction rows) (auto simp: upd_where_def)

lemma find_SomeE:
  assumes "find p rows = Some r"
  obtains "r \<in> set rows" and "p r"
  using assms by (auto simp: find_Some_iff)

lemma distinct_map_eqD:
  "distinct (map k rows) \<Longrightarrow> r \<in> set rows \<Longrightarrow> r' \<in> set rows \<Longrightarrow> k r = k r' \<Longrightarrow> r = r'"
  by (simp add: distinct_map inj_on_def)

lemma distinct_map_ConsD:
  assumes "distinct (map k (v # vs))" and "u \<in> set vs"
  shows "k u \<noteq> k v"
proof -
  have "k v \<notin> k ` set vs" using assms(1) by simp
  then show ?thesis using imageI [OF assms(2), of k] by metis
qed

text \<open>Lengths as integers, and \<open>left(x, n)\<close>, the first \<open>n\<close> characters.\<close>

definition len :: "'a list \<Rightarrow> int" where
  "len xs = int (length xs)"

fun left_text :: "int \<Rightarrow> 'a list \<Rightarrow> 'a list" where
  "left_text n [] = []"
| "left_text n (c # cs) = (if n \<le> 0 then [] else c # left_text (n - 1) cs)"

lemma left_text_take: "left_text n xs = take (nat n) xs"
  by (induction xs arbitrary: n) (auto simp: take_Cons nat_diff_distrib split: nat.split)

lemma len_left_text [simp]: "0 \<le> n \<Longrightarrow> len (left_text n xs) \<le> n"
  by (simp add: left_text_take len_def)

text \<open>\<open>count(*) FILTER (WHERE p)\<close>.\<close>

definition count_where :: "('r \<Rightarrow> bool) \<Rightarrow> 'r list \<Rightarrow> int" where
  "count_where p rows = int (length (filter p rows))"

lemma count_where_simps [simp]:
  "count_where p [] = 0"
  "count_where p (r # rows) = (if p r then 1 else 0) + count_where p rows"
  "count_where p (xs @ ys) = count_where p xs + count_where p ys"
  by (simp_all add: count_where_def)

lemma count_where_nonneg [simp]: "0 \<le> count_where p rows"
  by (simp add: count_where_def)

lemma count_where_cong:
  "(\<And>r. r \<in> set rows \<Longrightarrow> p r = q r) \<Longrightarrow> count_where p rows = count_where q rows"
  by (induction rows) auto

lemma count_where_upd_one:
  assumes "distinct (map k rows)" and "r \<in> set rows"
  shows "count_where p (upd_where (\<lambda>x. k x = k r) f rows) =
    count_where p rows - (if p r then 1 else 0) + (if p (f r) then 1 else 0)"
  using assms
proof (induction rows)
  case Nil
  then show ?case by simp
next
  case (Cons a rows)
  show ?case
  proof (cases "k a = k r")
    case True
    have "a = r" using distinct_map_eqD [OF Cons.prems(1) _ Cons.prems(2) True] by simp
    moreover have "k r \<notin> k ` set rows" using Cons.prems(1) True by simp
    then have "\<And>x. x \<in> set rows \<Longrightarrow> k x \<noteq> k r" by (metis imageI)
    then have "upd_where (\<lambda>x. k x = k r) f rows = rows" by (rule upd_where_none)
    ultimately show ?thesis by (simp add: upd_where_def)
  next
    case False
    then have "r \<in> set rows" using Cons.prems(2) by auto
    with Cons False show ?thesis by (simp add: upd_where_def)
  qed
qed

end
