(* ===== verification/Table.thy ===== *)
theory Table
  imports Prelude
begin

text \<open>
  A PostgreSQL table under the tenant policy of migration 014: rows in insertion order, the
  CHECK constraints, the unique keys, and row-level security. The three statements the commands
  issue (\<open>UPDATE\<close>, \<open>INSERT\<close>, \<open>INSERT ... ON CONFLICT DO NOTHING\<close>) report violations in the order
  PostgreSQL evaluates them: row security, CHECK, uniqueness. Uniqueness is decided on all rows,
  visible or not; every statement reads and changes visible rows only.
\<close>

section \<open>Sessions and row security\<close>

text \<open>
  The session settings the policies read: \<open>rhinoq.tenant_id\<close>, \<open>rhinoq.maintenance\<close>, and
  \<open>plpgsql.variable_conflict\<close>, which decides what PL/pgSQL does with a name that is both a
  column and a variable (\<open>error\<close> is PostgreSQL's default).
\<close>

datatype variable_conflict = Conflict_error | Use_column

record session =
  s_tenant_id :: "string option"
  s_maintenance :: "string option"
  s_variable_conflict :: variable_conflict

definition current_tenant :: "session \<Rightarrow> string option" where
  "current_tenant s = (case s_tenant_id s of None \<Rightarrow> None | Some x \<Rightarrow> nullif (btrim x) '''')"

definition maintenance_session :: "session \<Rightarrow> bool" where
  "maintenance_session s \<longleftrightarrow> coalesce (s_maintenance s) '''' = ''on''"

text \<open>The policy \<open>rhinoq_task_tenant_isolation\<close>, its USING and its WITH CHECK clause alike.\<close>

definition visible :: "session \<Rightarrow> string \<Rightarrow> bool" where
  "visible s tenant \<longleftrightarrow> current_tenant s = Some tenant \<or> maintenance_session s"

text \<open>The default of a \<open>tenant_id\<close> column; NULL fails the policy, or NOT NULL under maintenance.\<close>

definition default_tenant :: "session \<Rightarrow> string res" where
  "default_tenant s = (case current_tenant s of
      Some tenant \<Rightarrow> Inr tenant
    | None \<Rightarrow> Inl (if maintenance_session s then not_null_violation else row_security_violation))"

lemma default_tenant_InrD:
  "default_tenant s = Inr tenant \<Longrightarrow> current_tenant s = Some tenant \<and> visible s tenant"
  by (auto simp: default_tenant_def visible_def split: option.splits if_splits)

lemma current_tenant_nonblank: "current_tenant s = Some tenant \<Longrightarrow> btrim tenant \<noteq> ''''"
  by (auto simp: current_tenant_def split: option.splits)

section \<open>Tables\<close>

record 'r table =
  tb_tenant :: "'r \<Rightarrow> string"
  tb_check :: "'r \<Rightarrow> bool"
  tb_conflict :: "'r \<Rightarrow> 'r \<Rightarrow> bool"

definition unique_by :: "('r \<Rightarrow> 'r \<Rightarrow> bool) \<Rightarrow> 'r list \<Rightarrow> bool" where
  "unique_by c rows \<longleftrightarrow> sorted_wrt (\<lambda>x y. \<not> c x y) rows"

definition table_ok :: "'r table \<Rightarrow> 'r list \<Rightarrow> bool" where
  "table_ok T rows \<longleftrightarrow> list_all (tb_check T) rows \<and> unique_by (tb_conflict T) rows"

definition hidden :: "session \<Rightarrow> 'r table \<Rightarrow> 'r list \<Rightarrow> 'r list" where
  "hidden s T rows = filter (\<lambda>r. \<not> visible s (tb_tenant T r)) rows"

definition select_rows :: "session \<Rightarrow> 'r table \<Rightarrow> ('r \<Rightarrow> bool) \<Rightarrow> 'r list \<Rightarrow> 'r list" where
  "select_rows s T p rows = filter (\<lambda>r. visible s (tb_tenant T r) \<and> p r) rows"

definition select_one :: "session \<Rightarrow> 'r table \<Rightarrow> ('r \<Rightarrow> bool) \<Rightarrow> 'r list \<Rightarrow> 'r option" where
  "select_one s T p rows = find (\<lambda>r. visible s (tb_tenant T r) \<and> p r) rows"

definition update_rows ::
  "session \<Rightarrow> 'r table \<Rightarrow> ('r \<Rightarrow> bool) \<Rightarrow> ('r \<Rightarrow> 'r) \<Rightarrow> 'r list \<Rightarrow> 'r list res" where
  "update_rows s T p f rows = (
    let q = (\<lambda>r. visible s (tb_tenant T r) \<and> p r); rows' = upd_where q f rows in
    if \<not> list_all (\<lambda>r. q r \<longrightarrow> tb_check T (f r)) rows then Inl check_violation
    else if \<not> unique_by (tb_conflict T) rows' then Inl unique_violation
    else Inr rows')"

definition delete_rows :: "session \<Rightarrow> 'r table \<Rightarrow> ('r \<Rightarrow> bool) \<Rightarrow> 'r list \<Rightarrow> 'r list" where
  "delete_rows s T p rows = filter (\<lambda>r. \<not> (visible s (tb_tenant T r) \<and> p r)) rows"

definition insert_row :: "session \<Rightarrow> 'r table \<Rightarrow> 'r \<Rightarrow> 'r list \<Rightarrow> 'r list res" where
  "insert_row s T r rows = (
    if \<not> visible s (tb_tenant T r) then Inl row_security_violation
    else if \<not> tb_check T r then Inl check_violation
    else if \<not> list_all (\<lambda>x. \<not> tb_conflict T x r) rows then Inl unique_violation
    else Inr (rows @ [r]))"

text \<open>\<open>ON CONFLICT DO NOTHING\<close>: the flag is \<open>FOUND\<close>.\<close>

definition insert_row_or_nothing ::
  "session \<Rightarrow> 'r table \<Rightarrow> 'r \<Rightarrow> 'r list \<Rightarrow> (bool \<times> 'r list) res" where
  "insert_row_or_nothing s T r rows = (
    if \<not> visible s (tb_tenant T r) then Inl row_security_violation
    else if \<not> tb_check T r then Inl check_violation
    else if \<not> list_all (\<lambda>x. \<not> tb_conflict T x r) rows then Inr (False, rows)
    else Inr (True, rows @ [r]))"

subsection \<open>Laws of the statements\<close>

lemma unique_by_snoc:
  "unique_by c (rows @ [r]) \<longleftrightarrow> unique_by c rows \<and> (\<forall>x \<in> set rows. \<not> c x r)"
  by (auto simp: unique_by_def sorted_wrt_append)

lemma unique_by_filter: "unique_by c rows \<Longrightarrow> unique_by c (filter p rows)"
  by (simp add: unique_by_def sorted_wrt_filter)

lemma unique_by_map:
  "unique_by c (map f rows) \<longleftrightarrow> unique_by (\<lambda>x y. c (f x) (f y)) rows"
  by (simp add: unique_by_def sorted_wrt_map)

lemma unique_by_mono:
  assumes "unique_by c rows" and "\<And>x y. x \<in> set rows \<Longrightarrow> y \<in> set rows \<Longrightarrow> c' x y \<Longrightarrow> c x y"
  shows "unique_by c' rows"
  using assms unfolding unique_by_def by (metis (mono_tags, lifting) sorted_wrt_mono_rel)

lemma unique_by_upd_where:
  assumes "unique_by c rows"
    and "\<And>x y. c (if p x then f x else x) (if p y then f y else y) \<Longrightarrow> c x y"
  shows "unique_by c (upd_where p f rows)"
  unfolding upd_where_def unique_by_map by (rule unique_by_mono [OF assms(1)]) (rule assms(2))

lemma update_rows_ok:
  assumes "update_rows s T p f rows = Inr rows'"
  shows "rows' = upd_where (\<lambda>r. visible s (tb_tenant T r) \<and> p r) f rows"
    and "table_ok T rows \<Longrightarrow> table_ok T rows'"
  using assms
  by (auto simp: update_rows_def Let_def table_ok_def list_all_iff set_upd_where split: if_splits)

lemma hidden_upd_where:
  assumes "\<And>r. p r \<Longrightarrow> visible s (tb_tenant T r)" and "\<And>r. tb_tenant T (f r) = tb_tenant T r"
  shows "hidden s T (upd_where p f rows) = hidden s T rows"
  using assms unfolding hidden_def by (intro filter_upd_where) auto

lemma hidden_update_rows:
  assumes "update_rows s T p f rows = Inr rows'" and "\<And>r. tb_tenant T (f r) = tb_tenant T r"
  shows "hidden s T rows' = hidden s T rows"
  unfolding update_rows_ok(1) [OF assms(1)] by (rule hidden_upd_where) (auto simp: assms(2))

lemma insert_row_ok:
  assumes "insert_row s T r rows = Inr rows'"
  shows "rows' = rows @ [r]" and "visible s (tb_tenant T r)"
    and "table_ok T rows \<Longrightarrow> table_ok T rows'" and "hidden s T rows' = hidden s T rows"
  using assms
  by (auto simp: insert_row_def table_ok_def hidden_def unique_by_snoc list_all_iff split: if_splits)

lemma insert_row_or_nothing_ok:
  assumes "insert_row_or_nothing s T r rows = Inr (found, rows')"
  shows "rows' = (if found then rows @ [r] else rows)" and "visible s (tb_tenant T r)"
    and "table_ok T rows \<Longrightarrow> table_ok T rows'" and "hidden s T rows' = hidden s T rows"
  using assms
  by (auto simp: insert_row_or_nothing_def table_ok_def hidden_def unique_by_snoc list_all_iff
      split: if_splits)

lemma delete_rows_ok:
  shows "table_ok T rows \<Longrightarrow> table_ok T (delete_rows s T p rows)"
    and "hidden s T (delete_rows s T p rows) = hidden s T rows"
  by (auto simp: delete_rows_def table_ok_def list_all_iff unique_by_filter hidden_def
      intro!: filter_cong)

lemma delete_rowsD: "r \<in> set (delete_rows s T p rows) \<Longrightarrow> r \<in> set rows"
  by (simp add: delete_rows_def)

lemma select_one_SomeD:
  "select_one s T p rows = Some r \<Longrightarrow> r \<in> set rows \<and> visible s (tb_tenant T r) \<and> p r"
  by (auto simp: select_one_def find_Some_iff)

lemma select_one_None_iff:
  "select_one s T p rows = None \<longleftrightarrow> (\<forall>r \<in> set rows. \<not> (visible s (tb_tenant T r) \<and> p r))"
  by (auto simp: select_one_def find_None_iff)

lemma select_rows_iff [simp]:
  "r \<in> set (select_rows s T p rows) \<longleftrightarrow> r \<in> set rows \<and> visible s (tb_tenant T r) \<and> p r"
  by (auto simp: select_rows_def)

text \<open>What a session reads is a function of the rows it may see.\<close>

lemma select_rows_visible:
  "select_rows s T p rows = filter p (filter (\<lambda>r. visible s (tb_tenant T r)) rows)"
  by (auto simp: select_rows_def intro!: filter_cong)

section \<open>Tables with a primary key\<close>

locale keyed_table =
  fixes T :: "'r table" and key :: "'r \<Rightarrow> 'k"
  assumes key_conflict: "key r = key r' \<Longrightarrow> tb_conflict T r r'"
begin

lemma distinct_keys: "table_ok T rows \<Longrightarrow> distinct (map key rows)"
  unfolding table_ok_def unique_by_def
  by (induction rows) (auto simp: key_conflict)

lemma key_inj:
  "table_ok T rows \<Longrightarrow> r \<in> set rows \<Longrightarrow> r' \<in> set rows \<Longrightarrow> key r = key r' \<Longrightarrow> r = r'"
  using distinct_keys distinct_map_eqD by metis

lemma select_key:
  assumes "table_ok T rows" and "r \<in> set rows" and "visible s (tb_tenant T r)"
  shows "select_one s T (\<lambda>x. key x = key r) rows = Some r"
proof (cases "select_one s T (\<lambda>x. key x = key r) rows")
  case None
  then show ?thesis using assms by (auto simp: select_one_None_iff)
next
  case (Some r')
  then have "r' \<in> set rows" and "key r' = key r" by (auto dest: select_one_SomeD)
  then show ?thesis using Some key_inj [OF assms(1)] assms(2) by auto
qed

text \<open>An update by primary key changes the selected row alone.\<close>

lemma update_by_key:
  assumes "update_rows s T (\<lambda>x. key x = key r) f rows = Inr rows'"
    and "table_ok T rows" and "r \<in> set rows" and "visible s (tb_tenant T r)"
  shows "rows' = upd_where (\<lambda>x. key x = key r) f rows"
proof -
  have "(visible s (tb_tenant T x) \<and> key x = key r) = (key x = key r)" if "x \<in> set rows" for x
    using key_inj [OF assms(2) that assms(3)] assms(4) by auto
  then show ?thesis
    unfolding update_rows_ok(1) [OF assms(1)] by (auto simp: upd_where_def)
qed

end

end
