(* ===== verification/Schema.thy ===== *)
theory Schema
  imports Table
begin

text \<open>
  The rows of schema \<open>rhinoq_task\<close> as the migrations of \<open>postgres/task-schema.ts\<close> leave them
  (version 21), each with its CHECK constraints and unique keys, and the database that holds
  them. A \<open>jsonb\<close> value is its canonical text, a \<open>timestamptz\<close> an integer, \<open>bigint\<close> and
  \<open>integer\<close> columns are unbounded integers, and a nullable column is an option. Text is a list
  of 8-bit characters (UTF-8 where it is not ASCII), so \<open>length\<close> and \<open>octet_length\<close> agree, as they do
  on ASCII text.
\<close>

section \<open>Tasks\<close>

datatype task_state =
    T_pending | T_queued | T_running | T_uncertain | T_succeeded | T_failed
  | T_cancel_requested | T_cancelled

primrec task_state_name :: "task_state \<Rightarrow> string" where
  "task_state_name T_pending = ''pending''"
| "task_state_name T_queued = ''queued''"
| "task_state_name T_running = ''running''"
| "task_state_name T_uncertain = ''uncertain''"
| "task_state_name T_succeeded = ''succeeded''"
| "task_state_name T_failed = ''failed''"
| "task_state_name T_cancel_requested = ''cancel_requested''"
| "task_state_name T_cancelled = ''cancelled''"

definition task_state_of :: "string \<Rightarrow> task_state option" where
  "task_state_of n = find (\<lambda>st. task_state_name st = n)
    [T_pending, T_queued, T_running, T_uncertain, T_succeeded, T_failed, T_cancel_requested,
     T_cancelled]"

datatype cancellation_status =
    C_none | C_requested | C_acknowledged | C_cancelled | C_too_late | C_cannot_cancel_safely
  | C_failed

primrec cancellation_status_name :: "cancellation_status \<Rightarrow> string" where
  "cancellation_status_name C_none = ''none''"
| "cancellation_status_name C_requested = ''requested''"
| "cancellation_status_name C_acknowledged = ''acknowledged''"
| "cancellation_status_name C_cancelled = ''cancelled''"
| "cancellation_status_name C_too_late = ''too_late''"
| "cancellation_status_name C_cannot_cancel_safely = ''cannot_cancel_safely''"
| "cancellation_status_name C_failed = ''failed''"

text \<open>The \<open>execution_*\<close> aggregates of a Task row.\<close>

record exec_counts =
  c_total :: int
  c_pending_dispatch :: int
  c_dispatched :: int
  c_running :: int
  c_succeeded :: int
  c_failed :: int
  c_stalled :: int
  c_cancelled :: int

record task_row =
  t_id :: string
  t_type :: string
  t_tenant_id :: string
  t_owner_id :: "string option"
  t_definition_version :: int
  t_state :: task_state
  t_progress_completed :: int
  t_progress_total :: "int option"
  t_progress_message :: "string option"
  t_result_ref :: "string option"
  t_cancellation_status :: cancellation_status
  t_cancellation_reason :: "string option"
  t_counts :: exec_counts
  t_items_settled_at :: "int option"
  t_version :: int
  t_created_at :: int
  t_updated_at :: int

definition task_check :: "task_row \<Rightarrow> bool" where
  "task_check t \<longleftrightarrow> btrim (t_type t) \<noteq> '''' \<and> btrim (t_tenant_id t) \<noteq> '''' \<and>
    t_definition_version t > 0 \<and> t_progress_completed t \<ge> 0 \<and>
    (case t_progress_total t of None \<Rightarrow> True | Some n \<Rightarrow> n \<ge> 0 \<and> n \<ge> t_progress_completed t) \<and>
    t_version t > 0"

definition task_table :: "task_row table" where
  "task_table = \<lparr>tb_tenant = t_tenant_id, tb_check = task_check,
    tb_conflict = (\<lambda>t u. t_id t = t_id u)\<rparr>"

section \<open>Executions\<close>

datatype exec_state =
    E_pending_dispatch | E_dispatched | E_running | E_succeeded | E_failed | E_stalled
  | E_cancelled

primrec exec_state_name :: "exec_state \<Rightarrow> string" where
  "exec_state_name E_pending_dispatch = ''pending_dispatch''"
| "exec_state_name E_dispatched = ''dispatched''"
| "exec_state_name E_running = ''running''"
| "exec_state_name E_succeeded = ''succeeded''"
| "exec_state_name E_failed = ''failed''"
| "exec_state_name E_stalled = ''stalled''"
| "exec_state_name E_cancelled = ''cancelled''"

definition exec_state_of :: "string \<Rightarrow> exec_state option" where
  "exec_state_of n = find (\<lambda>st. exec_state_name st = n)
    [E_pending_dispatch, E_dispatched, E_running, E_succeeded, E_failed, E_stalled, E_cancelled]"

record execution_row =
  e_id :: string
  e_task_id :: string
  e_tenant_id :: string
  e_item_key :: string
  e_attempt :: int
  e_runtime :: string
  e_runtime_scope :: string
  e_external_id :: "string option"
  e_state :: exec_state
  e_result_ref :: "string option"
  e_failure_reason :: "string option"
  e_superseded_at :: "int option"
  e_effect_keys :: "string list"
  e_version :: int
  e_created_at :: int
  e_updated_at :: int

definition execution_check :: "execution_row \<Rightarrow> bool" where
  "execution_check e \<longleftrightarrow> btrim (e_item_key e) \<noteq> '''' \<and> btrim (e_tenant_id e) \<noteq> '''' \<and>
    e_attempt e > 0 \<and> btrim (e_runtime e) \<noteq> '''' \<and> e_version e > 0 \<and>
    (case e_external_id e of None \<Rightarrow> True | Some x \<Rightarrow> btrim x \<noteq> '''') \<and>
    len (coalesce (e_failure_reason e) '''') \<le> 513 \<and> len (e_effect_keys e) \<le> 256"

text \<open>
  The three unique keys: the primary key, \<open>(task_id, item_key, attempt)\<close>, and the partial index
  \<open>executions_runtime_ref_live_unique\<close>, which covers bound attempts that are not superseded.
\<close>

definition execution_conflict :: "execution_row \<Rightarrow> execution_row \<Rightarrow> bool" where
  "execution_conflict e f \<longleftrightarrow> e_id e = e_id f \<or>
    (e_task_id e = e_task_id f \<and> e_item_key e = e_item_key f \<and> e_attempt e = e_attempt f) \<or>
    (e_runtime e = e_runtime f \<and> e_runtime_scope e = e_runtime_scope f \<and>
     e_external_id e = e_external_id f \<and> e_external_id e \<noteq> None \<and>
     e_superseded_at e = None \<and> e_superseded_at f = None)"

definition execution_table :: "execution_row table" where
  "execution_table = \<lparr>tb_tenant = e_tenant_id, tb_check = execution_check,
    tb_conflict = execution_conflict\<rparr>"

section \<open>Waitpoints\<close>

datatype waitpoint_state = W_waiting | W_resolved | W_expired | W_cancelled

record waitpoint_row =
  w_id :: string
  w_task_id :: string
  w_tenant_id :: string
  w_key :: string
  w_kind :: string
  w_payload_version :: int
  w_state :: waitpoint_state
  w_deadline :: "int option"
  w_resolution :: "string option"
  w_resolution_hash :: "string option"
  w_resolution_id :: "string option"
  w_resolved_by :: "string option"
  w_resolved_at :: "int option"
  w_version :: int
  w_created_at :: int
  w_updated_at :: int

definition waitpoint_check :: "waitpoint_row \<Rightarrow> bool" where
  "waitpoint_check w \<longleftrightarrow> btrim (w_id w) \<noteq> '''' \<and> btrim (w_key w) \<noteq> '''' \<and>
    btrim (w_tenant_id w) \<noteq> '''' \<and> w_kind w \<in> {''input'', ''approval'', ''webhook''} \<and>
    w_payload_version w > 0 \<and> w_version w > 0 \<and>
    (case w_deadline w of None \<Rightarrow> True | Some x \<Rightarrow> x > w_created_at w) \<and>
    (if w_state w = W_resolved
     then w_resolution w \<noteq> None \<and> w_resolution_hash w \<noteq> None \<and> w_resolution_id w \<noteq> None \<and>
       w_resolved_by w \<noteq> None \<and> w_resolved_at w \<noteq> None
     else w_resolution w = None \<and> w_resolution_hash w = None \<and> w_resolution_id w = None \<and>
       w_resolved_by w = None \<and> w_resolved_at w = None)"

definition waitpoint_conflict :: "waitpoint_row \<Rightarrow> waitpoint_row \<Rightarrow> bool" where
  "waitpoint_conflict w v \<longleftrightarrow> w_id w = w_id v \<or> (w_task_id w = w_task_id v \<and> w_key w = w_key v) \<or>
    (w_resolution_id w \<noteq> None \<and> w_resolution_id w = w_resolution_id v)"

definition waitpoint_table :: "waitpoint_row table" where
  "waitpoint_table = \<lparr>tb_tenant = w_tenant_id, tb_check = waitpoint_check,
    tb_conflict = waitpoint_conflict\<rparr>"

section \<open>Verifications and artifacts\<close>

record verification_row =
  v_id :: string
  v_task_id :: string
  v_tenant_id :: string
  v_verifier :: string
  v_status :: string
  v_summary :: "string option"
  v_evidence :: "string option"
  v_finding_rule_id :: "string option"
  v_finding_subject_type :: "string option"
  v_finding_subject_id :: "string option"
  v_finding_invariant_version :: "int option"
  v_finding_deep_link :: "string option"
  v_verified_at :: int
  v_created_at :: int

text \<open>A CHECK whose value is NULL passes; \<open>not_blank\<close> and \<open>positive\<close> fail on false only.\<close>

definition not_blank :: "string option \<Rightarrow> bool" where
  "not_blank x \<longleftrightarrow> (case x of None \<Rightarrow> True | Some y \<Rightarrow> btrim y \<noteq> '''')"

definition positive :: "int option \<Rightarrow> bool" where
  "positive x \<longleftrightarrow> (case x of None \<Rightarrow> True | Some y \<Rightarrow> y > 0)"

definition verification_check :: "verification_row \<Rightarrow> bool" where
  "verification_check v \<longleftrightarrow> btrim (v_id v) \<noteq> '''' \<and> btrim (v_tenant_id v) \<noteq> '''' \<and>
    btrim (v_verifier v) \<noteq> '''' \<and> v_status v \<in> {''verified'', ''mismatch'', ''unverifiable''} \<and>
    len (coalesce (v_summary v) '''') \<le> 1024 \<and> len (coalesce (v_evidence v) '''') \<le> 65536 \<and>
    ((v_finding_rule_id v = None \<and> v_finding_subject_type v = None \<and> v_finding_subject_id v = None \<and>
      v_finding_invariant_version v = None \<and> v_finding_deep_link v = None) \<or>
     (not_blank (v_finding_rule_id v) \<and> not_blank (v_finding_subject_type v) \<and>
      not_blank (v_finding_subject_id v) \<and> positive (v_finding_invariant_version v)))"

definition verification_table :: "verification_row table" where
  "verification_table = \<lparr>tb_tenant = v_tenant_id, tb_check = verification_check,
    tb_conflict = (\<lambda>v u. v_id v = v_id u)\<rparr>"

datatype cleanup_state = Cl_active | Cl_leased | Cl_failed

record artifact_row =
  a_id :: string
  a_task_id :: string
  a_tenant_id :: string
  a_execution_id :: "string option"
  a_name :: string
  a_content_type :: string
  a_size_bytes :: int
  a_checksum_sha256 :: string
  a_reference :: string
  a_expires_at :: int
  a_lineage :: string
  a_cleanup_state :: cleanup_state
  a_cleanup_owner :: "string option"
  a_cleanup_lease_until :: "int option"
  a_version :: int
  a_created_at :: int
  a_updated_at :: int

text \<open>The pattern \<open>^[0-9a-f]{64}$\<close>.\<close>

definition sha256_text :: "string \<Rightarrow> bool" where
  "sha256_text x \<longleftrightarrow> length x = 64 \<and>
    list_all (\<lambda>c. (48 \<le> (of_char c :: nat) \<and> of_char c \<le> (57 :: nat)) \<or>
      (97 \<le> (of_char c :: nat) \<and> of_char c \<le> (102 :: nat))) x"

text \<open>\<open>jsonb_typeof\<close> of a canonical JSON text is read off its first character.\<close>

definition json_array :: "string \<Rightarrow> bool" where
  "json_array x \<longleftrightarrow> take 1 x = ''[''"

definition json_object :: "string \<Rightarrow> bool" where
  "json_object x \<longleftrightarrow> take 1 x = ''{''"

definition artifact_check :: "artifact_row \<Rightarrow> bool" where
  "artifact_check a \<longleftrightarrow> btrim (a_id a) \<noteq> '''' \<and> btrim (a_tenant_id a) \<noteq> '''' \<and>
    btrim (a_name a) \<noteq> '''' \<and> len (a_name a) \<le> 255 \<and>
    btrim (a_content_type a) \<noteq> '''' \<and> len (a_content_type a) \<le> 255 \<and>
    a_size_bytes a \<ge> 0 \<and> sha256_text (a_checksum_sha256 a) \<and> btrim (a_reference a) \<noteq> '''' \<and>
    json_array (a_lineage a) \<and> len (a_lineage a) \<le> 65536 \<and> a_version a > 0"

definition artifact_table :: "artifact_row table" where
  "artifact_table = \<lparr>tb_tenant = a_tenant_id, tb_check = artifact_check,
    tb_conflict = (\<lambda>a b. a_id a = a_id b)\<rparr>"

section \<open>Notification outbox\<close>

datatype outbox_state = N_pending | N_leased | N_sent | N_failed

record outbox_row =
  n_id :: string
  n_task_id :: string
  n_tenant_id :: string
  n_verification_id :: string
  n_verification :: string
  n_finding :: string
  n_deep_link :: "string option"
  n_state :: outbox_state
  n_attempts :: int
  n_available_at :: int
  n_lease_owner :: "string option"
  n_lease_until :: "int option"
  n_last_error :: "string option"
  n_created_at :: int
  n_updated_at :: int

definition outbox_check :: "outbox_row \<Rightarrow> bool" where
  "outbox_check n \<longleftrightarrow> btrim (n_id n) \<noteq> '''' \<and> btrim (n_tenant_id n) \<noteq> '''' \<and>
    json_object (n_verification n) \<and> json_object (n_finding n) \<and> n_attempts n \<ge> 0 \<and>
    len (coalesce (n_last_error n) '''') \<le> 2048"

definition outbox_table :: "outbox_row table" where
  "outbox_table = \<lparr>tb_tenant = n_tenant_id, tb_check = outbox_check,
    tb_conflict = (\<lambda>n m. n_id n = n_id m \<or> n_verification_id n = n_verification_id m)\<rparr>"

section \<open>Checkpoints\<close>

record checkpoint_row =
  k_id :: string
  k_task_id :: string
  k_tenant_id :: string
  k_execution_id :: string
  k_checkpoint_key :: string
  k_handler_version :: int
  k_input_checksum :: string
  k_state :: string
  k_completed :: bool
  k_version :: int
  k_created_at :: int
  k_updated_at :: int

definition checkpoint_check :: "checkpoint_row \<Rightarrow> bool" where
  "checkpoint_check k \<longleftrightarrow> btrim (k_id k) \<noteq> '''' \<and> btrim (k_tenant_id k) \<noteq> '''' \<and>
    btrim (k_checkpoint_key k) \<noteq> '''' \<and> len (k_checkpoint_key k) \<le> 256 \<and>
    k_handler_version k > 0 \<and> sha256_text (k_input_checksum k) \<and>
    len (k_state k) \<le> 65536 \<and> k_version k > 0"

definition checkpoint_table :: "checkpoint_row table" where
  "checkpoint_table = \<lparr>tb_tenant = k_tenant_id, tb_check = checkpoint_check,
    tb_conflict = (\<lambda>k l. k_id k = k_id l \<or>
      (k_execution_id k = k_execution_id l \<and> k_checkpoint_key k = k_checkpoint_key l))\<rparr>"

section \<open>Durable steps\<close>

datatype step_state = S_pending | S_running | S_completed | S_failed | S_cancelled

record step_row =
  ds_id :: string
  ds_tenant_id :: string
  ds_task_id :: string
  ds_execution_id :: string
  ds_item_key :: string
  ds_step_key :: string
  ds_task_version :: int
  ds_step_version :: int
  ds_state :: step_state
  ds_result :: "string option"
  ds_result_ref :: "string option"
  ds_failure_reason :: "string option"
  ds_attempt :: int
  ds_version :: int
  ds_created_at :: int
  ds_updated_at :: int
  ds_completed_at :: "int option"

definition step_check :: "step_row \<Rightarrow> bool" where
  "step_check r \<longleftrightarrow> btrim (ds_id r) \<noteq> '''' \<and> btrim (ds_tenant_id r) \<noteq> '''' \<and>
    btrim (ds_item_key r) \<noteq> '''' \<and> len (ds_item_key r) \<le> 256 \<and>
    btrim (ds_step_key r) \<noteq> '''' \<and> len (ds_step_key r) \<le> 256 \<and>
    ds_task_version r > 0 \<and> ds_step_version r > 0 \<and>
    len (coalesce (ds_failure_reason r) '''') \<le> 2048 \<and> ds_attempt r \<ge> 0 \<and> ds_version r > 0 \<and>
    len (coalesce (ds_result r) '''') \<le> 65536 \<and>
    (ds_state r = S_completed \<longrightarrow> ds_result r \<noteq> None \<or> ds_result_ref r \<noteq> None)"

definition step_table :: "step_row table" where
  "step_table = \<lparr>tb_tenant = ds_tenant_id, tb_check = step_check,
    tb_conflict = (\<lambda>r q. ds_id r = ds_id q \<or>
      (ds_task_id r = ds_task_id q \<and> ds_item_key r = ds_item_key q \<and> ds_step_key r = ds_step_key q))\<rparr>"

datatype attempt_state = A_running | A_completed | A_failed | A_cancelled | A_expired

record attempt_row =
  da_id :: string
  da_tenant_id :: string
  da_step_id :: string
  da_execution_id :: string
  da_attempt :: int
  da_state :: attempt_state
  da_lease_owner :: string
  da_lease_epoch :: int
  da_lease_until :: int
  da_failure_reason :: "string option"
  da_created_at :: int
  da_updated_at :: int
  da_completed_at :: "int option"

definition attempt_check :: "attempt_row \<Rightarrow> bool" where
  "attempt_check a \<longleftrightarrow> btrim (da_id a) \<noteq> '''' \<and> btrim (da_tenant_id a) \<noteq> '''' \<and> da_attempt a > 0 \<and>
    btrim (da_lease_owner a) \<noteq> '''' \<and> da_lease_epoch a > 0 \<and>
    len (coalesce (da_failure_reason a) '''') \<le> 2048"

definition attempt_table :: "attempt_row table" where
  "attempt_table = \<lparr>tb_tenant = da_tenant_id, tb_check = attempt_check,
    tb_conflict = (\<lambda>a b. da_id a = da_id b \<or>
      (da_step_id a = da_step_id b \<and> da_attempt a = da_attempt b))\<rparr>"

section \<open>Resource pools and leases\<close>

text \<open>The four dimensions of a capacity or of a request.\<close>

record resources =
  r_cpu :: int
  r_memory :: int
  r_disk :: int
  r_network :: int

record pool_row =
  rp_tenant_id :: string
  rp_pool_key :: string
  rp_capacity :: resources
  rp_version :: int
  rp_created_at :: int
  rp_updated_at :: int

definition resources_nonneg :: "resources \<Rightarrow> bool" where
  "resources_nonneg r \<longleftrightarrow> r_cpu r \<ge> 0 \<and> r_memory r \<ge> 0 \<and> r_disk r \<ge> 0 \<and> r_network r \<ge> 0"

definition resources_some :: "resources \<Rightarrow> bool" where
  "resources_some r \<longleftrightarrow> r_cpu r > 0 \<or> r_memory r > 0 \<or> r_disk r > 0 \<or> r_network r > 0"

definition pool_check :: "pool_row \<Rightarrow> bool" where
  "pool_check p \<longleftrightarrow> btrim (rp_tenant_id p) \<noteq> '''' \<and> btrim (rp_pool_key p) \<noteq> '''' \<and>
    len (rp_pool_key p) \<le> 128 \<and> resources_nonneg (rp_capacity p) \<and> rp_version p > 0 \<and>
    resources_some (rp_capacity p)"

definition pool_table :: "pool_row table" where
  "pool_table = \<lparr>tb_tenant = rp_tenant_id, tb_check = pool_check,
    tb_conflict = (\<lambda>p q. rp_tenant_id p = rp_tenant_id q \<and> rp_pool_key p = rp_pool_key q)\<rparr>"

datatype lease_state = L_active | L_released | L_expired

record lease_row =
  l_id :: string
  l_tenant_id :: string
  l_pool_key :: string
  l_task_id :: string
  l_execution_id :: string
  l_lease_owner :: string
  l_lease_epoch :: int
  l_request :: resources
  l_state :: lease_state
  l_lease_until :: int
  l_created_at :: int
  l_updated_at :: int
  l_released_at :: "int option"

definition lease_check :: "lease_row \<Rightarrow> bool" where
  "lease_check l \<longleftrightarrow> btrim (l_id l) \<noteq> '''' \<and> btrim (l_tenant_id l) \<noteq> '''' \<and>
    btrim (l_pool_key l) \<noteq> '''' \<and> len (l_pool_key l) \<le> 128 \<and> btrim (l_lease_owner l) \<noteq> '''' \<and>
    l_lease_epoch l > 0 \<and> resources_nonneg (l_request l) \<and> resources_some (l_request l)"

definition lease_table :: "lease_row table" where
  "lease_table = \<lparr>tb_tenant = l_tenant_id, tb_check = lease_check,
    tb_conflict = (\<lambda>l m. l_id l = l_id m \<or>
      (l_tenant_id l = l_tenant_id m \<and> l_task_id l = l_task_id m \<and>
       l_execution_id l = l_execution_id m \<and> l_pool_key l = l_pool_key m))\<rparr>"

section \<open>The database\<close>

text \<open>\<open>notices\<close> is what \<open>pg_notify\<close> queued on channel \<open>rhinoq_task_changed\<close>, in order.\<close>

record notice =
  nt_task_id :: string
  nt_version :: int
  nt_tenant_id :: string

record db =
  tasks :: "task_row list"
  executions :: "execution_row list"
  waitpoints :: "waitpoint_row list"
  verifications :: "verification_row list"
  artifacts :: "artifact_row list"
  outbox :: "outbox_row list"
  checkpoints :: "checkpoint_row list"
  steps :: "step_row list"
  step_attempts :: "attempt_row list"
  pools :: "pool_row list"
  leases :: "lease_row list"
  notices :: "notice list"

definition empty_db :: db where
  "empty_db = \<lparr>tasks = [], executions = [], waitpoints = [], verifications = [], artifacts = [],
    outbox = [], checkpoints = [], steps = [], step_attempts = [], pools = [], leases = [],
    notices = []\<rparr>"

type_synonym 'a command = "db \<Rightarrow> ('a \<times> db) res"

text \<open>\<open>rhinoq_task.fail\<close> and \<open>rhinoq_task.fail_version\<close>.\<close>

definition fail :: "string \<Rightarrow> string \<Rightarrow> 'a res" where
  "fail code detail = Inl (Rhinoq code (nullif detail ''''))"

definition fail_version ::
  "string \<Rightarrow> string \<Rightarrow> int \<Rightarrow> int \<Rightarrow> string option \<Rightarrow> string option \<Rightarrow> 'a res" where
  "fail_version p_operation p_id p_expected p_current p_scope p_wrong_scope_hint = (case p_wrong_scope_hint of
      Some h \<Rightarrow> Inl (Rhinoq ''RHINOQ_WRONG_VERSION_SCOPE'' (Some
        (p_operation @ ''('' @ p_id @ ''): expected version '' @ int_text p_expected @
         '' is the current '' @ h @ '' version, not the '' @ coalesce p_scope ''entity'' @
         '' version '' @ int_text p_current @ ''. '' @
         ''An Execution command fences on TaskExecution.version; only a Task command '' @
         ''fences on TaskSnapshot.entityVersion.'')))
    | None \<Rightarrow> Inl (Rhinoq ''RHINOQ_VERSION_CONFLICT'' (Some
        (p_operation @ ''('' @ p_id @ ''): expected '' @ coalesce p_scope ''entity'' @ '' version '' @
         int_text p_expected @ '', current version '' @ int_text p_current @
         ''. Re-read the entity and retry the command with the version it returned.''))))"

lemma fail_not_Inr [simp]: "fail code detail \<noteq> Inr x" "fail_version op i ex cur sc h \<noteq> Inr x"
  by (auto simp: fail_def fail_version_def split: option.splits)

lemma task_state_of_name [simp]: "task_state_of (task_state_name st) = Some st"
  by (cases st) (simp_all add: task_state_of_def)

lemma task_state_of_SomeD: "task_state_of n = Some st \<Longrightarrow> task_state_name st = n"
  unfolding task_state_of_def by (erule find_SomeE)

lemma exec_state_of_name [simp]: "exec_state_of (exec_state_name st) = Some st"
  by (cases st) (simp_all add: exec_state_of_def)

lemma exec_state_of_SomeD: "exec_state_of n = Some st \<Longrightarrow> exec_state_name st = n"
  unfolding exec_state_of_def by (erule find_SomeE)

lemmas tables = task_table_def execution_table_def waitpoint_table_def verification_table_def
  artifact_table_def outbox_table_def checkpoint_table_def step_table_def attempt_table_def
  pool_table_def lease_table_def

lemma tb_tenant_simps [simp]:
  "tb_tenant task_table = t_tenant_id" "tb_tenant execution_table = e_tenant_id"
  "tb_tenant waitpoint_table = w_tenant_id" "tb_tenant verification_table = v_tenant_id"
  "tb_tenant artifact_table = a_tenant_id" "tb_tenant outbox_table = n_tenant_id"
  "tb_tenant checkpoint_table = k_tenant_id" "tb_tenant step_table = ds_tenant_id"
  "tb_tenant attempt_table = da_tenant_id" "tb_tenant pool_table = rp_tenant_id"
  "tb_tenant lease_table = l_tenant_id"
  by (simp_all add: tables)

interpretation task_key: keyed_table task_table t_id
  by unfold_locales (simp add: tables)

interpretation execution_key: keyed_table execution_table e_id
  by unfold_locales (simp add: tables execution_conflict_def)

interpretation waitpoint_key: keyed_table waitpoint_table w_id
  by unfold_locales (simp add: tables waitpoint_conflict_def)

interpretation verification_key: keyed_table verification_table v_id
  by unfold_locales (simp add: tables)

interpretation artifact_key: keyed_table artifact_table a_id
  by unfold_locales (simp add: tables)

interpretation outbox_key: keyed_table outbox_table n_id
  by unfold_locales (simp add: tables)

interpretation checkpoint_key: keyed_table checkpoint_table k_id
  by unfold_locales (simp add: tables)

interpretation step_key: keyed_table step_table ds_id
  by unfold_locales (simp add: tables)

interpretation attempt_key: keyed_table attempt_table da_id
  by unfold_locales (simp add: tables)

interpretation pool_key: keyed_table pool_table "\<lambda>p. (rp_tenant_id p, rp_pool_key p)"
  by unfold_locales (simp add: tables)

interpretation lease_key: keyed_table lease_table l_id
  by unfold_locales (simp add: tables)

end
