(* ===== verification/Store.thy ===== *)
theory Store
  imports Schema
begin

text \<open>
  Statements on the two central tables with the triggers of migrations 016 and 017: every write
  to \<open>executions\<close> maintains the aggregates of the parent Task and raises its version, and every
  write to \<open>tasks\<close> that moves a version queues a notice. The theory then states the invariant of
  the database (\<open>core_ok\<close>), the order in which its rows evolve (\<open>evolves\<close>), and shows that each
  statement respects both.
\<close>

section \<open>Aggregates\<close>

definition counts_of :: "execution_row list \<Rightarrow> exec_counts" where
  "counts_of rows = \<lparr>c_total = int (length rows),
    c_pending_dispatch = count_where (\<lambda>e. e_state e = E_pending_dispatch) rows,
    c_dispatched = count_where (\<lambda>e. e_state e = E_dispatched) rows,
    c_running = count_where (\<lambda>e. e_state e = E_running) rows,
    c_succeeded = count_where (\<lambda>e. e_state e = E_succeeded) rows,
    c_failed = count_where (\<lambda>e. e_state e = E_failed) rows,
    c_stalled = count_where (\<lambda>e. e_state e = E_stalled) rows,
    c_cancelled = count_where (\<lambda>e. e_state e = E_cancelled) rows\<rparr>"

definition add_state_counts :: "exec_counts \<Rightarrow> exec_counts \<Rightarrow> exec_counts" where
  "add_state_counts c delta = c\<lparr>
    c_pending_dispatch := c_pending_dispatch c + c_pending_dispatch delta,
    c_dispatched := c_dispatched c + c_dispatched delta,
    c_running := c_running c + c_running delta,
    c_succeeded := c_succeeded c + c_succeeded delta,
    c_failed := c_failed c + c_failed delta,
    c_stalled := c_stalled c + c_stalled delta,
    c_cancelled := c_cancelled c + c_cancelled delta\<rparr>"

definition neg_counts :: "exec_counts \<Rightarrow> exec_counts" where
  "neg_counts c = \<lparr>c_total = - c_total c, c_pending_dispatch = - c_pending_dispatch c,
    c_dispatched = - c_dispatched c, c_running = - c_running c, c_succeeded = - c_succeeded c,
    c_failed = - c_failed c, c_stalled = - c_stalled c, c_cancelled = - c_cancelled c\<rparr>"

definition add_counts :: "exec_counts \<Rightarrow> exec_counts \<Rightarrow> exec_counts" where
  "add_counts c delta = (add_state_counts c delta)\<lparr>c_total := c_total c + c_total delta\<rparr>"

definition executions_of :: "string \<Rightarrow> execution_row list \<Rightarrow> execution_row list" where
  "executions_of tid rows = filter (\<lambda>e. e_task_id e = tid) rows"

section \<open>Statements\<close>

text \<open>\<open>announce_tasks\<close>: rows of one UPDATE whose version moved.\<close>

definition notify_change :: "task_row \<Rightarrow> notice" where
  "notify_change t = \<lparr>nt_task_id = t_id t, nt_version = t_version t, nt_tenant_id = t_tenant_id t\<rparr>"

definition announce_tasks :: "task_row list \<Rightarrow> task_row list \<Rightarrow> notice list" where
  "announce_tasks previous changed =
    map (\<lambda>(b, a). notify_change a) (filter (\<lambda>(b, a). t_version b \<noteq> t_version a) (zip previous changed))"

definition update_tasks ::
  "session \<Rightarrow> (task_row \<Rightarrow> bool) \<Rightarrow> (task_row \<Rightarrow> task_row) \<Rightarrow> db \<Rightarrow> db res" where
  "update_tasks s p f d = bind_res (update_rows s task_table p f (tasks d)) (\<lambda>rows.
    Inr (d\<lparr>tasks := rows, notices := notices d @ announce_tasks (tasks d) rows\<rparr>))"

abbreviation update_task :: "session \<Rightarrow> string \<Rightarrow> (task_row \<Rightarrow> task_row) \<Rightarrow> db \<Rightarrow> db res" where
  "update_task s tid \<equiv> update_tasks s (\<lambda>t. t_id t = tid)"

text \<open>\<open>SET version = version + 1, updated_at = clock_timestamp()\<close>.\<close>

definition touch_task :: "int \<Rightarrow> task_row \<Rightarrow> task_row" where
  "touch_task now t = t\<lparr>t_version := t_version t + 1, t_updated_at := now\<rparr>"

definition select_task :: "session \<Rightarrow> string \<Rightarrow> db \<Rightarrow> task_row option" where
  "select_task s tid d = select_one s task_table (\<lambda>t. t_id t = tid) (tasks d)"

definition select_execution :: "session \<Rightarrow> string \<Rightarrow> db \<Rightarrow> execution_row option" where
  "select_execution s eid d = select_one s execution_table (\<lambda>e. e_id e = eid) (executions d)"

text \<open>An insert into \<open>tasks\<close> queues a notice for the row (\<open>announce_created_tasks\<close>).\<close>

definition insert_task :: "session \<Rightarrow> task_row \<Rightarrow> db \<Rightarrow> db res" where
  "insert_task s t d = bind_res (insert_row s task_table t (tasks d)) (\<lambda>rows.
    Inr (d\<lparr>tasks := rows, notices := notices d @ [notify_change t]\<rparr>))"

definition insert_task_or_nothing :: "session \<Rightarrow> task_row \<Rightarrow> db \<Rightarrow> (bool \<times> db) res" where
  "insert_task_or_nothing s t d =
    bind_res (insert_row_or_nothing s task_table t (tasks d)) (\<lambda>(found, rows).
      Inr (found, d\<lparr>tasks := rows, notices := notices d @ (if found then [notify_change t] else [])\<rparr>))"

text \<open>The statement triggers of migration 016.\<close>

definition execution_counts_inserted :: "session \<Rightarrow> int \<Rightarrow> execution_row list \<Rightarrow> db \<Rightarrow> db res" where
  "execution_counts_inserted s now inserted d =
    update_tasks s (\<lambda>t. t_id t \<in> e_task_id ` set inserted)
      (\<lambda>t. touch_task now (t\<lparr>t_counts :=
        add_counts (t_counts t) (counts_of (executions_of (t_id t) inserted))\<rparr>)) d"

definition execution_counts_updated ::
  "session \<Rightarrow> int \<Rightarrow> (execution_row \<times> execution_row) list \<Rightarrow> db \<Rightarrow> db res" where
  "execution_counts_updated s now pairs d = (
    let moved = filter (\<lambda>(b, a). e_state b \<noteq> e_state a) pairs in
    update_tasks s (\<lambda>t. t_id t \<in> (\<lambda>(b, a). e_task_id a) ` set moved)
      (\<lambda>t. let own = filter (\<lambda>(b, a). e_task_id a = t_id t) moved in
        touch_task now (t\<lparr>t_counts := add_state_counts
          (add_state_counts (t_counts t) (counts_of (map snd own)))
          (neg_counts (counts_of (map fst own)))\<rparr>)) d)"

definition execution_counts_deleted :: "session \<Rightarrow> int \<Rightarrow> execution_row list \<Rightarrow> db \<Rightarrow> db res" where
  "execution_counts_deleted s now removed d =
    update_tasks s (\<lambda>t. t_id t \<in> e_task_id ` set removed)
      (\<lambda>t. touch_task now (t\<lparr>t_counts :=
        add_counts (t_counts t) (neg_counts (counts_of (executions_of (t_id t) removed)))\<rparr>)) d"

definition task_key_exists :: "string \<Rightarrow> string \<Rightarrow> db \<Rightarrow> bool" where
  "task_key_exists tid tenant d = list_ex (\<lambda>t. t_id t = tid \<and> t_tenant_id t = tenant) (tasks d)"

definition execution_key_exists :: "string \<Rightarrow> string \<Rightarrow> db \<Rightarrow> bool" where
  "execution_key_exists eid tenant d =
    list_ex (\<lambda>e. e_id e = eid \<and> e_tenant_id e = tenant) (executions d)"

definition insert_execution :: "session \<Rightarrow> int \<Rightarrow> execution_row \<Rightarrow> db \<Rightarrow> db res" where
  "insert_execution s now e d =
    bind_res (insert_row s execution_table e (executions d)) (\<lambda>rows.
      if \<not> task_key_exists (e_task_id e) (e_tenant_id e) d then Inl foreign_key_violation
      else execution_counts_inserted s now [e] (d\<lparr>executions := rows\<rparr>))"

definition update_execution ::
  "session \<Rightarrow> int \<Rightarrow> string \<Rightarrow> (execution_row \<Rightarrow> execution_row) \<Rightarrow> db \<Rightarrow> db res" where
  "update_execution s now eid f d =
    bind_res (update_rows s execution_table (\<lambda>e. e_id e = eid) f (executions d)) (\<lambda>rows.
      execution_counts_updated s now (zip (executions d) rows) (d\<lparr>executions := rows\<rparr>))"

text \<open>A command that catches \<open>unique_violation\<close> and raises an error of its own instead.\<close>

definition on_unique_violation :: "'a res \<Rightarrow> 'a res \<Rightarrow> 'a res" where
  "on_unique_violation handler m =
    (case m of Inl e \<Rightarrow> if e = unique_violation then handler else Inl e | Inr x \<Rightarrow> Inr x)"

lemma on_unique_violation_InrD:
  "on_unique_violation (fail code detail) m = Inr x \<Longrightarrow> m = Inr x"
  by (auto simp: on_unique_violation_def split: sum.splits if_splits)

section \<open>Invariant\<close>

text \<open>
  What a Task's lifecycle state says about its cancellation status. A Task that was never asked
  to stop has status none; a cancelled one has status cancelled.
\<close>

definition cancellation_ok :: "task_row \<Rightarrow> bool" where
  "cancellation_ok t \<longleftrightarrow> (case t_state t of
      T_pending \<Rightarrow> t_cancellation_status t = C_none
    | T_queued \<Rightarrow> t_cancellation_status t = C_none
    | T_running \<Rightarrow> t_cancellation_status t = C_none
    | T_cancel_requested \<Rightarrow>
        t_cancellation_status t \<in> {C_requested, C_acknowledged, C_cannot_cancel_safely, C_failed}
    | T_uncertain \<Rightarrow> t_cancellation_status t \<notin> {C_cancelled, C_too_late}
    | T_succeeded \<Rightarrow> t_cancellation_status t \<noteq> C_cancelled
    | T_failed \<Rightarrow> t_cancellation_status t \<notin> {C_cancelled, C_too_late}
    | T_cancelled \<Rightarrow> t_cancellation_status t = C_cancelled)"

definition parents_ok :: "db \<Rightarrow> bool" where
  "parents_ok d \<longleftrightarrow> list_all (\<lambda>e. task_key_exists (e_task_id e) (e_tenant_id e) d) (executions d)"

definition counts_ok :: "db \<Rightarrow> bool" where
  "counts_ok d \<longleftrightarrow> list_all (\<lambda>t. t_counts t = counts_of (executions_of (t_id t) (executions d))) (tasks d)"

definition core_ok :: "db \<Rightarrow> bool" where
  "core_ok d \<longleftrightarrow> table_ok task_table (tasks d) \<and> table_ok execution_table (executions d) \<and>
    parents_ok d \<and> counts_ok d \<and> list_all cancellation_ok (tasks d)"

section \<open>Evolution\<close>

definition exec_terminal :: "exec_state \<Rightarrow> bool" where
  "exec_terminal st \<longleftrightarrow> st \<in> {E_succeeded, E_failed, E_cancelled}"

text \<open>
  How a Task row may change: its identity is fixed, version and completed progress never go
  back, the settled stamp is written once, \<open>succeeded\<close> is final, and a change of anything but the
  settled stamp and \<open>updated_at\<close> raises the version.
\<close>

definition task_view :: "task_row \<Rightarrow> task_row" where
  "task_view t = t\<lparr>t_items_settled_at := None, t_updated_at := 0\<rparr>"

definition task_evolves :: "task_row \<Rightarrow> task_row \<Rightarrow> bool" where
  "task_evolves t u \<longleftrightarrow> t_id u = t_id t \<and> t_type u = t_type t \<and> t_tenant_id u = t_tenant_id t \<and>
    t_owner_id u = t_owner_id t \<and> t_definition_version u = t_definition_version t \<and>
    t_created_at u = t_created_at t \<and> t_version t \<le> t_version u \<and>
    t_progress_completed t \<le> t_progress_completed u \<and>
    (t_items_settled_at t \<noteq> None \<longrightarrow> t_items_settled_at u = t_items_settled_at t) \<and>
    (t_state t = T_succeeded \<longrightarrow> t_state u = T_succeeded) \<and>
    (t_version u = t_version t \<longrightarrow> task_view u = task_view t)"

definition exec_evolves :: "execution_row \<Rightarrow> execution_row \<Rightarrow> bool" where
  "exec_evolves e f \<longleftrightarrow> e_id f = e_id e \<and> e_task_id f = e_task_id e \<and> e_tenant_id f = e_tenant_id e \<and>
    e_item_key f = e_item_key e \<and> e_attempt f = e_attempt e \<and> e_runtime f = e_runtime e \<and>
    e_created_at f = e_created_at e \<and> e_version e \<le> e_version f \<and>
    (e_external_id e \<noteq> None \<longrightarrow>
      e_external_id f = e_external_id e \<and> e_runtime_scope f = e_runtime_scope e) \<and>
    (exec_terminal (e_state e) \<longrightarrow> e_state f = e_state e) \<and>
    (e_superseded_at e \<noteq> None \<longrightarrow> e_superseded_at f = e_superseded_at e) \<and>
    prefix (e_effect_keys e) (e_effect_keys f) \<and> (e_version f = e_version e \<longrightarrow> f = e)"

text \<open>What a Snapshot shows of an attempt besides its own version and time of update.\<close>

definition exec_view :: "execution_row \<Rightarrow> execution_row" where
  "exec_view e = e\<lparr>e_version := 0, e_updated_at := 0, e_effect_keys := []\<rparr>"

definition rows_evolve :: "('r \<Rightarrow> 'r \<Rightarrow> bool) \<Rightarrow> 'r list \<Rightarrow> 'r list \<Rightarrow> bool" where
  "rows_evolve R rows rows' \<longleftrightarrow> length rows \<le> length rows' \<and>
    list_all2 R rows (take (length rows) rows')"

definition task_version_of :: "string \<Rightarrow> db \<Rightarrow> int option" where
  "task_version_of tid d = map_option t_version (find (\<lambda>t. t_id t = tid) (tasks d))"

text \<open>
  A Task whose version stays shows the same attempts; \<open>dirty\<close> names Tasks exempted in the middle
  of a command.
\<close>

definition views_kept :: "string set \<Rightarrow> db \<Rightarrow> db \<Rightarrow> bool" where
  "views_kept dirty d d' \<longleftrightarrow> (\<forall>tid v. tid \<notin> dirty \<longrightarrow> task_version_of tid d = Some v \<longrightarrow>
    task_version_of tid d' = Some v \<longrightarrow>
    map exec_view (executions_of tid (executions d')) = map exec_view (executions_of tid (executions d)))"

definition evolves :: "db \<Rightarrow> db \<Rightarrow> bool" where
  "evolves d d' \<longleftrightarrow> rows_evolve task_evolves (tasks d) (tasks d') \<and>
    rows_evolve exec_evolves (executions d) (executions d') \<and> views_kept {} d d'"

section \<open>Laws of the statements\<close>

text \<open>The tables besides \<open>tasks\<close> and \<open>executions\<close>.\<close>

definition rest :: "db \<Rightarrow> db" where
  "rest d = d\<lparr>tasks := [], executions := [], notices := []\<rparr>"

lemma upd_where_cong:
  "(\<And>r. r \<in> set rows \<Longrightarrow> p r = q r) \<Longrightarrow> (\<And>r. r \<in> set rows \<Longrightarrow> p r \<Longrightarrow> f r = g r) \<Longrightarrow>
    upd_where p f rows = upd_where q g rows"
  by (auto simp: upd_where_def)

lemma update_tasksD:
  assumes "update_tasks s p f d = Inr d'"
  shows "tasks d' = upd_where (\<lambda>t. visible s (t_tenant_id t) \<and> p t) f (tasks d)"
    and "executions d' = executions d" and "rest d' = rest d"
    and "table_ok task_table (tasks d) \<Longrightarrow> table_ok task_table (tasks d')"
    and "notices d' = notices d @ announce_tasks (tasks d) (tasks d')"
  using assms
  by (auto simp: update_tasks_def rest_def update_rows_ok(2) dest: update_rows_ok(1))

lemma task_of_key:
  assumes "table_ok task_table (tasks d)" and "task_key_exists tid tenant d"
    and "t \<in> set (tasks d)" and "t_id t = tid"
  shows "t_tenant_id t = tenant"
proof -
  obtain u where "u \<in> set (tasks d)" "t_id u = tid" "t_tenant_id u = tenant"
    using assms(2) by (auto simp: task_key_exists_def list_ex_iff)
  then show ?thesis using task_key.key_inj [OF assms(1,3)] assms(4) by auto
qed

text \<open>An UPDATE of one Task the session can see.\<close>

lemma update_taskD:
  assumes "update_task s (t_id t) f d = Inr d'" and "table_ok task_table (tasks d)"
    and "t \<in> set (tasks d)" and "visible s (t_tenant_id t)"
  shows "tasks d' = upd_where (\<lambda>x. t_id x = t_id t) f (tasks d)"
  unfolding update_tasksD(1) [OF assms(1)]
  by (rule upd_where_cong) (use task_key.key_inj [OF assms(2) _ assms(3)] assms(4) in auto)

lemma moved_upd_one:
  assumes "distinct (map k rows)" and "r \<in> set rows"
  shows "filter (\<lambda>(b, a). g b \<noteq> g a) (zip rows (upd_where (\<lambda>x. k x = k r) f rows)) =
    (if g (f r) = g r then [] else [(r, f r)])"
  using assms
proof (induction rows)
  case Nil
  then show ?case by simp
next
  case (Cons a rows)
  show ?case
  proof (cases "k a = k r")
    case True
    have "a = r" using distinct_map_eqD [OF Cons.prems(1) _ Cons.prems(2) True] by simp
    moreover have "k r \<notin> k ` set rows" using Cons.prems(1) True by simp
    then have "\<And>x. x \<in> set rows \<Longrightarrow> k x \<noteq> k r" by (metis imageI)
    then have "upd_where (\<lambda>x. k x = k r) f rows = rows" by (rule upd_where_none)
    moreover have "filter (\<lambda>(b, a). g b \<noteq> g a) (zip rows rows) = []"
      by (auto simp: filter_empty_conv in_set_zip)
    ultimately show ?thesis by (auto simp: upd_where_def)
  next
    case False
    then have "r \<in> set rows" using Cons.prems(2) by auto
    with Cons False show ?thesis by (simp add: upd_where_def)
  qed
qed

text \<open>
  An UPDATE of one attempt the session can see: the aggregates of its Task follow, and the Task's
  version rises, exactly when the state moved.
\<close>

definition recounted :: "int \<Rightarrow> execution_row \<Rightarrow> execution_row \<Rightarrow> task_row \<Rightarrow> task_row" where
  "recounted now e f t = touch_task now (t\<lparr>t_counts := add_state_counts
    (add_state_counts (t_counts t) (counts_of [f])) (neg_counts (counts_of [e]))\<rparr>)"

definition counted :: "int \<Rightarrow> execution_row \<Rightarrow> task_row \<Rightarrow> task_row" where
  "counted now e t = touch_task now (t\<lparr>t_counts := add_counts (t_counts t) (counts_of [e])\<rparr>)"

lemma wfD:
  assumes "core_ok d"
  shows "table_ok task_table (tasks d)" "table_ok execution_table (executions d)"
    "parents_ok d" "counts_ok d" "list_all cancellation_ok (tasks d)"
  using assms by (simp_all add: core_ok_def)

lemma parent_exists:
  assumes "core_ok d" and "e \<in> set (executions d)"
  shows "task_key_exists (e_task_id e) (e_tenant_id e) d"
  using assms by (auto simp: core_ok_def parents_ok_def list_all_iff)

lemma update_executionD:
  assumes upd: "update_execution s now (e_id e) f d = Inr d'" and core_ok: "core_ok d"
    and e: "e \<in> set (executions d)" "visible s (e_tenant_id e)"
    and keep: "\<And>x. e_task_id (f x) = e_task_id x"
  shows "executions d' = upd_where (\<lambda>x. e_id x = e_id e) f (executions d)"
    and "tasks d' = (if e_state (f e) = e_state e then tasks d
      else upd_where (\<lambda>t. t_id t = e_task_id e) (recounted now e (f e)) (tasks d))"
    and "rest d' = rest d" and "table_ok execution_table (executions d')"
    and "table_ok task_table (tasks d')"
proof -
  note ok = wfD [OF core_ok]
  obtain rows where rows: "update_rows s execution_table (\<lambda>x. e_id x = e_id e) f (executions d) = Inr rows"
    and cnt: "execution_counts_updated s now (zip (executions d) rows) (d\<lparr>executions := rows\<rparr>) = Inr d'"
    using upd by (auto simp: update_execution_def)
  have r: "rows = upd_where (\<lambda>x. e_id x = e_id e) f (executions d)"
    using execution_key.update_by_key [OF rows ok(2) e(1)] e(2) by simp
  note dist = execution_key.distinct_keys [OF ok(2)]
  have moved: "filter (\<lambda>(b, a). e_state b \<noteq> e_state a) (zip (executions d) rows) =
      (if e_state (f e) = e_state e then [] else [(e, f e)])"
    unfolding r by (rule moved_upd_one [OF dist e(1)])
  note D = update_tasksD [OF cnt [unfolded execution_counts_updated_def Let_def moved]]
  show "executions d' = upd_where (\<lambda>x. e_id x = e_id e) f (executions d)"
    using D(2) r by simp
  show "rest d' = rest d" using D(3) by (simp add: rest_def)
  show "table_ok execution_table (executions d')"
    using D(2) update_rows_ok(2) [OF rows ok(2)] by simp
  show "table_ok task_table (tasks d')" using D(4) ok(1) by simp
  have vis: "visible s (t_tenant_id t)" if "t \<in> set (tasks d)" "t_id t = e_task_id e" for t
    using task_of_key [OF ok(1) parent_exists [OF core_ok e(1)] that] e(2) by simp
  show "tasks d' = (if e_state (f e) = e_state e then tasks d
      else upd_where (\<lambda>t. t_id t = e_task_id e) (recounted now e (f e)) (tasks d))"
  proof (cases "e_state (f e) = e_state e")
    case True
    then show ?thesis using D(1) by (simp add: upd_where_none)
  next
    case False
    then show ?thesis
      unfolding D(1) by (auto simp: keep vis recounted_def intro!: upd_where_cong)
  qed
qed

lemma insert_executionD:
  assumes ins: "insert_execution s now e d = Inr d'" and core_ok: "core_ok d"
  shows "executions d' = executions d @ [e]"
    and "tasks d' = upd_where (\<lambda>t. t_id t = e_task_id e) (counted now e) (tasks d)"
    and "rest d' = rest d" and "table_ok execution_table (executions d')"
    and "table_ok task_table (tasks d')" and "visible s (e_tenant_id e)"
    and "task_key_exists (e_task_id e) (e_tenant_id e) d"
proof -
  note ok = wfD [OF core_ok]
  obtain rows where rows: "insert_row s execution_table e (executions d) = Inr rows"
    and key: "task_key_exists (e_task_id e) (e_tenant_id e) d"
    and cnt: "execution_counts_inserted s now [e] (d\<lparr>executions := rows\<rparr>) = Inr d'"
    using ins by (auto simp: insert_execution_def split: if_splits)
  note R = insert_row_ok [OF rows]
  note D = update_tasksD [OF cnt [unfolded execution_counts_inserted_def]]
  show "task_key_exists (e_task_id e) (e_tenant_id e) d" by (rule key)
  show vis: "visible s (e_tenant_id e)" using R(2) by simp
  show "executions d' = executions d @ [e]" using D(2) R(1) by simp
  show "rest d' = rest d" using D(3) by (simp add: rest_def)
  show "table_ok execution_table (executions d')" using D(2) R(3) [OF ok(2)] by simp
  show "table_ok task_table (tasks d')" using D(4) ok(1) by simp
  have "visible s (t_tenant_id t)" if "t \<in> set (tasks d)" "t_id t = e_task_id e" for t
    using task_of_key [OF ok(1) key that] vis by simp
  then show "tasks d' = upd_where (\<lambda>t. t_id t = e_task_id e) (counted now e) (tasks d)"
    unfolding D(1) by (auto simp: counted_def executions_of_def intro!: upd_where_cong)
qed

subsection \<open>The invariant\<close>

lemma task_key_exists_iff:
  "task_key_exists tid tenant d \<longleftrightarrow> (tid, tenant) \<in> set (map (\<lambda>t. (t_id t, t_tenant_id t)) (tasks d))"
  by (auto simp: task_key_exists_def list_ex_iff)

lemma count_where_executions_of:
  "count_where p (executions_of tid rows) = count_where (\<lambda>e. e_task_id e = tid \<and> p e) rows"
  by (induction rows) (auto simp: executions_of_def)

lemma length_executions_of: "int (length (executions_of tid rows)) = count_where (\<lambda>e. e_task_id e = tid) rows"
  by (simp add: executions_of_def count_where_def)

lemmas count_simps = counts_of_def add_counts_def add_state_counts_def neg_counts_def
  count_where_executions_of length_executions_of

lemma counts_snoc:
  "counts_of (executions_of tid (rows @ [e])) = (if e_task_id e = tid
    then add_counts (counts_of (executions_of tid rows)) (counts_of [e])
    else counts_of (executions_of tid rows))"
  by (simp add: count_simps)

lemma counts_upd_one:
  assumes "distinct (map e_id rows)" and "e \<in> set rows" and "e_task_id (f e) = e_task_id e"
  shows "counts_of (executions_of tid (upd_where (\<lambda>x. e_id x = e_id e) f rows)) =
    (if e_task_id e = tid
     then add_state_counts (add_state_counts (counts_of (executions_of tid rows)) (counts_of [f e]))
       (neg_counts (counts_of [e]))
     else counts_of (executions_of tid rows))"
  using assms(3) by (simp add: count_simps count_where_upd_one [OF assms(1,2)])

lemma recount_same:
  "e_state f = e_state e \<Longrightarrow>
    add_state_counts (add_state_counts c (counts_of [f])) (neg_counts (counts_of [e])) = c"
  by (simp add: count_simps)

lemma cancellation_ok_cong:
  "t_state u = t_state t \<Longrightarrow> t_cancellation_status u = t_cancellation_status t \<Longrightarrow>
    cancellation_ok u = cancellation_ok t"
  by (cases "t_state t") (simp_all add: cancellation_ok_def)

lemma cancellation_ok_simps [simp]:
  "cancellation_ok (touch_task now t) = cancellation_ok t"
  "cancellation_ok (t\<lparr>t_counts := c\<rparr>) = cancellation_ok t"
  by (rule cancellation_ok_cong; simp add: touch_task_def)+

lemma touch_task_simps [simp]:
  "t_id (touch_task now t) = t_id t" "t_tenant_id (touch_task now t) = t_tenant_id t"
  "t_counts (touch_task now t) = t_counts t" "t_state (touch_task now t) = t_state t"
  "t_cancellation_status (touch_task now t) = t_cancellation_status t"
  "t_version (touch_task now t) = t_version t + 1"
  by (simp_all add: touch_task_def)

lemma counted_simps [simp]:
  "t_id (counted now e t) = t_id t" "t_tenant_id (counted now e t) = t_tenant_id t"
  "t_version (counted now e t) = t_version t + 1"
  "cancellation_ok (counted now e t) = cancellation_ok t"
  "t_counts (counted now e t) = add_counts (t_counts t) (counts_of [e])"
  by (simp_all add: counted_def)

lemma recounted_simps [simp]:
  "t_id (recounted now e f t) = t_id t" "t_tenant_id (recounted now e f t) = t_tenant_id t"
  "t_version (recounted now e f t) = t_version t + 1"
  "cancellation_ok (recounted now e f t) = cancellation_ok t"
  "t_counts (recounted now e f t) =
    add_state_counts (add_state_counts (t_counts t) (counts_of [f])) (neg_counts (counts_of [e]))"
  by (simp_all add: recounted_def)

lemma wf_upd_tasks:
  assumes "core_ok d" and "tasks d' = upd_where p f (tasks d)" and "executions d' = executions d"
    and "table_ok task_table (tasks d')"
    and "\<And>t. t_id (f t) = t_id t" and "\<And>t. t_tenant_id (f t) = t_tenant_id t"
    and "\<And>t. t_counts (f t) = t_counts t"
    and "\<And>t. t \<in> set (tasks d) \<Longrightarrow> p t \<Longrightarrow> cancellation_ok t \<Longrightarrow> cancellation_ok (f t)"
  shows "core_ok d'"
  using assms(1,4)
  by (auto simp: core_ok_def parents_ok_def counts_ok_def list_all_iff task_key_exists_iff map_upd_where
      assms(2,3,5-8) elim!: in_upd_whereE simp del: set_map)

lemma wf_upd_executions:
  assumes core_ok: "core_ok d" and e: "e \<in> set (executions d)"
    and execs: "executions d' = upd_where (\<lambda>x. e_id x = e_id e) f (executions d)"
    and ts: "tasks d' = (if e_state (f e) = e_state e then tasks d
      else upd_where (\<lambda>t. t_id t = e_task_id e) (recounted now e (f e)) (tasks d))"
    and ok: "table_ok execution_table (executions d')" "table_ok task_table (tasks d')"
    and keep: "\<And>x. e_task_id (f x) = e_task_id x" "\<And>x. e_tenant_id (f x) = e_tenant_id x"
  shows "core_ok d'"
proof -
  note dist = execution_key.distinct_keys [OF wfD(2) [OF core_ok]]
  have keys: "task_key_exists tid tenant d' = task_key_exists tid tenant d" for tid tenant
    by (simp add: task_key_exists_iff ts map_upd_where del: set_map)
  have "parents_ok d'"
    using wfD(3) [OF core_ok] by (auto simp: parents_ok_def list_all_iff keys execs keep elim!: in_upd_whereE)
  moreover have "counts_ok d'"
    using wfD(4) [OF core_ok]
    by (auto simp: counts_ok_def list_all_iff execs counts_upd_one [OF dist e] keep ts recount_same
        elim!: in_upd_whereE)
  moreover have "list_all cancellation_ok (tasks d')"
    using wfD(5) [OF core_ok] by (auto simp: list_all_iff ts elim!: in_upd_whereE)
  ultimately show ?thesis using ok by (simp add: core_ok_def)
qed

lemma wf_snoc_execution:
  assumes core_ok: "core_ok d" and execs: "executions d' = executions d @ [e]"
    and ts: "tasks d' = upd_where (\<lambda>t. t_id t = e_task_id e) (counted now e) (tasks d)"
    and ok: "table_ok execution_table (executions d')" "table_ok task_table (tasks d')"
    and key: "task_key_exists (e_task_id e) (e_tenant_id e) d"
  shows "core_ok d'"
proof -
  have keys: "task_key_exists tid tenant d' = task_key_exists tid tenant d" for tid tenant
    by (simp add: task_key_exists_iff ts map_upd_where del: set_map)
  have "parents_ok d'" using wfD(3) [OF core_ok] key by (simp add: parents_ok_def keys execs)
  moreover have "counts_ok d'"
    using wfD(4) [OF core_ok]
    by (auto simp: counts_ok_def list_all_iff execs counts_snoc ts elim!: in_upd_whereE)
  moreover have "list_all cancellation_ok (tasks d')"
    using wfD(5) [OF core_ok] by (auto simp: list_all_iff ts elim!: in_upd_whereE)
  ultimately show ?thesis using ok by (simp add: core_ok_def)
qed

subsection \<open>Evolution\<close>

lemma rows_evolve_refl: "(\<And>r. R r r) \<Longrightarrow> rows_evolve R rows rows"
  by (simp add: rows_evolve_def list.rel_refl)

lemma rows_evolve_upd_where:
  assumes "\<And>r. R r r" and "\<And>r. r \<in> set rows \<Longrightarrow> p r \<Longrightarrow> R r (f r)"
  shows "rows_evolve R rows (upd_where p f rows)"
proof -
  have "list_all2 R rows (upd_where p f rows)"
    using assms by (induction rows) (auto simp: upd_where_def)
  then show ?thesis by (simp add: rows_evolve_def)
qed

lemma rows_evolve_snoc: "(\<And>r. R r r) \<Longrightarrow> rows_evolve R rows (rows @ [r])"
  by (simp add: rows_evolve_def list.rel_refl)

lemma rows_evolve_trans:
  assumes trans: "\<And>x y z. R x y \<Longrightarrow> R y z \<Longrightarrow> R x z"
    and xy: "rows_evolve R xs ys" and yz: "rows_evolve R ys zs"
  shows "rows_evolve R xs zs"
proof -
  let ?n = "length xs"
  have "list_all2 R (take ?n ys) (take ?n (take (length ys) zs))"
    using yz unfolding rows_evolve_def by (blast intro: list_all2_takeI)
  moreover have "take ?n (take (length ys) zs) = take ?n zs"
    using xy by (simp add: rows_evolve_def min_def)
  ultimately have 2: "list_all2 R (take ?n ys) (take ?n zs)" by simp
  have 1: "list_all2 R xs (take ?n ys)" using xy by (simp add: rows_evolve_def)
  have "list_all2 R xs (take ?n zs)" by (rule list_all2_trans [OF trans 1 2])
  then show ?thesis using xy yz by (auto simp: rows_evolve_def)
qed

lemma rows_evolveE:
  assumes "rows_evolve R rows rows'" and "r \<in> set rows"
  obtains r' where "r' \<in> set rows'" and "R r r'"
proof -
  obtain i where i: "i < length rows" "rows ! i = r" using assms(2) by (auto simp: in_set_conv_nth)
  then have "R r (rows' ! i)" and "i < length rows'"
    using assms(1) list_all2_nthD [of R rows "take (length rows) rows'" i]
    by (auto simp: rows_evolve_def)
  then show thesis using that [of "rows' ! i"] by simp
qed

lemma task_evolves_refl [simp]: "task_evolves t t"
  by (simp add: task_evolves_def)

lemma exec_evolves_refl [simp]: "exec_evolves e e"
  by (simp add: exec_evolves_def)

lemma task_evolves_trans: "task_evolves t u \<Longrightarrow> task_evolves u v \<Longrightarrow> task_evolves t v"
  unfolding task_evolves_def by auto

lemma exec_evolves_trans: "exec_evolves e f \<Longrightarrow> exec_evolves f g \<Longrightarrow> exec_evolves e g"
  unfolding exec_evolves_def by (intro conjI impI; elim conjE; (blast intro: prefix_order.trans | simp)?)

lemma task_evolves_bump:
  assumes "t_version (f t) = t_version t + 1" "t_id (f t) = t_id t" "t_type (f t) = t_type t"
    "t_tenant_id (f t) = t_tenant_id t" "t_owner_id (f t) = t_owner_id t"
    "t_definition_version (f t) = t_definition_version t" "t_created_at (f t) = t_created_at t"
    "t_progress_completed t \<le> t_progress_completed (f t)"
    "t_items_settled_at (f t) = t_items_settled_at t"
    "t_state t = T_succeeded \<longrightarrow> t_state (f t) = T_succeeded"
  shows "task_evolves t (f t)"
  using assms by (simp add: task_evolves_def)

lemma task_evolves_touch [simp]: "task_evolves t (touch_task now t)"
  by (rule task_evolves_bump) (simp_all add: touch_task_def)

lemma task_evolves_counted [simp]: "task_evolves t (counted now e t)"
  by (rule task_evolves_bump) (simp_all add: counted_def touch_task_def)

lemma task_evolves_recounted [simp]: "task_evolves t (recounted now e f t)"
  by (rule task_evolves_bump) (simp_all add: recounted_def touch_task_def)

lemma find_evolves:
  assumes "rows_evolve task_evolves rows rows'" and "find (\<lambda>t. t_id t = tid) rows = Some t"
  shows "\<exists>t'. find (\<lambda>t. t_id t = tid) rows' = Some t' \<and> task_evolves t t'"
proof -
  have "list_all2 task_evolves rows ys \<Longrightarrow> find (\<lambda>t. t_id t = tid) rows = Some t \<Longrightarrow>
    \<exists>t'. find (\<lambda>t. t_id t = tid) (ys @ zs) = Some t' \<and> task_evolves t t'" for ys zs
  proof (induction rows ys rule: list_all2_induct)
    case (Cons x xs y ys)
    then have "t_id y = t_id x" by (simp add: task_evolves_def)
    then show ?case using Cons by (auto split: if_splits)
  qed simp
  from this [of "take (length rows) rows'" "drop (length rows) rows'"] show ?thesis
    using assms by (simp add: rows_evolve_def)
qed

text \<open>\<open>evolves\<close>, with some Tasks exempt from the rule on attempts.\<close>

definition evolves_except :: "string set \<Rightarrow> db \<Rightarrow> db \<Rightarrow> bool" where
  "evolves_except dirty d d' \<longleftrightarrow> rows_evolve task_evolves (tasks d) (tasks d') \<and>
    rows_evolve exec_evolves (executions d) (executions d') \<and> views_kept dirty d d'"

lemma task_version_of_evolves:
  assumes "evolves_except dirty d d'" and "task_version_of tid d = Some v"
  obtains v' where "task_version_of tid d' = Some v'" and "v \<le> v'"
proof -
  obtain t where t: "find (\<lambda>t. t_id t = tid) (tasks d) = Some t" "v = t_version t"
    using assms(2) by (auto simp: task_version_of_def)
  obtain t' where "find (\<lambda>t. t_id t = tid) (tasks d') = Some t'" "task_evolves t t'"
    using find_evolves [OF _ t(1)] assms(1) by (auto simp: evolves_except_def)
  then show thesis using that [of "t_version t'"] t(2) by (simp add: task_version_of_def task_evolves_def)
qed

lemma evolves_iff: "evolves d d' \<longleftrightarrow> evolves_except {} d d'"
  by (simp add: evolves_def evolves_except_def)

lemma evolves_except_mono: "evolves_except A d d' \<Longrightarrow> A \<subseteq> B \<Longrightarrow> evolves_except B d d'"
  by (auto simp: evolves_except_def views_kept_def)

lemma evolves_except_refl: "evolves_except dirty d d"
  by (auto simp: evolves_except_def views_kept_def intro!: rows_evolve_refl)

lemma evolves_except_trans:
  assumes a: "evolves_except dirty d d1" and b: "evolves_except dirty d1 d2"
  shows "evolves_except dirty d d2"
proof -
  note A = a [unfolded evolves_except_def] and B = b [unfolded evolves_except_def]
  have ts: "rows_evolve task_evolves (tasks d) (tasks d2)"
    by (rule rows_evolve_trans [OF task_evolves_trans conjunct1 [OF A] conjunct1 [OF B]])
  have es: "rows_evolve exec_evolves (executions d) (executions d2)"
    by (rule rows_evolve_trans [OF exec_evolves_trans
          conjunct1 [OF conjunct2 [OF A]] conjunct1 [OF conjunct2 [OF B]]])
  have "views_kept dirty d d2"
    unfolding views_kept_def
  proof (intro allI impI)
    fix tid v
    assume *: "tid \<notin> dirty" "task_version_of tid d = Some v" "task_version_of tid d2 = Some v"
    obtain v' where v': "task_version_of tid d1 = Some v'" "v \<le> v'"
      by (rule task_version_of_evolves [OF a *(2)])
    obtain v'' where "task_version_of tid d2 = Some v''" "v' \<le> v''"
      by (rule task_version_of_evolves [OF b v'(1)])
    then have "v' = v" using v'(2) *(3) by simp
    then show "map exec_view (executions_of tid (executions d2)) =
        map exec_view (executions_of tid (executions d))"
      using a b * v'(1) by (simp add: evolves_except_def views_kept_def)
  qed
  then show ?thesis using ts es by (simp add: evolves_except_def)
qed

lemma evolves_refl: "evolves d d"
  by (simp add: evolves_iff evolves_except_refl)

lemma evolves_trans: "evolves d d1 \<Longrightarrow> evolves d1 d2 \<Longrightarrow> evolves d d2"
  by (simp add: evolves_iff) (rule evolves_except_trans)

lemma task_version_of_upd_where:
  assumes "tasks d' = upd_where p f (tasks d)" and "\<And>t. t_id (f t) = t_id t"
  shows "task_version_of tid d' =
    map_option (\<lambda>t. t_version (if p t then f t else t)) (find (\<lambda>t. t_id t = tid) (tasks d))"
proof -
  have "map_option t_version (find (\<lambda>t. t_id t = tid) (upd_where p f rows)) =
    map_option (\<lambda>t. t_version (if p t then f t else t)) (find (\<lambda>t. t_id t = tid) rows)" for rows
    using assms(2) by (induction rows) (auto simp: upd_where_def)
  then show ?thesis by (simp add: task_version_of_def assms(1))
qed

lemma evolves_upd_tasks:
  assumes "tasks d' = upd_where p f (tasks d)" and "executions d' = executions d"
    and "\<And>t. t \<in> set (tasks d) \<Longrightarrow> p t \<Longrightarrow> task_evolves t (f t)"
  shows "evolves_except dirty d d'"
  using assms
  by (auto simp: evolves_except_def views_kept_def intro!: rows_evolve_refl rows_evolve_upd_where)

text \<open>A Task whose version rose needs no exemption any more.\<close>

lemma evolves_bumped:
  assumes "evolves_except {tid} d d'"
    and "\<And>v v'. task_version_of tid d = Some v \<Longrightarrow> task_version_of tid d' = Some v' \<Longrightarrow> v < v'"
  shows "evolves d d'"
proof -
  have "views_kept {} d d'"
    unfolding views_kept_def
  proof (intro allI impI)
    fix u v
    assume "task_version_of u d = Some v" "task_version_of u d' = Some v"
    moreover from this have "u \<noteq> tid" using assms(2) by fastforce
    ultimately show "map exec_view (executions_of u (executions d')) =
        map exec_view (executions_of u (executions d))"
      using assms(1) by (simp add: evolves_except_def views_kept_def)
  qed
  then show ?thesis using assms(1) by (simp add: evolves_def evolves_except_def)
qed

lemma evolves_then_bump:
  assumes "evolves_except {tid} d d1"
    and ts: "tasks d2 = upd_where (\<lambda>t. t_id t = tid) f (tasks d1)"
    and "evolves_except {tid} d1 d2"
    and f: "\<And>t. t_id (f t) = t_id t" "\<And>t. t_version (f t) = t_version t + 1"
  shows "evolves d d2"
proof (rule evolves_bumped)
  show "evolves_except {tid} d d2" using assms(1,3) by (rule evolves_except_trans)
next
  fix v v'
  assume v: "task_version_of tid d = Some v" "task_version_of tid d2 = Some v'"
  obtain v1 where v1: "task_version_of tid d1 = Some v1" "v \<le> v1"
    by (rule task_version_of_evolves [OF assms(1) v(1)])
  obtain t where t: "find (\<lambda>t. t_id t = tid) (tasks d1) = Some t" "v1 = t_version t"
    using v1(1) by (auto simp: task_version_of_def)
  moreover have "t_id t = tid" using t(1) by (rule find_SomeE)
  ultimately have "task_version_of tid d2 = Some (v1 + 1)"
    using task_version_of_upd_where [OF ts f(1), of tid] f(2) by simp
  then show "v < v'" using v1 v(2) by simp
qed

lemma executions_of_upd_where:
  "(\<And>x. e_task_id (f x) = e_task_id x) \<Longrightarrow>
    executions_of tid (upd_where p f rows) = upd_where p f (executions_of tid rows)"
  by (induction rows) (auto simp: executions_of_def upd_where_def)

lemma views_upd_one:
  assumes "table_ok execution_table rows" and "e \<in> set rows"
    and "\<And>x. e_task_id (f x) = e_task_id x" and "e_task_id e \<noteq> tid \<or> g (f e) = g e"
  shows "map g (executions_of tid (upd_where (\<lambda>x. e_id x = e_id e) f rows)) =
    map g (executions_of tid rows)"
  unfolding executions_of_upd_where [OF assms(3)]
proof (rule map_upd_where_on)
  fix x
  assume "x \<in> set (executions_of tid rows)" and "e_id x = e_id e"
  then show "g (f x) = g x"
    using execution_key.key_inj [OF assms(1) _ assms(2)] assms(4) by (auto simp: executions_of_def)
qed

lemma evolves_upd_execution:
  assumes core_ok: "core_ok d" and e: "e \<in> set (executions d)"
    and execs: "executions d' = upd_where (\<lambda>x. e_id x = e_id e) f (executions d)"
    and ts: "tasks d' = (if e_state (f e) = e_state e then tasks d
      else upd_where (\<lambda>t. t_id t = e_task_id e) (recounted now e (f e)) (tasks d))"
    and keep: "\<And>x. e_task_id (f x) = e_task_id x" and ev: "exec_evolves e (f e)"
  shows "evolves_except {e_task_id e} d d'"
    and "e_state (f e) \<noteq> e_state e \<or> exec_view (f e) = exec_view e \<Longrightarrow> evolves d d'"
proof -
  note ok = wfD(2) [OF core_ok]
  have tr: "rows_evolve task_evolves (tasks d) (tasks d')"
    by (auto simp: ts intro!: rows_evolve_refl rows_evolve_upd_where)
  have er: "rows_evolve exec_evolves (executions d) (executions d')"
    unfolding execs
  proof (rule rows_evolve_upd_where)
    fix x
    assume "x \<in> set (executions d)" and "e_id x = e_id e"
    then show "exec_evolves x (f x)" using execution_key.key_inj [OF ok _ e] ev by blast
  qed simp
  have v: "views_kept {e_task_id e} d d'"
    by (auto simp: views_kept_def execs intro!: views_upd_one [OF ok e keep])
  show ex: "evolves_except {e_task_id e} d d'" using tr er v by (simp add: evolves_except_def)
  assume "e_state (f e) \<noteq> e_state e \<or> exec_view (f e) = exec_view e"
  then consider "exec_view (f e) = exec_view e"
    | "tasks d' = upd_where (\<lambda>t. t_id t = e_task_id e) (recounted now e (f e)) (tasks d)"
    using ts by auto
  then show "evolves d d'"
  proof cases
    case 1
    then have "views_kept {} d d'"
      by (auto simp: views_kept_def execs intro!: views_upd_one [OF ok e keep])
    then show ?thesis using tr er by (simp add: evolves_def)
  next
    case 2
    show ?thesis by (rule evolves_then_bump [OF evolves_except_refl 2 ex]) simp_all
  qed
qed

lemma evolves_snoc_execution:
  assumes execs: "executions d' = executions d @ [e]"
    and ts: "tasks d' = upd_where (\<lambda>t. t_id t = e_task_id e) (counted now e) (tasks d)"
  shows "evolves_except {e_task_id e} d d'" and "evolves d d'"
proof -
  have "rows_evolve task_evolves (tasks d) (tasks d')"
    by (auto simp: ts intro!: rows_evolve_upd_where)
  moreover have "rows_evolve exec_evolves (executions d) (executions d')"
    by (simp add: execs rows_evolve_snoc)
  moreover have "views_kept {e_task_id e} d d'"
    by (auto simp: views_kept_def execs executions_of_def)
  ultimately show ex: "evolves_except {e_task_id e} d d'" by (simp add: evolves_except_def)
  show "evolves d d'" by (rule evolves_then_bump [OF evolves_except_refl ts ex]) simp_all
qed

subsection \<open>Tenant isolation\<close>

text \<open>The rows a session cannot see, table by table.\<close>

definition hidden_db :: "session \<Rightarrow> db \<Rightarrow> db" where
  "hidden_db s d = \<lparr>tasks = hidden s task_table (tasks d),
    executions = hidden s execution_table (executions d),
    waitpoints = hidden s waitpoint_table (waitpoints d),
    verifications = hidden s verification_table (verifications d),
    artifacts = hidden s artifact_table (artifacts d), outbox = hidden s outbox_table (outbox d),
    checkpoints = hidden s checkpoint_table (checkpoints d), steps = hidden s step_table (steps d),
    step_attempts = hidden s attempt_table (step_attempts d), pools = hidden s pool_table (pools d),
    leases = hidden s lease_table (leases d), notices = []\<rparr>"

lemma hidden_db_core:
  assumes "rest d' = rest d" and "hidden s task_table (tasks d') = hidden s task_table (tasks d)"
    and "hidden s execution_table (executions d') = hidden s execution_table (executions d)"
  shows "hidden_db s d' = hidden_db s d"
  using assms by (cases d; cases d') (simp add: hidden_db_def rest_def)

lemma hidden_update_tasks:
  assumes "update_tasks s p f d = Inr d'" and "\<And>t. t_tenant_id (f t) = t_tenant_id t"
  shows "hidden s task_table (tasks d') = hidden s task_table (tasks d)"
  using assms by (auto simp: update_tasks_def hidden_update_rows)

lemma isolated_update_tasks:
  assumes "update_tasks s p f d = Inr d'" and "\<And>t. t_tenant_id (f t) = t_tenant_id t"
  shows "hidden_db s d' = hidden_db s d"
  by (rule hidden_db_core)
    (use hidden_update_tasks [OF assms] update_tasksD [OF assms(1)] in simp_all)

lemma isolated_update_execution:
  assumes "update_execution s now eid f d = Inr d'" and "\<And>e. e_tenant_id (f e) = e_tenant_id e"
  shows "hidden_db s d' = hidden_db s d"
proof -
  obtain rows where rows: "update_rows s execution_table (\<lambda>x. e_id x = eid) f (executions d) = Inr rows"
    and cnt: "execution_counts_updated s now (zip (executions d) rows) (d\<lparr>executions := rows\<rparr>) = Inr d'"
    using assms(1) by (auto simp: update_execution_def)
  have "hidden_db s d' = hidden_db s (d\<lparr>executions := rows\<rparr>)"
    by (rule isolated_update_tasks [OF cnt [unfolded execution_counts_updated_def Let_def]]) simp
  also have "\<dots> = hidden_db s d"
    by (rule hidden_db_core) (use hidden_update_rows [OF rows] assms(2) in \<open>simp_all add: rest_def\<close>)
  finally show ?thesis .
qed

lemma isolated_insert_execution:
  assumes "insert_execution s now e d = Inr d'"
  shows "hidden_db s d' = hidden_db s d"
proof -
  obtain rows where rows: "insert_row s execution_table e (executions d) = Inr rows"
    and cnt: "execution_counts_inserted s now [e] (d\<lparr>executions := rows\<rparr>) = Inr d'"
    using assms by (auto simp: insert_execution_def split: if_splits)
  have "hidden_db s d' = hidden_db s (d\<lparr>executions := rows\<rparr>)"
    by (rule isolated_update_tasks [OF cnt [unfolded execution_counts_inserted_def]]) simp
  also have "\<dots> = hidden_db s d"
    by (rule hidden_db_core) (use insert_row_ok(4) [OF rows] in \<open>simp_all add: rest_def\<close>)
  finally show ?thesis .
qed

subsection \<open>New Tasks, and updates that cannot fail\<close>

lemma wf_snoc_task:
  assumes core_ok: "core_ok d" and ts: "tasks d' = tasks d @ [t]" and execs: "executions d' = executions d"
    and ok: "table_ok task_table (tasks d')" and t: "t_counts t = counts_of []" "cancellation_ok t"
  shows "core_ok d'"
proof -
  have fresh: "t_id u \<noteq> t_id t" if "u \<in> set (tasks d)" for u
    using task_key.distinct_keys [OF ok] that by (auto simp: ts) (metis image_eqI)
  have "executions_of (t_id t) (executions d) = []"
    using wfD(3) [OF core_ok] fresh
    by (fastforce simp: executions_of_def filter_empty_conv parents_ok_def list_all_iff
        task_key_exists_def list_ex_iff)
  then have "counts_ok d'" using wfD(4) [OF core_ok] t(1) by (simp add: counts_ok_def ts execs)
  moreover have "parents_ok d'"
    using wfD(3) [OF core_ok]
    by (auto simp: parents_ok_def list_all_iff task_key_exists_def list_ex_iff ts execs)
  ultimately show ?thesis using core_ok ok t(2) by (simp add: core_ok_def ts execs)
qed

lemma evolves_snoc_task:
  assumes "tasks d' = tasks d @ [t]" and "executions d' = executions d"
  shows "evolves d d'"
  using assms by (simp add: evolves_def views_kept_def rows_evolve_snoc rows_evolve_refl)

lemma select_task_iff:
  assumes "table_ok task_table (tasks d)" and "t \<in> set (tasks d)" and "visible s (t_tenant_id t)"
  shows "select_task s (t_id t) d = Some t"
  using task_key.select_key [OF assms(1,2)] assms(3) by (simp add: select_task_def)

lemma update_task_total:
  assumes ok: "table_ok task_table (tasks d)" and t: "t \<in> set (tasks d)" "visible s (t_tenant_id t)"
    and chk: "task_check (f t)" and keep: "\<And>u. t_id (f u) = t_id u"
  obtains d' where "update_task s (t_id t) f d = Inr d'"
    and "tasks d' = upd_where (\<lambda>u. t_id u = t_id t) f (tasks d)"
    and "executions d' = executions d" and "rest d' = rest d"
proof -
  let ?q = "\<lambda>u. visible s (t_tenant_id u) \<and> t_id u = t_id t"
  have "u = t" if "u \<in> set (tasks d)" "t_id u = t_id t" for u
    using task_key.key_inj [OF ok that(1) t(1) that(2)] .
  then have "list_all (\<lambda>u. ?q u \<longrightarrow> task_check (f u)) (tasks d)"
    using chk by (auto simp: list_all_iff)
  moreover have "unique_by (tb_conflict task_table) (upd_where ?q f (tasks d))"
    by (rule unique_by_upd_where)
      (use ok keep in \<open>auto simp: table_ok_def tables split: if_splits\<close>)
  ultimately obtain d' where d': "update_task s (t_id t) f d = Inr d'"
    by (simp add: update_tasks_def update_rows_def tables)
  show thesis
    by (rule that [OF d' update_taskD [OF d' ok t] update_tasksD(2,3) [OF d']])
qed

lemma select_task_upd_where:
  assumes ok: "table_ok task_table (tasks d')"
    and ts: "tasks d' = upd_where (\<lambda>u. t_id u = t_id t) f (tasks d)"
    and t: "t \<in> set (tasks d)" "visible s (t_tenant_id t)"
    and keep: "t_id (f t) = t_id t" "t_tenant_id (f t) = t_tenant_id t"
  shows "select_task s (t_id t) d' = Some (f t)"
proof -
  have "f t \<in> set (tasks d')" using ts t(1) by (auto simp: set_upd_where)
  then show ?thesis using select_task_iff [OF ok, of "f t"] t(2) keep by simp
qed

end
