(* ===== verification/Contract.thy ===== *)
theory Contract
  imports Store
begin

text \<open>
  What every command of the schema promises, as one contract: it keeps the constraints of all
  tables and the references between them, it lets rows evolve only forwards, and it leaves every
  row of another tenant alone. The locales at the end carry such a one-step promise to any
  sequence of commands.
\<close>

section \<open>Tables that hang off a Task\<close>

definition task_keys :: "db \<Rightarrow> (string \<times> string) list" where
  "task_keys d = map (\<lambda>t. (t_id t, t_tenant_id t)) (tasks d)"

definition exec_keys :: "db \<Rightarrow> (string \<times> string) list" where
  "exec_keys d = map (\<lambda>e. (e_id e, e_tenant_id e)) (executions d)"

definition exec_parents :: "db \<Rightarrow> (string \<times> string \<times> string) list" where
  "exec_parents d = map (\<lambda>e. (e_id e, e_task_id e, e_tenant_id e)) (executions d)"

definition waitpoints_ok :: "db \<Rightarrow> bool" where
  "waitpoints_ok d \<longleftrightarrow> table_ok waitpoint_table (waitpoints d) \<and>
    list_all (\<lambda>w. (w_task_id w, w_tenant_id w) \<in> set (task_keys d)) (waitpoints d)"

definition evidence_ok :: "db \<Rightarrow> bool" where
  "evidence_ok d \<longleftrightarrow> table_ok verification_table (verifications d) \<and>
    list_all (\<lambda>v. (v_task_id v, v_tenant_id v) \<in> set (task_keys d)) (verifications d) \<and>
    table_ok artifact_table (artifacts d) \<and>
    list_all (\<lambda>a. (a_task_id a, a_tenant_id a) \<in> set (task_keys d) \<and>
      (case a_execution_id a of None \<Rightarrow> True
        | Some eid \<Rightarrow> (eid, a_task_id a, a_tenant_id a) \<in> set (exec_parents d))) (artifacts d)"

definition outbox_ok :: "db \<Rightarrow> bool" where
  "outbox_ok d \<longleftrightarrow> table_ok outbox_table (outbox d) \<and>
    list_all (\<lambda>n. (n_task_id n, n_tenant_id n) \<in> set (task_keys d) \<and>
      (n_verification_id n, n_tenant_id n) \<in> (\<lambda>v. (v_id v, v_tenant_id v)) ` set (verifications d)) (outbox d)"

definition checkpoints_ok :: "db \<Rightarrow> bool" where
  "checkpoints_ok d \<longleftrightarrow> table_ok checkpoint_table (checkpoints d) \<and>
    list_all (\<lambda>k. (k_task_id k, k_tenant_id k) \<in> set (task_keys d) \<and>
      (k_execution_id k, k_tenant_id k) \<in> set (exec_keys d)) (checkpoints d)"

definition steps_ok :: "db \<Rightarrow> bool" where
  "steps_ok d \<longleftrightarrow> table_ok step_table (steps d) \<and>
    list_all (\<lambda>r. (ds_task_id r, ds_tenant_id r) \<in> set (task_keys d) \<and>
      (ds_execution_id r, ds_tenant_id r) \<in> set (exec_keys d)) (steps d) \<and>
    table_ok attempt_table (step_attempts d) \<and>
    list_all (\<lambda>a. (da_step_id a, da_tenant_id a) \<in> (\<lambda>r. (ds_id r, ds_tenant_id r)) ` set (steps d) \<and>
      (da_execution_id a, da_tenant_id a) \<in> set (exec_keys d)) (step_attempts d)"

definition leases_ok :: "db \<Rightarrow> bool" where
  "leases_ok d \<longleftrightarrow> table_ok pool_table (pools d) \<and> table_ok lease_table (leases d) \<and>
    list_all (\<lambda>l. (l_tenant_id l, l_pool_key l) \<in> (\<lambda>p. (rp_tenant_id p, rp_pool_key p)) ` set (pools d) \<and>
      (l_task_id l, l_tenant_id l) \<in> set (task_keys d) \<and>
      (l_execution_id l, l_tenant_id l) \<in> set (exec_keys d)) (leases d)"

lemmas children_defs = waitpoints_ok_def evidence_ok_def outbox_ok_def checkpoints_ok_def
  steps_ok_def leases_ok_def

definition inv :: "db \<Rightarrow> bool" where
  "inv d \<longleftrightarrow> core_ok d \<and> waitpoints_ok d \<and> evidence_ok d \<and> outbox_ok d \<and> checkpoints_ok d \<and>
    steps_ok d \<and> leases_ok d"

section \<open>How their rows evolve\<close>

definition waitpoint_evolves :: "waitpoint_row \<Rightarrow> waitpoint_row \<Rightarrow> bool" where
  "waitpoint_evolves w u \<longleftrightarrow> w_id u = w_id w \<and> w_task_id u = w_task_id w \<and>
    w_tenant_id u = w_tenant_id w \<and> w_key u = w_key w \<and> w_kind u = w_kind w \<and>
    w_payload_version u = w_payload_version w \<and> w_deadline u = w_deadline w \<and>
    w_version w \<le> w_version u \<and> (w_state w \<noteq> W_waiting \<or> w_version u = w_version w \<longrightarrow> u = w)"

definition outbox_evolves :: "outbox_row \<Rightarrow> outbox_row \<Rightarrow> bool" where
  "outbox_evolves n m \<longleftrightarrow> n_id m = n_id n \<and> n_task_id m = n_task_id n \<and>
    n_verification_id m = n_verification_id n \<and> n_attempts n \<le> n_attempts m \<and>
    (n_state n = N_sent \<longrightarrow> n_state m = N_sent)"

definition step_evolves :: "step_row \<Rightarrow> step_row \<Rightarrow> bool" where
  "step_evolves r q \<longleftrightarrow> ds_id q = ds_id r \<and> ds_tenant_id q = ds_tenant_id r \<and>
    ds_task_id q = ds_task_id r \<and> ds_item_key q = ds_item_key r \<and> ds_step_key q = ds_step_key r \<and>
    ds_task_version q = ds_task_version r \<and> ds_step_version q = ds_step_version r \<and>
    ds_attempt r \<le> ds_attempt q \<and> ds_version r \<le> ds_version q \<and>
    (ds_state r \<in> {S_completed, S_cancelled} \<or> ds_version q = ds_version r \<longrightarrow> q = r)"

definition attempt_evolves :: "attempt_row \<Rightarrow> attempt_row \<Rightarrow> bool" where
  "attempt_evolves a b \<longleftrightarrow> da_id b = da_id a \<and> da_tenant_id b = da_tenant_id a \<and>
    da_step_id b = da_step_id a \<and> da_execution_id b = da_execution_id a \<and>
    da_attempt b = da_attempt a \<and> da_lease_owner b = da_lease_owner a \<and>
    da_lease_epoch b = da_lease_epoch a \<and> (da_state a \<noteq> A_running \<longrightarrow> b = a)"

definition lease_evolves :: "lease_row \<Rightarrow> lease_row \<Rightarrow> bool" where
  "lease_evolves l m \<longleftrightarrow> l_tenant_id m = l_tenant_id l \<and> l_task_id m = l_task_id l \<and>
    l_execution_id m = l_execution_id l \<and> l_pool_key m = l_pool_key l \<and>
    l_lease_epoch l \<le> l_lease_epoch m \<and>
    (l_lease_epoch m = l_lease_epoch l \<longrightarrow> l_id m = l_id l \<and> l_lease_owner m = l_lease_owner l \<and>
      l_request m = l_request l \<and> (l_state l \<noteq> L_active \<longrightarrow> m = l))"

definition children_evolve :: "db \<Rightarrow> db \<Rightarrow> bool" where
  "children_evolve d d' \<longleftrightarrow> rows_evolve waitpoint_evolves (waitpoints d) (waitpoints d') \<and>
    rows_evolve (=) (verifications d) (verifications d') \<and>
    rows_evolve outbox_evolves (outbox d) (outbox d') \<and>
    rows_evolve step_evolves (steps d) (steps d') \<and>
    rows_evolve attempt_evolves (step_attempts d) (step_attempts d') \<and>
    rows_evolve (=) (pools d) (pools d') \<and> rows_evolve lease_evolves (leases d) (leases d')"

lemma child_evolves_refl [simp]:
  "waitpoint_evolves w w" "outbox_evolves n n" "step_evolves r r" "attempt_evolves a a"
  "lease_evolves l l"
  by (simp_all add: waitpoint_evolves_def outbox_evolves_def step_evolves_def attempt_evolves_def
      lease_evolves_def)

lemma child_evolves_trans:
  "waitpoint_evolves w1 w2 \<Longrightarrow> waitpoint_evolves w2 w3 \<Longrightarrow> waitpoint_evolves w1 w3"
  "outbox_evolves n1 n2 \<Longrightarrow> outbox_evolves n2 n3 \<Longrightarrow> outbox_evolves n1 n3"
  "step_evolves r1 r2 \<Longrightarrow> step_evolves r2 r3 \<Longrightarrow> step_evolves r1 r3"
  "attempt_evolves a1 a2 \<Longrightarrow> attempt_evolves a2 a3 \<Longrightarrow> attempt_evolves a1 a3"
  "lease_evolves l1 l2 \<Longrightarrow> lease_evolves l2 l3 \<Longrightarrow> lease_evolves l1 l3"
  subgoal unfolding waitpoint_evolves_def by auto
  subgoal unfolding outbox_evolves_def by auto
  subgoal unfolding step_evolves_def by auto
  subgoal unfolding attempt_evolves_def by auto
  subgoal unfolding lease_evolves_def by auto
  done

lemma rest_fields:
  assumes "rest d' = rest d"
  shows "waitpoints d' = waitpoints d" "verifications d' = verifications d" "artifacts d' = artifacts d"
    "outbox d' = outbox d" "checkpoints d' = checkpoints d" "steps d' = steps d"
    "step_attempts d' = step_attempts d" "pools d' = pools d" "leases d' = leases d"
  using assms [THEN arg_cong, of waitpoints] assms [THEN arg_cong, of verifications]
    assms [THEN arg_cong, of artifacts] assms [THEN arg_cong, of outbox]
    assms [THEN arg_cong, of checkpoints] assms [THEN arg_cong, of steps]
    assms [THEN arg_cong, of step_attempts] assms [THEN arg_cong, of pools]
    assms [THEN arg_cong, of leases]
  by (simp_all add: rest_def)

lemma children_evolve_refl: "children_evolve d d"
  by (simp add: children_evolve_def rows_evolve_refl)

lemma children_evolve_rest:
  assumes "rest d' = rest d"
  shows "children_evolve d d'"
  by (simp add: children_evolve_def rows_evolve_refl rest_fields [OF assms])

lemma children_evolve_trans:
  assumes "children_evolve d d1" and "children_evolve d1 d2"
  shows "children_evolve d d2"
  using assms unfolding children_evolve_def
  by (elim conjE, intro conjI)
    (erule (1) rows_evolve_trans [rotated], erule (1) child_evolves_trans | erule (1) rows_evolve_trans [rotated], simp)+

section \<open>References survive evolution\<close>

lemma rows_evolve_keys:
  assumes "rows_evolve R rows rows'" and "\<And>r r'. R r r' \<Longrightarrow> k r' = k r"
  shows "set (map k rows) \<subseteq> set (map k rows')"
proof
  fix x
  assume "x \<in> set (map k rows)"
  then obtain r where r: "r \<in> set rows" "x = k r" by auto
  obtain r' where "r' \<in> set rows'" "R r r'" by (rule rows_evolveE [OF assms(1) r(1)])
  then show "x \<in> set (map k rows')" using assms(2) [of r r'] r(2) by (simp add: rev_image_eqI)
qed

lemma evolves_keys:
  assumes "evolves d d'"
  shows "set (task_keys d) \<subseteq> set (task_keys d')" and "set (exec_keys d) \<subseteq> set (exec_keys d')"
    and "set (exec_parents d) \<subseteq> set (exec_parents d')"
proof -
  have t: "rows_evolve task_evolves (tasks d) (tasks d')"
    and e: "rows_evolve exec_evolves (executions d) (executions d')"
    using assms by (simp_all add: evolves_def)
  show "set (task_keys d) \<subseteq> set (task_keys d')"
    unfolding task_keys_def by (rule rows_evolve_keys [OF t]) (simp add: task_evolves_def)
  show "set (exec_keys d) \<subseteq> set (exec_keys d')"
    unfolding exec_keys_def by (rule rows_evolve_keys [OF e]) (simp add: exec_evolves_def)
  show "set (exec_parents d) \<subseteq> set (exec_parents d')"
    unfolding exec_parents_def by (rule rows_evolve_keys [OF e]) (simp add: exec_evolves_def)
qed

lemma children_ok_evolves:
  assumes "evolves d d'"
  shows "waitpoints d' = waitpoints d \<Longrightarrow> waitpoints_ok d \<Longrightarrow> waitpoints_ok d'"
    and "verifications d' = verifications d \<Longrightarrow> artifacts d' = artifacts d \<Longrightarrow> evidence_ok d \<Longrightarrow> evidence_ok d'"
    and "verifications d' = verifications d \<Longrightarrow> outbox d' = outbox d \<Longrightarrow> outbox_ok d \<Longrightarrow> outbox_ok d'"
    and "checkpoints d' = checkpoints d \<Longrightarrow> checkpoints_ok d \<Longrightarrow> checkpoints_ok d'"
    and "steps d' = steps d \<Longrightarrow> step_attempts d' = step_attempts d \<Longrightarrow> steps_ok d \<Longrightarrow> steps_ok d'"
    and "pools d' = pools d \<Longrightarrow> leases d' = leases d \<Longrightarrow> leases_ok d \<Longrightarrow> leases_ok d'"
  using evolves_keys [OF assms]
  by (auto simp: children_defs list_all_iff split: option.splits)

section \<open>The contract of a command\<close>

text \<open>
  \<open>fair\<close> is the contract of one step between databases; \<open>good\<close> adds that the tables with leases of
  their own (durable steps, resource leases) are untouched.
\<close>

definition fair :: "session \<Rightarrow> db \<Rightarrow> db \<Rightarrow> bool" where
  "fair s d d' \<longleftrightarrow> (inv d \<longrightarrow>
    inv d' \<and> evolves d d' \<and> children_evolve d d' \<and> hidden_db s d' = hidden_db s d)"

definition quiet_steps :: "db \<Rightarrow> db \<Rightarrow> bool" where
  "quiet_steps d d' \<longleftrightarrow> steps d' = steps d \<and> step_attempts d' = step_attempts d"

definition quiet_leases :: "db \<Rightarrow> db \<Rightarrow> bool" where
  "quiet_leases d d' \<longleftrightarrow> pools d' = pools d \<and> leases d' = leases d"

definition good :: "session \<Rightarrow> db \<Rightarrow> db \<Rightarrow> bool" where
  "good s d d' \<longleftrightarrow> fair s d d' \<and> (inv d \<longrightarrow> quiet_steps d d' \<and> quiet_leases d d')"

definition sound :: "session \<Rightarrow> 'a command \<Rightarrow> bool" where
  "sound s c \<longleftrightarrow> (\<forall>d x d'. c d = Inr (x, d') \<longrightarrow> good s d d')"

lemma soundI: "(\<And>d x d'. c d = Inr (x, d') \<Longrightarrow> good s d d') \<Longrightarrow> sound s c"
  by (simp add: sound_def)

lemma soundD: "sound s c \<Longrightarrow> c d = Inr (x, d') \<Longrightarrow> good s d d'"
  by (simp add: sound_def)

lemma fairD:
  assumes "fair s d d'" and "inv d"
  shows "inv d'" "evolves d d'" "children_evolve d d'" "hidden_db s d' = hidden_db s d"
  using assms by (simp_all add: fair_def)

lemma good_fair: "good s d d' \<Longrightarrow> fair s d d'"
  by (simp add: good_def)

lemma fair_refl [simp]: "fair s d d"
  by (simp add: fair_def evolves_refl children_evolve_refl)

lemma fair_trans: "fair s d d1 \<Longrightarrow> fair s d1 d2 \<Longrightarrow> fair s d d2"
  unfolding fair_def by (metis evolves_trans children_evolve_trans)

lemma quiet_refl [simp]: "quiet_steps d d" "quiet_leases d d"
  by (simp_all add: quiet_steps_def quiet_leases_def)

lemma good_refl [simp]: "good s d d"
  by (simp add: good_def)

lemma good_trans:
  assumes "good s d d1" and "good s d1 d2"
  shows "good s d d2"
proof -
  have "inv d1" if "inv d" using fairD(1) [OF good_fair [OF assms(1)] that] .
  then show ?thesis
    using assms fair_trans [OF good_fair good_fair, OF assms]
    by (simp add: good_def quiet_steps_def quiet_leases_def)
qed

lemma inv_parts:
  assumes "inv d"
  shows "core_ok d" "waitpoints_ok d" "evidence_ok d" "outbox_ok d" "checkpoints_ok d" "steps_ok d" "leases_ok d"
  using assms by (simp_all add: inv_def)

text \<open>A command that writes \<open>tasks\<close> and \<open>executions\<close> only.\<close>

lemma good_core:
  assumes "core_ok d \<Longrightarrow> core_ok d'" and "core_ok d \<Longrightarrow> evolves d d'" and "core_ok d \<Longrightarrow> rest d' = rest d"
    and "hidden_db s d' = hidden_db s d"
  shows "good s d d'"
  unfolding good_def fair_def
proof (intro conjI impI)
  assume i: "inv d"
  note ok = inv_parts(1) [OF i]
  note ev = assms(2) [OF ok] and fields = rest_fields [OF assms(3) [OF ok]]
  show "inv d'"
    using i assms(1) [OF ok] children_ok_evolves [OF ev] fields by (simp add: inv_def)
  show "evolves d d'" "children_evolve d d'" "hidden_db s d' = hidden_db s d"
    using ev children_evolve_rest [OF assms(3) [OF ok]] assms(4) by simp_all
  show "quiet_steps d d'" "quiet_leases d d'"
    using fields by (simp_all add: quiet_steps_def quiet_leases_def)
qed

lemma soundI_core:
  assumes "\<And>d x d'. c d = Inr (x, d') \<Longrightarrow> core_ok d \<Longrightarrow> core_ok d'"
    and "\<And>d x d'. c d = Inr (x, d') \<Longrightarrow> core_ok d \<Longrightarrow> evolves d d'"
    and "\<And>d x d'. c d = Inr (x, d') \<Longrightarrow> core_ok d \<Longrightarrow> rest d' = rest d"
    and "\<And>d x d'. c d = Inr (x, d') \<Longrightarrow> hidden_db s d' = hidden_db s d"
  shows "sound s c"
  by (rule soundI, rule good_core) (use assms in blast)+

text \<open>\<open>UPDATE tasks SET version = version + 1, updated_at = ... WHERE id = ...\<close>.\<close>

lemma good_touch:
  assumes "update_task s tid (touch_task now) d = Inr d'"
  shows "good s d d'"
proof (rule good_core)
  note U = update_tasksD [OF assms]
  show "rest d' = rest d" by (rule U(3))
  show "hidden_db s d' = hidden_db s d" by (rule isolated_update_tasks [OF assms]) simp
  show "core_ok d'" if "core_ok d"
    by (rule wf_upd_tasks [OF that U(1,2) U(4) [OF wfD(1) [OF that]]]) simp_all
  show "evolves d d'"
    unfolding evolves_iff by (rule evolves_upd_tasks [OF U(1,2)]) simp
qed

text \<open>A statement on the other tables.\<close>

lemma fair_child:
  assumes "tasks d' = tasks d" and "executions d' = executions d"
    and "inv d \<Longrightarrow> waitpoints_ok d' \<and> evidence_ok d' \<and> outbox_ok d' \<and> checkpoints_ok d' \<and> steps_ok d' \<and> leases_ok d'"
    and "inv d \<Longrightarrow> children_evolve d d'" and "hidden_db s d' = hidden_db s d"
  shows "fair s d d'"
proof -
  have "core_ok d' = core_ok d" using assms(1,2)
    by (simp add: core_ok_def parents_ok_def counts_ok_def task_key_exists_def)
  moreover have "evolves d d'" using assms(1,2)
    by (simp add: evolves_def views_kept_def rows_evolve_refl)
  ultimately show ?thesis using assms(3-5) by (simp add: fair_def inv_def)
qed

lemma good_child:
  assumes "tasks d' = tasks d" and "executions d' = executions d"
    and "inv d \<Longrightarrow> waitpoints_ok d' \<and> evidence_ok d' \<and> outbox_ok d' \<and> checkpoints_ok d' \<and> steps_ok d' \<and> leases_ok d'"
    and "inv d \<Longrightarrow> children_evolve d d'" and "hidden_db s d' = hidden_db s d"
    and "steps d' = steps d" "step_attempts d' = step_attempts d" "pools d' = pools d" "leases d' = leases d"
  shows "good s d d'"
  using fair_child [OF assms(1-5)] assms(6-9) by (simp add: good_def quiet_steps_def quiet_leases_def)

lemma keys_child [simp]:
  "task_keys (d\<lparr>waitpoints := x\<rparr>) = task_keys d" "task_keys (d\<lparr>verifications := y\<rparr>) = task_keys d"
  "task_keys (d\<lparr>artifacts := z\<rparr>) = task_keys d" "task_keys (d\<lparr>outbox := u\<rparr>) = task_keys d"
  "task_keys (d\<lparr>checkpoints := v\<rparr>) = task_keys d" "task_keys (d\<lparr>steps := w\<rparr>) = task_keys d"
  "task_keys (d\<lparr>step_attempts := a\<rparr>) = task_keys d" "task_keys (d\<lparr>pools := b\<rparr>) = task_keys d"
  "task_keys (d\<lparr>leases := c\<rparr>) = task_keys d" "task_keys (d\<lparr>notices := n\<rparr>) = task_keys d"
  "exec_keys (d\<lparr>waitpoints := x\<rparr>) = exec_keys d" "exec_keys (d\<lparr>verifications := y\<rparr>) = exec_keys d"
  "exec_keys (d\<lparr>artifacts := z\<rparr>) = exec_keys d" "exec_keys (d\<lparr>outbox := u\<rparr>) = exec_keys d"
  "exec_keys (d\<lparr>checkpoints := v\<rparr>) = exec_keys d" "exec_keys (d\<lparr>steps := w\<rparr>) = exec_keys d"
  "exec_keys (d\<lparr>step_attempts := a\<rparr>) = exec_keys d" "exec_keys (d\<lparr>pools := b\<rparr>) = exec_keys d"
  "exec_keys (d\<lparr>leases := c\<rparr>) = exec_keys d" "exec_keys (d\<lparr>notices := n\<rparr>) = exec_keys d"
  "exec_parents (d\<lparr>waitpoints := x\<rparr>) = exec_parents d" "exec_parents (d\<lparr>verifications := y\<rparr>) = exec_parents d"
  "exec_parents (d\<lparr>artifacts := z\<rparr>) = exec_parents d" "exec_parents (d\<lparr>outbox := u\<rparr>) = exec_parents d"
  "exec_parents (d\<lparr>checkpoints := v\<rparr>) = exec_parents d" "exec_parents (d\<lparr>steps := w\<rparr>) = exec_parents d"
  "exec_parents (d\<lparr>step_attempts := a\<rparr>) = exec_parents d" "exec_parents (d\<lparr>pools := b\<rparr>) = exec_parents d"
  "exec_parents (d\<lparr>leases := c\<rparr>) = exec_parents d" "exec_parents (d\<lparr>notices := n\<rparr>) = exec_parents d"
  by (simp_all add: task_keys_def exec_keys_def exec_parents_def)

lemma children_frame [simp]:
  "waitpoints_ok (d\<lparr>verifications := y\<rparr>) = waitpoints_ok d" "waitpoints_ok (d\<lparr>artifacts := z\<rparr>) = waitpoints_ok d"
  "waitpoints_ok (d\<lparr>outbox := u\<rparr>) = waitpoints_ok d" "waitpoints_ok (d\<lparr>checkpoints := v\<rparr>) = waitpoints_ok d"
  "waitpoints_ok (d\<lparr>steps := w\<rparr>) = waitpoints_ok d" "waitpoints_ok (d\<lparr>step_attempts := a\<rparr>) = waitpoints_ok d"
  "waitpoints_ok (d\<lparr>pools := b\<rparr>) = waitpoints_ok d" "waitpoints_ok (d\<lparr>leases := c\<rparr>) = waitpoints_ok d"
  "evidence_ok (d\<lparr>waitpoints := x\<rparr>) = evidence_ok d" "evidence_ok (d\<lparr>outbox := u\<rparr>) = evidence_ok d"
  "evidence_ok (d\<lparr>checkpoints := v\<rparr>) = evidence_ok d" "evidence_ok (d\<lparr>steps := w\<rparr>) = evidence_ok d"
  "evidence_ok (d\<lparr>step_attempts := a\<rparr>) = evidence_ok d" "evidence_ok (d\<lparr>pools := b\<rparr>) = evidence_ok d"
  "evidence_ok (d\<lparr>leases := c\<rparr>) = evidence_ok d"
  "outbox_ok (d\<lparr>waitpoints := x\<rparr>) = outbox_ok d" "outbox_ok (d\<lparr>artifacts := z\<rparr>) = outbox_ok d"
  "outbox_ok (d\<lparr>checkpoints := v\<rparr>) = outbox_ok d" "outbox_ok (d\<lparr>steps := w\<rparr>) = outbox_ok d"
  "outbox_ok (d\<lparr>step_attempts := a\<rparr>) = outbox_ok d" "outbox_ok (d\<lparr>pools := b\<rparr>) = outbox_ok d"
  "outbox_ok (d\<lparr>leases := c\<rparr>) = outbox_ok d"
  "checkpoints_ok (d\<lparr>waitpoints := x\<rparr>) = checkpoints_ok d" "checkpoints_ok (d\<lparr>verifications := y\<rparr>) = checkpoints_ok d"
  "checkpoints_ok (d\<lparr>artifacts := z\<rparr>) = checkpoints_ok d" "checkpoints_ok (d\<lparr>outbox := u\<rparr>) = checkpoints_ok d"
  "checkpoints_ok (d\<lparr>steps := w\<rparr>) = checkpoints_ok d" "checkpoints_ok (d\<lparr>step_attempts := a\<rparr>) = checkpoints_ok d"
  "checkpoints_ok (d\<lparr>pools := b\<rparr>) = checkpoints_ok d" "checkpoints_ok (d\<lparr>leases := c\<rparr>) = checkpoints_ok d"
  "steps_ok (d\<lparr>waitpoints := x\<rparr>) = steps_ok d" "steps_ok (d\<lparr>verifications := y\<rparr>) = steps_ok d"
  "steps_ok (d\<lparr>artifacts := z\<rparr>) = steps_ok d" "steps_ok (d\<lparr>outbox := u\<rparr>) = steps_ok d"
  "steps_ok (d\<lparr>checkpoints := v\<rparr>) = steps_ok d" "steps_ok (d\<lparr>pools := b\<rparr>) = steps_ok d"
  "steps_ok (d\<lparr>leases := c\<rparr>) = steps_ok d"
  "leases_ok (d\<lparr>waitpoints := x\<rparr>) = leases_ok d" "leases_ok (d\<lparr>verifications := y\<rparr>) = leases_ok d"
  "leases_ok (d\<lparr>artifacts := z\<rparr>) = leases_ok d" "leases_ok (d\<lparr>outbox := u\<rparr>) = leases_ok d"
  "leases_ok (d\<lparr>checkpoints := v\<rparr>) = leases_ok d" "leases_ok (d\<lparr>steps := w\<rparr>) = leases_ok d"
  "leases_ok (d\<lparr>step_attempts := a\<rparr>) = leases_ok d"
  by (simp_all add: children_defs cong: option.case_cong)

lemma task_key_exists_keys: "task_key_exists tid tenant d \<longleftrightarrow> (tid, tenant) \<in> set (task_keys d)"
  by (simp add: task_key_exists_iff task_keys_def)

lemma execution_key_exists_keys: "execution_key_exists eid tenant d \<longleftrightarrow> (eid, tenant) \<in> set (exec_keys d)"
  by (auto simp: execution_key_exists_def exec_keys_def list_ex_iff)

section \<open>Sequences of commands\<close>

text \<open>
  A system that keeps an invariant and relates each state to its successor by a preorder does so
  along every run.
\<close>

locale stepwise =
  fixes step :: "'c \<Rightarrow> 's \<Rightarrow> 's" and ok :: "'s \<Rightarrow> bool" and le :: "'s \<Rightarrow> 's \<Rightarrow> bool"
  assumes ok_step: "ok x \<Longrightarrow> ok (step c x)"
    and le_step: "ok x \<Longrightarrow> le x (step c x)"
    and le_refl: "le x x"
    and le_trans: "le x y \<Longrightarrow> le y z \<Longrightarrow> le x z"
begin

lemma ok_run: "ok x \<Longrightarrow> ok (fold step cs x)"
  by (induction cs arbitrary: x) (simp_all add: ok_step)

lemma le_run: "ok x \<Longrightarrow> le x (fold step cs x)"
proof (induction cs arbitrary: x)
  case Nil
  then show ?case by (simp add: le_refl)
next
  case (Cons c cs)
  then show ?case using le_trans [OF le_step [OF Cons.prems] Cons.IH [OF ok_step [OF Cons.prems]]] by simp
qed

text \<open>A later state of a run is above every earlier one.\<close>

lemma le_later: "ok x \<Longrightarrow> le (fold step cs x) (fold step (cs @ cs') x)"
  using le_run [OF ok_run, of x cs cs'] by simp

end

end
