(* ===== verification/Task_Commands.thy ===== *)
theory Task_Commands
  imports Contract
begin

text \<open>
  The Task commands of \<open>postgres/task-schema.ts\<close>: creation, lifecycle transitions, progress,
  cancellation, results, and the two fan-out commands \<open>settle_items\<close> and \<open>sync_item_progress\<close>.
  Each is a function of the session, the value of \<open>clock_timestamp()\<close>, its parameters and the
  database. \<open>FOR UPDATE\<close> serialises commands on a row, so a command is one atomic step. Parameters
  the client never passes as NULL are plain values.
\<close>

section \<open>Creation\<close>

definition new_task ::
  "int \<Rightarrow> string \<Rightarrow> string \<Rightarrow> string \<Rightarrow> string option \<Rightarrow> int \<Rightarrow> task_row" where
  "new_task now tid ty tenant owner defver = \<lparr>t_id = tid, t_type = ty, t_tenant_id = tenant,
    t_owner_id = owner, t_definition_version = defver, t_state = T_pending,
    t_progress_completed = 0, t_progress_total = None, t_progress_message = None,
    t_result_ref = None, t_cancellation_status = C_none, t_cancellation_reason = None,
    t_counts = counts_of [], t_items_settled_at = None, t_version = 1, t_created_at = now,
    t_updated_at = now\<rparr>"

text \<open>The four-argument command of migration 001; the tenant is the column's default.\<close>

definition create_task_v1 ::
  "session \<Rightarrow> int \<Rightarrow> string \<Rightarrow> string \<Rightarrow> string option \<Rightarrow> int \<Rightarrow> int command" where
  "create_task_v1 s now p_id p_type p_owner_id p_definition_version d = (
    if btrim p_id = '''' \<or> btrim p_type = '''' \<or> p_definition_version \<le> 0
    then fail ''RHINOQ_INVALID_TASK'' ''''
    else on_unique_violation (fail ''RHINOQ_TASK_ALREADY_EXISTS'' p_id) (
      bind_res (default_tenant s) (\<lambda>tenant.
        let t = new_task now p_id (btrim p_type) tenant
          (nullif (btrim (coalesce p_owner_id '''')) '''') p_definition_version in
        bind_res (insert_task s t d) (\<lambda>d'. Inr (t_version t, d')))))"

text \<open>
  The five-argument command of migration 009, which the client calls. The result says whether the
  Task existed already. When the conflicting row belongs to another tenant the SELECT finds
  nothing and every comparison with it is NULL, except \<open>IS DISTINCT FROM\<close>.
\<close>

definition create_task ::
  "session \<Rightarrow> int \<Rightarrow> string \<Rightarrow> string \<Rightarrow> string \<Rightarrow> string option \<Rightarrow> int \<Rightarrow> bool command" where
  "create_task s now p_id p_type p_tenant_id p_owner_id p_definition_version d = (
    if btrim p_tenant_id = '''' then fail ''RHINOQ_INVALID_TENANT'' ''''
    else bind_res (insert_task_or_nothing s
        (new_task now p_id p_type p_tenant_id p_owner_id p_definition_version) d) (\<lambda>(found, d').
      if found then Inr (False, d')
      else (case select_task s p_id d' of
          None \<Rightarrow> if p_owner_id \<noteq> None then fail ''RHINOQ_TASK_CONFLICT'' p_id else Inr (True, d')
        | Some v \<Rightarrow>
            if t_type v \<noteq> p_type \<or> t_tenant_id v \<noteq> p_tenant_id \<or> t_owner_id v \<noteq> p_owner_id \<or>
              t_definition_version v \<noteq> p_definition_version
            then fail ''RHINOQ_TASK_CONFLICT'' p_id
            else Inr (True, d'))))"

section \<open>Lifecycle\<close>

text \<open>\<open>UPDATE ... WHERE id = p_id RETURNING version\<close> on the row that was locked.\<close>

definition update_returning :: "session \<Rightarrow> task_row \<Rightarrow> (task_row \<Rightarrow> task_row) \<Rightarrow> int command" where
  "update_returning s t f d =
    bind_res (update_task s (t_id t) f d) (\<lambda>d'. Inr (t_version (f t), d'))"

definition task_transition_allowed :: "task_state \<Rightarrow> task_state \<Rightarrow> bool" where
  "task_transition_allowed st target \<longleftrightarrow>
    (st = T_pending \<and> target = T_queued) \<or>
    (st = T_queued \<and> target \<in> {T_running, T_cancel_requested}) \<or>
    (st = T_running \<and> target \<in> {T_uncertain, T_succeeded, T_failed, T_cancel_requested}) \<or>
    (st = T_uncertain \<and> target \<in> {T_succeeded, T_failed}) \<or>
    (st = T_cancel_requested \<and> target \<in> {T_uncertain, T_succeeded, T_failed, T_cancelled}) \<or>
    (st \<in> {T_failed, T_cancelled} \<and> target = T_queued)"

definition transitioned :: "int \<Rightarrow> task_state \<Rightarrow> task_row \<Rightarrow> task_row" where
  "transitioned now target t = t\<lparr>t_state := target,
    t_cancellation_status :=
      (if target = T_queued \<and> t_state t \<in> {T_failed, T_cancelled} then C_none
       else if target = T_cancel_requested \<and> t_cancellation_status t = C_none then C_requested
       else if t_state t = T_cancel_requested \<and> target = T_cancelled then C_cancelled
       else if t_state t = T_cancel_requested \<and> target = T_succeeded then C_too_late
       else if t_state t = T_cancel_requested \<and> target = T_failed then C_failed
       else t_cancellation_status t),
    t_cancellation_reason :=
      (if target = T_queued \<and> t_state t \<in> {T_failed, T_cancelled} then None
       else t_cancellation_reason t),
    t_version := t_version t + 1, t_updated_at := now\<rparr>"

definition transition_task :: "session \<Rightarrow> int \<Rightarrow> string \<Rightarrow> int \<Rightarrow> string \<Rightarrow> int command" where
  "transition_task s now p_id p_expected_version p_target d = (
    case select_task s p_id d of
      None \<Rightarrow> fail ''RHINOQ_TASK_NOT_FOUND'' p_id
    | Some v_task \<Rightarrow>
        if t_version v_task \<noteq> p_expected_version
        then fail_version ''transitionTask'' p_id p_expected_version (t_version v_task) (Some ''Task'') None
        else (case task_state_of p_target of
            Some target \<Rightarrow>
              if task_transition_allowed (t_state v_task) target
              then update_returning s v_task (transitioned now target) d
              else fail ''RHINOQ_INVALID_TASK_TRANSITION''
                (task_state_name (t_state v_task) @ '' -> '' @ p_target)
          | None \<Rightarrow> fail ''RHINOQ_INVALID_TASK_TRANSITION''
              (task_state_name (t_state v_task) @ '' -> '' @ p_target)))"

section \<open>Progress\<close>

text \<open>The detail of the error, migration 018; the dash is U+2014.\<close>

definition progress_state_detail :: "string \<Rightarrow> task_state \<Rightarrow> string" where
  "progress_state_detail tid st =
    ''reportTaskProgress('' @ tid @ ''): cannot report progress while the task is '' @ [CHR 0x27] @
    task_state_name st @ [CHR 0x27] @ ''. Progress is accepted only while a task is '' @ [CHR 0x27] @
    ''running'' @ [CHR 0x27] @ '' or '' @ [CHR 0x27] @ ''cancel_requested'' @ [CHR 0x27] @
    ''. Move the task to '' @ [CHR 0x27] @ ''running'' @ [CHR 0x27] @ '' first '' @
    [CHR 0xE2, CHR 0x80, CHR 0x94] @ '' a freshly created task goes '' @
    ''pending -> queued -> running via transitionTask '' @ [CHR 0xE2, CHR 0x80, CHR 0x94] @
    '' then report progress.''"

definition report_progress ::
  "session \<Rightarrow> int \<Rightarrow> string \<Rightarrow> int \<Rightarrow> int \<Rightarrow> int option \<Rightarrow> string option \<Rightarrow> int command" where
  "report_progress s now p_id p_expected_version p_completed v_total p_message d = (
    let v_message = nullif (coalesce p_message '''') '''' in
    case select_task s p_id d of
      None \<Rightarrow> fail ''RHINOQ_TASK_NOT_FOUND'' p_id
    | Some v_task \<Rightarrow>
        if t_state v_task \<notin> {T_running, T_cancel_requested}
        then fail ''RHINOQ_PROGRESS_STATE'' (progress_state_detail p_id (t_state v_task))
        else if p_completed < 0 \<or>
          (case v_total of None \<Rightarrow> False | Some p_total \<Rightarrow> p_total < 0 \<or> p_total < p_completed)
        then fail ''RHINOQ_INVALID_PROGRESS'' ''''
        else if t_progress_completed v_task = p_completed \<and> t_progress_total v_task = v_total \<and>
          t_progress_message v_task = v_message
        then Inr (t_version v_task, d)
        else if t_version v_task \<noteq> p_expected_version
        then fail_version ''reportTaskProgress'' p_id p_expected_version (t_version v_task) (Some ''Task'') None
        else if p_completed < t_progress_completed v_task
        then fail ''RHINOQ_PROGRESS_REGRESSION'' p_id
        else if t_progress_total v_task \<noteq> None \<and> t_progress_total v_task \<noteq> v_total
        then fail ''RHINOQ_PROGRESS_TOTAL_CHANGED'' p_id
        else update_returning s v_task (\<lambda>t. t\<lparr>t_progress_completed := p_completed,
          t_progress_total := v_total, t_progress_message := v_message,
          t_version := t_version t + 1, t_updated_at := now\<rparr>) d)"

section \<open>Cancellation and results\<close>

definition request_cancellation :: "session \<Rightarrow> int \<Rightarrow> string \<Rightarrow> int \<Rightarrow> int command" where
  "request_cancellation s now p_id p_expected_version d = (
    case select_task s p_id d of
      None \<Rightarrow> fail ''RHINOQ_TASK_NOT_FOUND'' p_id
    | Some v_task \<Rightarrow>
        if t_state v_task = T_cancel_requested then Inr (t_version v_task, d)
        else if t_version v_task \<noteq> p_expected_version
        then fail_version ''requestTaskCancellation'' p_id p_expected_version (t_version v_task) (Some ''Task'') None
        else if t_state v_task \<notin> {T_queued, T_running}
        then fail ''RHINOQ_INVALID_TASK_TRANSITION'' (task_state_name (t_state v_task))
        else update_returning s v_task (\<lambda>t. t\<lparr>t_state := T_cancel_requested,
          t_cancellation_status := C_requested, t_version := t_version t + 1, t_updated_at := now\<rparr>) d)"

text \<open>The statuses \<open>resolve_cancellation\<close> accepts.\<close>

definition resolution_status :: "string \<Rightarrow> cancellation_status option" where
  "resolution_status p_status = find (\<lambda>c. cancellation_status_name c = p_status)
    [C_acknowledged, C_cannot_cancel_safely, C_failed]"

definition resolve_cancellation ::
  "session \<Rightarrow> int \<Rightarrow> string \<Rightarrow> int \<Rightarrow> string \<Rightarrow> string option \<Rightarrow> int command" where
  "resolve_cancellation s now p_id p_expected_version p_status p_reason d = (
    case select_task s p_id d of
      None \<Rightarrow> fail ''RHINOQ_TASK_NOT_FOUND'' p_id
    | Some v_task \<Rightarrow>
        if t_version v_task \<noteq> p_expected_version
        then fail_version ''resolveTaskCancellation'' p_id p_expected_version (t_version v_task) (Some ''Task'') None
        else if t_state v_task \<noteq> T_cancel_requested
        then fail ''RHINOQ_INVALID_CANCELLATION'' p_status
        else (case resolution_status p_status of
            None \<Rightarrow> fail ''RHINOQ_INVALID_CANCELLATION'' p_status
          | Some status \<Rightarrow> update_returning s v_task (\<lambda>t. t\<lparr>t_cancellation_status := status,
              t_cancellation_reason := nullif (btrim (coalesce p_reason '''')) '''',
              t_version := t_version t + 1, t_updated_at := now\<rparr>) d))"

definition attach_task_result :: "session \<Rightarrow> int \<Rightarrow> string \<Rightarrow> int \<Rightarrow> string \<Rightarrow> int command" where
  "attach_task_result s now p_id p_expected_version p_reference d = (
    let v_reference = btrim p_reference in
    case select_task s p_id d of
      None \<Rightarrow> fail ''RHINOQ_TASK_NOT_FOUND'' p_id
    | Some v_task \<Rightarrow>
        if v_reference = '''' then fail ''RHINOQ_INVALID_RESULT'' ''''
        else if t_result_ref v_task = Some v_reference then Inr (t_version v_task, d)
        else if t_version v_task \<noteq> p_expected_version
        then fail_version ''attachTaskResult'' p_id p_expected_version (t_version v_task) (Some ''Task'') None
        else update_returning s v_task (\<lambda>t. t\<lparr>t_result_ref := Some v_reference,
          t_version := t_version t + 1, t_updated_at := now\<rparr>) d)"

section \<open>Fan-out\<close>

text \<open>Attempts of a Task that are not superseded, among those the session can see.\<close>

definition live_attempts :: "session \<Rightarrow> string \<Rightarrow> db \<Rightarrow> execution_row list" where
  "live_attempts s tid d =
    select_rows s execution_table (\<lambda>e. e_task_id e = tid \<and> e_superseded_at e = None) (executions d)"

definition settle_items :: "session \<Rightarrow> int \<Rightarrow> string \<Rightarrow> bool command" where
  "settle_items s now p_id d = (
    case select_task s p_id d of
      None \<Rightarrow> Inr (False, d)
    | Some t \<Rightarrow>
        let live = live_attempts s (t_id t) d in
        if t_items_settled_at t = None \<and> live \<noteq> [] \<and> list_all (\<lambda>e. exec_terminal (e_state e)) live
        then bind_res (update_task s (t_id t)
          (\<lambda>t. t\<lparr>t_items_settled_at := Some now, t_updated_at := now\<rparr>) d) (\<lambda>d'. Inr (True, d'))
        else Inr (False, d))"

text \<open>\<open>settle_items\<close> of migration 005, which reads the stored aggregates.\<close>

definition settle_items_v5 :: "session \<Rightarrow> int \<Rightarrow> string \<Rightarrow> bool command" where
  "settle_items_v5 s now p_id d = (
    case select_task s p_id d of
      None \<Rightarrow> Inr (False, d)
    | Some t \<Rightarrow>
        if t_items_settled_at t = None \<and> c_total (t_counts t) > 0 \<and>
          c_pending_dispatch (t_counts t) + c_dispatched (t_counts t) + c_running (t_counts t) +
          c_stalled (t_counts t) = 0
        then bind_res (update_task s (t_id t)
          (\<lambda>t. t\<lparr>t_items_settled_at := Some now, t_updated_at := now\<rparr>) d) (\<lambda>d'. Inr (True, d'))
        else Inr (False, d))"

definition sync_item_progress :: "session \<Rightarrow> int \<Rightarrow> string \<Rightarrow> int command" where
  "sync_item_progress s now p_id d = (
    case select_task s p_id d of
      None \<Rightarrow> fail ''RHINOQ_TASK_NOT_FOUND'' p_id
    | Some v_task \<Rightarrow>
        if t_state v_task \<notin> {T_running, T_cancel_requested} then Inr (t_version v_task, d)
        else
          let live = live_attempts s p_id d;
            v_completed = count_where (\<lambda>e. exec_terminal (e_state e)) live;
            v_total = int (length live) in
          if v_total = 0 \<or> v_completed < t_progress_completed v_task \<or>
            (t_progress_completed v_task = v_completed \<and> t_progress_total v_task = Some v_total)
          then Inr (t_version v_task, d)
          else update_returning s v_task (\<lambda>t. t\<lparr>t_progress_completed := v_completed,
            t_progress_total := Some v_total, t_version := t_version t + 1, t_updated_at := now\<rparr>) d)"

section \<open>Every Task command honours the contract\<close>

lemma select_taskD:
  assumes "select_task s tid d = Some t"
  shows "t \<in> set (tasks d)" "visible s (t_tenant_id t)" "t_id t = tid"
  using select_one_SomeD [OF assms [unfolded select_task_def]] by simp_all

text \<open>A command that does nothing, or updates one visible Task forwards.\<close>

inductive one_task_step :: "session \<Rightarrow> db \<Rightarrow> db \<Rightarrow> bool" for s where
  stay: "one_task_step s d d"
| move: "update_task s (t_id t) f d = Inr d' \<Longrightarrow> select_task s tid d = Some t \<Longrightarrow>
    \<forall>u. t_id (f u) = t_id u \<and> t_tenant_id (f u) = t_tenant_id u \<and> t_counts (f u) = t_counts u \<Longrightarrow>
    task_evolves t (f t) \<Longrightarrow> cancellation_ok t \<longrightarrow> cancellation_ok (f t) \<Longrightarrow> one_task_step s d d'"

lemma one_task_step_ok:
  assumes "one_task_step s d d'"
  shows "hidden_db s d' = hidden_db s d" and "rest d' = rest d"
    and "core_ok d \<Longrightarrow> core_ok d'" and "core_ok d \<Longrightarrow> evolves d d'"
  using assms
proof (induction)
  case (stay d)
  { case 1 show ?case by simp }
  { case 2 show ?case by simp }
  { case 3 then show ?case by simp }
  { case 4 show ?case by (rule evolves_refl) }
next
  case (move t f d d' tid)
  note D = update_tasksD [OF move(1)] and t = select_taskD [OF move(2)]
  { case 1 show ?case using isolated_update_tasks [OF move(1)] move(3) by blast }
  { case 2 show ?case by (rule D(3)) }
  { case 3
    note ok = wfD(1) [OF 3]
    have "cancellation_ok u \<Longrightarrow> cancellation_ok (f u)" if "u \<in> set (tasks d)" "t_id u = t_id t" for u
      using task_key.key_inj [OF ok that(1) t(1) that(2)] move(5) by blast
    then show ?case
      by (intro wf_upd_tasks [OF 3 update_taskD [OF move(1) ok t(1,2)] D(2) D(4) [OF ok]])
        (use move(3) in auto) }
  { case 4
    note ok = wfD(1) [OF 4]
    have "task_evolves u (f u)" if "u \<in> set (tasks d)" "t_id u = t_id t" for u
      using task_key.key_inj [OF ok that(1) t(1) that(2)] move(4) by blast
    then show ?case
      unfolding evolves_iff by (rule evolves_upd_tasks [OF update_taskD [OF move(1) ok t(1,2)] D(2)]) }
qed

lemma sound_one_task:
  assumes "\<And>d x d'. c d = Inr (x, d') \<Longrightarrow> one_task_step s d d'"
  shows "sound s c"
  by (rule soundI_core) (use assms one_task_step_ok in blast)+

lemma update_returning_Inr:
  "update_returning s t f d = Inr (x, d') \<longleftrightarrow> update_task s (t_id t) f d = Inr d' \<and> x = t_version (f t)"
  by (auto simp: update_returning_def)

lemma transitioned_ok:
  assumes "task_transition_allowed (t_state t) target"
  shows "task_evolves t (transitioned now target t)"
    and "cancellation_ok t \<longrightarrow> cancellation_ok (transitioned now target t)"
proof -
  have "t_state t \<noteq> T_succeeded" using assms by (auto simp: task_transition_allowed_def)
  then show "task_evolves t (transitioned now target t)"
    by (simp add: task_evolves_def transitioned_def)
  show "cancellation_ok t \<longrightarrow> cancellation_ok (transitioned now target t)"
    using assms by (cases "t_state t"; cases target)
      (auto simp: task_transition_allowed_def transitioned_def cancellation_ok_def)
qed

lemma transition_task_sound [cmd_inv]: "sound s (transition_task s now p_id v p_target)"
proof (rule sound_one_task)
  fix d x d'
  assume "transition_task s now p_id v p_target d = Inr (x, d')"
  then obtain t target where t: "select_task s p_id d = Some t"
    and ok: "task_transition_allowed (t_state t) target"
    and upd: "update_task s (t_id t) (transitioned now target) d = Inr d'"
    by (auto simp: transition_task_def update_returning_Inr split: option.splits if_splits)
  show "one_task_step s d d'"
    by (rule one_task_step.move [OF upd t _ transitioned_ok [OF ok]]) (simp add: transitioned_def)
qed

text \<open>Commands whose new row is a fixed function of the old one: the witnesses are read off.\<close>

lemma task_evolves_update [simp]:
  "t_progress_completed t \<le> c \<Longrightarrow> task_evolves t (t\<lparr>t_progress_completed := c,
    t_progress_total := n, t_progress_message := m, t_version := t_version t + 1, t_updated_at := now\<rparr>)"
  "t_progress_completed t \<le> c \<Longrightarrow> task_evolves t (t\<lparr>t_progress_completed := c,
    t_progress_total := n, t_version := t_version t + 1, t_updated_at := now\<rparr>)"
  "t_state t \<noteq> T_succeeded \<Longrightarrow> task_evolves t (t\<lparr>t_state := st, t_cancellation_status := cs,
    t_version := t_version t + 1, t_updated_at := now\<rparr>)"
  "task_evolves t (t\<lparr>t_cancellation_status := cs, t_cancellation_reason := r,
    t_version := t_version t + 1, t_updated_at := now\<rparr>)"
  "task_evolves t (t\<lparr>t_result_ref := ref, t_version := t_version t + 1, t_updated_at := now\<rparr>)"
  "t_items_settled_at t = None \<Longrightarrow> task_evolves t (t\<lparr>t_items_settled_at := Some at, t_updated_at := now\<rparr>)"
  by (simp_all add: task_evolves_def task_view_def)

lemma cancellation_ok_update [simp]:
  "cancellation_ok (t\<lparr>t_progress_completed := c, t_progress_total := n, t_progress_message := m,
    t_version := v, t_updated_at := now\<rparr>) = cancellation_ok t"
  "cancellation_ok (t\<lparr>t_progress_completed := c, t_progress_total := n, t_version := v,
    t_updated_at := now\<rparr>) = cancellation_ok t"
  "cancellation_ok (t\<lparr>t_result_ref := ref, t_version := v, t_updated_at := now\<rparr>) = cancellation_ok t"
  "cancellation_ok (t\<lparr>t_items_settled_at := at, t_updated_at := now\<rparr>) = cancellation_ok t"
  by (rule cancellation_ok_cong; simp)+

lemmas task_step_intros = one_task_step.stay one_task_step.move

lemma report_progress_sound [cmd_inv]:
  "sound s (report_progress s now p_id v p_completed v_total p_message)"
  by (rule sound_one_task)
    (auto simp: report_progress_def update_returning_Inr Let_def split: option.splits if_splits
      intro: task_step_intros)

lemma request_cancellation_sound [cmd_inv]: "sound s (request_cancellation s now p_id v)"
  by (rule sound_one_task)
    (auto simp: request_cancellation_def update_returning_Inr cancellation_ok_def
      split: option.splits if_splits intro: task_step_intros)

lemma resolution_status_SomeD:
  "resolution_status n = Some status \<Longrightarrow> status \<in> {C_acknowledged, C_cannot_cancel_safely, C_failed}"
  unfolding resolution_status_def by (erule find_SomeE) simp

lemma resolve_cancellation_sound [cmd_inv]:
  "sound s (resolve_cancellation s now p_id v p_status p_reason)"
proof (rule sound_one_task)
  fix d x d'
  assume "resolve_cancellation s now p_id v p_status p_reason d = Inr (x, d')"
  then obtain t status where t: "select_task s p_id d = Some t" "t_state t = T_cancel_requested"
    and status: "resolution_status p_status = Some status"
    and upd: "update_task s (t_id t) (\<lambda>t. t\<lparr>t_cancellation_status := status,
              t_cancellation_reason := nullif (btrim (coalesce p_reason '''')) '''',
              t_version := t_version t + 1, t_updated_at := now\<rparr>) d = Inr d'"
    by (auto simp: resolve_cancellation_def update_returning_Inr split: option.splits if_splits)
  show "one_task_step s d d'"
    by (rule one_task_step.move [OF upd t(1)])
      (use t(2) resolution_status_SomeD [OF status] in \<open>auto simp: cancellation_ok_def\<close>)
qed

lemma attach_task_result_sound [cmd_inv]: "sound s (attach_task_result s now p_id v p_reference)"
  by (rule sound_one_task)
    (auto simp: attach_task_result_def update_returning_Inr Let_def split: option.splits if_splits
      intro: task_step_intros)

lemma settle_items_sound [cmd_inv]: "sound s (settle_items s now p_id)"
  by (rule sound_one_task)
    (auto simp: settle_items_def Let_def split: option.splits if_splits intro: task_step_intros)

lemma sync_item_progress_sound [cmd_inv]: "sound s (sync_item_progress s now p_id)"
  by (rule sound_one_task)
    (auto simp: sync_item_progress_def update_returning_Inr Let_def split: option.splits if_splits
      intro: task_step_intros)

lemma new_task_simps [simp]:
  "t_id (new_task now tid ty tenant owner dv) = tid"
  "t_tenant_id (new_task now tid ty tenant owner dv) = tenant"
  "t_counts (new_task now tid ty tenant owner dv) = counts_of []"
  "cancellation_ok (new_task now tid ty tenant owner dv)"
  by (simp_all add: new_task_def cancellation_ok_def)

lemma new_task_step:
  assumes "core_ok d" and "tasks d' = tasks d @ [new_task now tid ty tenant owner dv]"
    and "executions d' = executions d" and "table_ok task_table (tasks d')"
  shows "core_ok d'" and "evolves d d'"
  using wf_snoc_task [OF assms(1-4)] evolves_snoc_task [OF assms(2,3)] by simp_all

lemma insert_task_ok:
  assumes "insert_task s (new_task now tid ty tenant owner dv) d = Inr d'"
  shows "hidden_db s d' = hidden_db s d" and "rest d' = rest d"
    and "core_ok d \<Longrightarrow> core_ok d'" and "core_ok d \<Longrightarrow> evolves d d'"
proof -
  obtain rows where rows: "insert_row s task_table (new_task now tid ty tenant owner dv) (tasks d) = Inr rows"
    and d': "d' = d\<lparr>tasks := rows, notices := notices d @ [notify_change (new_task now tid ty tenant owner dv)]\<rparr>"
    using assms by (auto simp: insert_task_def)
  note R = insert_row_ok [OF rows]
  show "rest d' = rest d" by (simp add: d' rest_def)
  then show "hidden_db s d' = hidden_db s d"
    by (rule hidden_db_core) (simp_all add: d' R(4))
  assume "core_ok d"
  then show "core_ok d'" and "evolves d d'"
    using new_task_step [of d d'] R(1) R(3) wfD(1) by (auto simp: d')
qed

lemma insert_task_or_nothing_ok:
  assumes "insert_task_or_nothing s (new_task now tid ty tenant owner dv) d = Inr (found, d')"
  shows "hidden_db s d' = hidden_db s d" and "rest d' = rest d"
    and "core_ok d \<Longrightarrow> core_ok d'" and "core_ok d \<Longrightarrow> evolves d d'"
proof -
  let ?t = "new_task now tid ty tenant owner dv"
  obtain rows where rows: "insert_row_or_nothing s task_table ?t (tasks d) = Inr (found, rows)"
    and d': "d' = d\<lparr>tasks := rows, notices := notices d @ (if found then [notify_change ?t] else [])\<rparr>"
    using assms by (auto simp: insert_task_or_nothing_def)
  note R = insert_row_or_nothing_ok [OF rows]
  show "rest d' = rest d" by (simp add: d' rest_def)
  then show "hidden_db s d' = hidden_db s d"
    by (rule hidden_db_core) (simp_all add: d' R(4))
  assume core_ok: "core_ok d"
  show "core_ok d'" and "evolves d d'"
  proof -
    show "core_ok d'"
    proof (cases found)
      case True
      then show ?thesis using new_task_step(1) [OF core_ok, of d'] R(1) R(3) [OF wfD(1) [OF core_ok]] by (simp add: d')
    next
      case False
      then show ?thesis using core_ok R(1)
        by (simp add: d' core_ok_def parents_ok_def counts_ok_def task_key_exists_def)
    qed
    show "evolves d d'"
    proof (cases found)
      case True
      then show ?thesis using new_task_step(2) [OF core_ok, of d'] R(1) R(3) [OF wfD(1) [OF core_ok]] by (simp add: d')
    next
      case False
      then show ?thesis using R(1) by (simp add: d' evolves_def views_kept_def rows_evolve_refl)
    qed
  qed
qed

lemma create_task_v1_sound [cmd_inv]: "sound s (create_task_v1 s now p_id p_type p_owner_id dv)"
proof (rule soundI_core)
  fix d x d'
  assume "create_task_v1 s now p_id p_type p_owner_id dv d = Inr (x, d')"
  then obtain tenant where
    "insert_task s (new_task now p_id (btrim p_type) tenant (nullif (btrim (coalesce p_owner_id '''')) '''') dv) d = Inr d'"
    by (auto simp: create_task_v1_def Let_def split: if_splits dest!: on_unique_violation_InrD)
  note I = insert_task_ok [OF this]
  show "hidden_db s d' = hidden_db s d" by (rule I(1))
  assume "core_ok d"
  then show "core_ok d'" "evolves d d'" "rest d' = rest d" using I by simp_all
qed

lemma create_task_sound [cmd_inv]: "sound s (create_task s now p_id p_type p_tenant_id p_owner_id dv)"
proof (rule soundI_core)
  fix d x d'
  assume "create_task s now p_id p_type p_tenant_id p_owner_id dv d = Inr (x, d')"
  then obtain found where
    "insert_task_or_nothing s (new_task now p_id p_type p_tenant_id p_owner_id dv) d = Inr (found, d')"
    by (auto simp: create_task_def split: if_splits option.splits)
  note I = insert_task_or_nothing_ok [OF this]
  show "hidden_db s d' = hidden_db s d" by (rule I(1))
  assume "core_ok d"
  then show "core_ok d'" "evolves d d'" "rest d' = rest d" using I by simp_all
qed

end
