(* ===== verification/Execution_Commands.thy ===== *)
theory Execution_Commands
  imports Task_Commands
begin

text \<open>
  The Execution commands of \<open>postgres/task-schema.ts\<close> in their live versions (migrations 007, 013,
  015 and 016): create, bind, transition, owner transition, retry, result, and the effect gate
  \<open>claim_item_effect\<close>. The advisory lock \<open>item_lock_key\<close> serialises commands of one item; a
  command is one atomic step here, so it has no counterpart.
\<close>

section \<open>Attempts\<close>

definition item_attempts :: "session \<Rightarrow> string \<Rightarrow> string \<Rightarrow> db \<Rightarrow> execution_row list" where
  "item_attempts s tid item d =
    select_rows s execution_table (\<lambda>e. e_task_id e = tid \<and> e_item_key e = item) (executions d)"

text \<open>\<open>COALESCE(MAX(attempt), 0)\<close>; attempts are positive.\<close>

definition max_attempt :: "execution_row list \<Rightarrow> int" where
  "max_attempt rows = foldr (\<lambda>e m. max (e_attempt e) m) rows 0"

text \<open>\<open>ORDER BY attempt DESC LIMIT 1\<close>; attempts of an item are distinct.\<close>

definition latest_attempt :: "execution_row list \<Rightarrow> execution_row option" where
  "latest_attempt rows = find (\<lambda>e. e_attempt e = max_attempt rows) rows"

definition new_execution ::
  "int \<Rightarrow> string \<Rightarrow> string \<Rightarrow> string \<Rightarrow> string \<Rightarrow> int \<Rightarrow> string \<Rightarrow> string \<Rightarrow> string option \<Rightarrow> exec_state \<Rightarrow>
    execution_row" where
  "new_execution now eid tid tenant item attempt runtime rscope ext st = \<lparr>e_id = eid, e_task_id = tid,
    e_tenant_id = tenant, e_item_key = item, e_attempt = attempt, e_runtime = runtime,
    e_runtime_scope = rscope, e_external_id = ext, e_state = st, e_result_ref = None,
    e_failure_reason = None, e_superseded_at = None, e_effect_keys = [], e_version = 1,
    e_created_at = now, e_updated_at = now\<rparr>"

definition create_execution ::
  "session \<Rightarrow> int \<Rightarrow> string \<Rightarrow> string \<Rightarrow> string option \<Rightarrow> string \<Rightarrow> string option \<Rightarrow> string option \<Rightarrow>
    int command" where
  "create_execution s now p_id p_task_id p_item_key p_runtime p_runtime_scope p_external_id d = (
    let v_item_key = btrim (coalesce p_item_key ''default'') in
    if btrim p_id = '''' \<or> btrim p_runtime = '''' \<or> v_item_key = ''''
    then fail ''RHINOQ_INVALID_EXECUTION'' ''''
    else (case select_task s p_task_id d of
        None \<Rightarrow> fail ''RHINOQ_TASK_NOT_FOUND'' p_task_id
      | Some v_task \<Rightarrow>
          let v_attempt = max_attempt (item_attempts s p_task_id v_item_key d) + 1 in
          on_unique_violation (fail ''RHINOQ_EXECUTION_ALREADY_EXISTS'' p_id) (
            bind_res (default_tenant s) (\<lambda>tenant.
            bind_res (insert_execution s now (new_execution now p_id p_task_id tenant v_item_key
                v_attempt (btrim p_runtime) (btrim (coalesce p_runtime_scope ''''))
                (nullif (btrim (coalesce p_external_id '''')) '''') E_pending_dispatch) d) (\<lambda>d'.
              Inr (v_attempt, d'))))))"

section \<open>Version fences\<close>

text \<open>The hint of \<open>RHINOQ_WRONG_VERSION_SCOPE\<close>: the version given is the parent Task's.\<close>

definition version_hint :: "session \<Rightarrow> execution_row \<Rightarrow> int \<Rightarrow> db \<Rightarrow> string option" where
  "version_hint s e expected d = (case select_task s (e_task_id e) d of
      None \<Rightarrow> None
    | Some t \<Rightarrow> if t_version t = expected then Some ''Task'' else None)"

definition bind_execution ::
  "session \<Rightarrow> int \<Rightarrow> string \<Rightarrow> int \<Rightarrow> string \<Rightarrow> string option \<Rightarrow> string \<Rightarrow> int command" where
  "bind_execution s now p_id p_expected_version p_runtime p_runtime_scope p_external_id d = (
    case select_execution s p_id d of
      None \<Rightarrow> fail ''RHINOQ_EXECUTION_NOT_FOUND'' p_id
    | Some e \<Rightarrow>
        if e_version e \<noteq> p_expected_version
        then fail_version ''bindTaskExecution'' p_id p_expected_version (e_version e) (Some ''Execution'')
          (version_hint s e p_expected_version d)
        else if e_state e \<noteq> E_pending_dispatch \<or> e_runtime e \<noteq> btrim p_runtime
        then fail ''RHINOQ_INVALID_EXECUTION_BINDING'' p_id
        else if (case e_external_id e of None \<Rightarrow> False
            | Some x \<Rightarrow> x \<noteq> btrim p_external_id \<or> e_runtime_scope e \<noteq> btrim (coalesce p_runtime_scope ''''))
        then fail ''RHINOQ_EXECUTION_ALREADY_BOUND'' p_id
        else if btrim p_external_id = ''''
        then fail ''RHINOQ_INVALID_EXECUTION_BINDING'' p_id
        else bind_res (update_execution s now p_id (\<lambda>e. e\<lparr>
            e_runtime_scope := btrim (coalesce p_runtime_scope ''''),
            e_external_id := Some (btrim p_external_id), e_state := E_dispatched,
            e_version := e_version e + 1, e_updated_at := now\<rparr>) d)
          (\<lambda>d'. Inr (e_version e + 1, d')))"

text \<open>The edges both transition commands allow.\<close>

definition exec_transition_allowed :: "execution_row \<Rightarrow> exec_state \<Rightarrow> bool" where
  "exec_transition_allowed e target \<longleftrightarrow>
    (e_state e = E_pending_dispatch \<and> target = E_cancelled) \<or>
    (e_state e = E_pending_dispatch \<and> e_external_id e \<noteq> None \<and>
      target \<in> {E_running, E_succeeded, E_failed, E_stalled}) \<or>
    (e_state e = E_dispatched \<and> target \<in> {E_running, E_succeeded, E_failed, E_stalled, E_cancelled}) \<or>
    (e_state e = E_running \<and> target \<in> {E_succeeded, E_failed, E_stalled, E_cancelled}) \<or>
    (e_state e = E_stalled \<and> target \<in> {E_dispatched, E_failed, E_cancelled})"

definition exec_transitioned :: "int \<Rightarrow> exec_state \<Rightarrow> string option \<Rightarrow> execution_row \<Rightarrow> execution_row" where
  "exec_transitioned now target p_reason e = e\<lparr>e_state := target,
    e_failure_reason :=
      (if target = E_failed
       then map_option (left_text 512) (nullif (btrim (coalesce p_reason '''')) '''')
       else e_failure_reason e),
    e_version := e_version e + 1, e_updated_at := now\<rparr>"

definition transition_execution ::
  "session \<Rightarrow> int \<Rightarrow> string \<Rightarrow> int \<Rightarrow> string \<Rightarrow> string option \<Rightarrow> int command" where
  "transition_execution s now p_id p_expected_version p_target p_reason d = (
    case select_execution s p_id d of
      None \<Rightarrow> fail ''RHINOQ_EXECUTION_NOT_FOUND'' p_id
    | Some e \<Rightarrow>
        if exec_state_name (e_state e) = p_target then Inr (e_version e, d)
        else if e_version e \<noteq> p_expected_version
        then fail_version ''transitionTaskExecution'' p_id p_expected_version (e_version e)
          (Some ''Execution'') (version_hint s e p_expected_version d)
        else (case exec_state_of p_target of
            Some target \<Rightarrow>
              if exec_transition_allowed e target
              then bind_res (update_execution s now p_id (exec_transitioned now target p_reason) d)
                (\<lambda>d'. Inr (e_version e + 1, d'))
              else fail ''RHINOQ_INVALID_EXECUTION_TRANSITION''
                (exec_state_name (e_state e) @ '' -> '' @ p_target)
          | None \<Rightarrow> fail ''RHINOQ_INVALID_EXECUTION_TRANSITION''
              (exec_state_name (e_state e) @ '' -> '' @ p_target)))"

text \<open>
  The owner's transition, migration 013: it joins the parent Task on tenant and owner, and after
  the update of the attempt it raises the Task's version itself.
\<close>

definition owned_task :: "session \<Rightarrow> string \<Rightarrow> string \<Rightarrow> string \<Rightarrow> db \<Rightarrow> task_row option" where
  "owned_task s tid tenant owner d = select_one s task_table
    (\<lambda>t. t_id t = tid \<and> t_tenant_id t = tenant \<and> t_owner_id t = Some owner) (tasks d)"

definition transition_execution_for_owner ::
  "session \<Rightarrow> int \<Rightarrow> string \<Rightarrow> string \<Rightarrow> string \<Rightarrow> int \<Rightarrow> string \<Rightarrow> string option \<Rightarrow> int command" where
  "transition_execution_for_owner s now p_id p_tenant_id p_owner_id p_expected_version p_target p_reason d = (
    if btrim p_tenant_id = '''' then fail ''RHINOQ_INVALID_TENANT'' p_id
    else (case select_execution s p_id d of
        None \<Rightarrow> fail ''RHINOQ_EXECUTION_NOT_FOUND'' p_id
      | Some e \<Rightarrow> (case owned_task s (e_task_id e) p_tenant_id p_owner_id d of
          None \<Rightarrow> fail ''RHINOQ_EXECUTION_NOT_FOUND'' p_id
        | Some t \<Rightarrow>
            if exec_state_name (e_state e) = p_target then Inr (e_version e, d)
            else if e_version e \<noteq> p_expected_version
            then fail_version ''transitionTaskExecutionForOwner'' p_id p_expected_version (e_version e)
              (Some ''Execution'') (if t_version t = p_expected_version then Some ''Task'' else None)
            else (case exec_state_of p_target of
                Some target \<Rightarrow>
                  if exec_transition_allowed e target
                  then bind_res (update_execution s now p_id (exec_transitioned now target p_reason) d)
                    (\<lambda>d1. bind_res (update_task s (e_task_id e) (touch_task now) d1)
                    (\<lambda>d'. Inr (e_version e + 1, d')))
                  else fail ''RHINOQ_INVALID_EXECUTION_TRANSITION''
                    (exec_state_name (e_state e) @ '' -> '' @ p_target)
              | None \<Rightarrow> fail ''RHINOQ_INVALID_EXECUTION_TRANSITION''
                  (exec_state_name (e_state e) @ '' -> '' @ p_target)))))"

section \<open>Results, retries and effects\<close>

definition attach_execution_result :: "session \<Rightarrow> int \<Rightarrow> string \<Rightarrow> int \<Rightarrow> string \<Rightarrow> int command" where
  "attach_execution_result s now p_id p_expected_version p_reference d = (
    let v_reference = btrim p_reference in
    case select_execution s p_id d of
      None \<Rightarrow> fail ''RHINOQ_EXECUTION_NOT_FOUND'' p_id
    | Some e \<Rightarrow>
        if v_reference = '''' then fail ''RHINOQ_INVALID_RESULT'' ''''
        else if e_result_ref e = Some v_reference then Inr (e_version e, d)
        else if e_version e \<noteq> p_expected_version
        then fail_version ''attachTaskExecutionResult'' p_id p_expected_version (e_version e)
          (Some ''Execution'') (version_hint s e p_expected_version d)
        else bind_res (update_execution s now p_id (\<lambda>e. e\<lparr>e_result_ref := Some v_reference,
            e_version := e_version e + 1, e_updated_at := now\<rparr>) d)
          (\<lambda>d1. bind_res (update_task s (e_task_id e) (touch_task now) d1)
          (\<lambda>d'. Inr (e_version e + 1, d'))))"

definition superseded :: "int \<Rightarrow> execution_row \<Rightarrow> execution_row" where
  "superseded now e = e\<lparr>e_superseded_at := Some now, e_version := e_version e + 1, e_updated_at := now\<rparr>"

definition retry_execution :: "session \<Rightarrow> int \<Rightarrow> string \<Rightarrow> int \<Rightarrow> string \<Rightarrow> int command" where
  "retry_execution s now p_id p_expected_version p_new_id d = (
    if btrim p_new_id = '''' then fail ''RHINOQ_INVALID_EXECUTION'' ''''
    else (case select_execution s p_id d of
        None \<Rightarrow> fail ''RHINOQ_EXECUTION_NOT_FOUND'' p_id
      | Some e \<Rightarrow>
          if e_superseded_at e \<noteq> None then fail ''RHINOQ_EXECUTION_SUPERSEDED'' p_id
          else if e_version e \<noteq> p_expected_version
          then fail_version ''retryTaskExecution'' p_id p_expected_version (e_version e)
            (Some ''Execution'') (version_hint s e p_expected_version d)
          else if e_state e \<notin> {E_succeeded, E_failed, E_stalled, E_cancelled}
          then fail ''RHINOQ_INVALID_EXECUTION_TRANSITION'' (exec_state_name (e_state e) @ '' -> superseded'')
          else on_unique_violation (fail ''RHINOQ_EXECUTION_ALREADY_EXISTS'' p_new_id) (
            bind_res (update_execution s now p_id (superseded now) d) (\<lambda>d1.
            let v_attempt = max_attempt (item_attempts s (e_task_id e) (e_item_key e) d1) + 1 in
            bind_res (default_tenant s) (\<lambda>tenant.
            bind_res (insert_execution s now (new_execution now p_new_id (e_task_id e) tenant
                (e_item_key e) v_attempt (e_runtime e) (e_runtime_scope e) (e_external_id e)
                E_dispatched) d1)
              (\<lambda>d'. Inr (v_attempt, d')))))))"

definition effect_claimed :: "int \<Rightarrow> string \<Rightarrow> execution_row \<Rightarrow> execution_row" where
  "effect_claimed now k e = e\<lparr>e_effect_keys := e_effect_keys e @ [k],
    e_version := e_version e + 1, e_updated_at := now\<rparr>"

definition claim_item_effect :: "session \<Rightarrow> int \<Rightarrow> string \<Rightarrow> string \<Rightarrow> bool command" where
  "claim_item_effect s now p_execution_id p_effect_key d = (
    let v_effect_key = btrim p_effect_key in
    if btrim p_execution_id = '''' \<or> v_effect_key = '''' \<or> len v_effect_key > 256
    then fail ''RHINOQ_INVALID_ITEM_EFFECT'' ''''
    else (case select_execution s p_execution_id d of
        None \<Rightarrow> fail ''RHINOQ_EXECUTION_NOT_FOUND'' p_execution_id
      | Some e \<Rightarrow> (case select_task s (e_task_id e) d of
          None \<Rightarrow> fail ''RHINOQ_TASK_NOT_FOUND'' (e_task_id e)
        | Some t \<Rightarrow>
            let attempts = item_attempts s (e_task_id e) (e_item_key e) d in
            if list_ex (\<lambda>a. v_effect_key \<in> set (e_effect_keys a)) attempts then Inr (False, d)
            else (case latest_attempt (filter (\<lambda>a. e_superseded_at a = None) attempts) of
                None \<Rightarrow> fail ''RHINOQ_EXECUTION_NOT_FOUND'' p_execution_id
              | Some current \<Rightarrow>
                  bind_res (update_execution s now (e_id current) (effect_claimed now v_effect_key) d)
                    (\<lambda>d'. Inr (True, d'))))))"

section \<open>Every Execution command honours the contract\<close>

lemma select_executionD:
  assumes "select_execution s eid d = Some e"
  shows "e \<in> set (executions d)" "visible s (e_tenant_id e)" "e_id e = eid"
  using select_one_SomeD [OF assms [unfolded select_execution_def]] by simp_all

text \<open>An update of one visible attempt that keeps its identity and moves it forwards.\<close>

definition forward_update ::
  "session \<Rightarrow> int \<Rightarrow> execution_row \<Rightarrow> (execution_row \<Rightarrow> execution_row) \<Rightarrow> db \<Rightarrow> db \<Rightarrow> bool" where
  "forward_update s now e f d d' \<longleftrightarrow> update_execution s now (e_id e) f d = Inr d' \<and>
    e \<in> set (executions d) \<and> visible s (e_tenant_id e) \<and>
    (\<forall>x. e_task_id (f x) = e_task_id x \<and> e_tenant_id (f x) = e_tenant_id x) \<and> exec_evolves e (f e)"

lemma forward_updateD:
  assumes "forward_update s now e f d d'"
  shows "hidden_db s d' = hidden_db s d" and "core_ok d \<Longrightarrow> rest d' = rest d" and "core_ok d \<Longrightarrow> core_ok d'"
    and "core_ok d \<Longrightarrow> evolves_except {e_task_id e} d d'"
    and "core_ok d \<Longrightarrow> e_state (f e) \<noteq> e_state e \<or> exec_view (f e) = exec_view e \<Longrightarrow> evolves d d'"
proof -
  note F = assms [unfolded forward_update_def]
  have upd: "update_execution s now (e_id e) f d = Inr d'" and e: "e \<in> set (executions d)" "visible s (e_tenant_id e)"
    and keep: "\<And>x. e_task_id (f x) = e_task_id x" "\<And>x. e_tenant_id (f x) = e_tenant_id x"
    and ev: "exec_evolves e (f e)" using F by simp_all
  show "hidden_db s d' = hidden_db s d" by (rule isolated_update_execution [OF upd keep(2)])
  assume core_ok: "core_ok d"
  note D = update_executionD [OF upd core_ok e keep(1)]
  show "rest d' = rest d" by (rule D(3))
  show "core_ok d'" by (rule wf_upd_executions [OF core_ok e(1) D(1,2,4,5) keep])
  note E = evolves_upd_execution [OF core_ok e(1) D(1,2) keep(1) ev]
  show "evolves_except {e_task_id e} d d'" by (rule E(1))
  show "evolves d d'" if "e_state (f e) \<noteq> e_state e \<or> exec_view (f e) = exec_view e"
    using that by (rule E(2))
qed

text \<open>The parent of a visible attempt is visible, so an update of it by id takes effect.\<close>

lemma update_parentD:
  assumes upd: "update_task s (e_task_id e) f d = Inr d'" and core_ok: "core_ok d"
    and e: "e \<in> set (executions d)" "visible s (e_tenant_id e)"
  shows "tasks d' = upd_where (\<lambda>t. t_id t = e_task_id e) f (tasks d)"
  unfolding update_tasksD(1) [OF upd]
proof (rule upd_where_cong)
  fix t
  assume "t \<in> set (tasks d)"
  then show "(visible s (t_tenant_id t) \<and> t_id t = e_task_id e) = (t_id t = e_task_id e)"
    using task_of_key [OF wfD(1) [OF core_ok] parent_exists [OF core_ok e(1)]] e(2) by auto
qed simp

lemma forward_update_row:
  assumes "forward_update s now e f d d'" and "core_ok d"
  shows "f e \<in> set (executions d')" and "visible s (e_tenant_id (f e))" and "e_task_id (f e) = e_task_id e"
  using assms update_executionD(1) [of s now e f d d']
  by (auto simp: forward_update_def set_upd_where)

inductive exec_step :: "session \<Rightarrow> db \<Rightarrow> db \<Rightarrow> bool" for s where
  stay: "exec_step s d d"
| move: "forward_update s now e f d d' \<Longrightarrow> e_state (f e) \<noteq> e_state e \<or> exec_view (f e) = exec_view e \<Longrightarrow>
    exec_step s d d'"
| touch: "forward_update s now e f d d1 \<Longrightarrow>
    update_task s (e_task_id e) (touch_task now) d1 = Inr d' \<Longrightarrow> exec_step s d d'"
| create: "insert_execution s now e d = Inr d' \<Longrightarrow> exec_step s d d'"
| retry: "forward_update s now e f d d1 \<Longrightarrow> insert_execution s now e' d1 = Inr d' \<Longrightarrow>
    e_task_id e' = e_task_id e \<Longrightarrow> exec_step s d d'"

lemma touch_parent_ok:
  assumes f: "forward_update s now e f d d1"
    and upd: "update_task s (e_task_id e) (touch_task now) d1 = Inr d'" and core_ok: "core_ok d"
  shows "rest d' = rest d" and "core_ok d'" and "evolves d d'"
proof -
  note F = forward_updateD [OF f] and row = forward_update_row [OF f core_ok]
  note wf1 = F(3) [OF core_ok]
  have ts: "tasks d' = upd_where (\<lambda>t. t_id t = e_task_id e) (touch_task now) (tasks d1)"
    using update_parentD [of s "f e", OF _ wf1 row(1,2)] row(3) upd by simp
  note U = update_tasksD [OF upd]
  show "rest d' = rest d" using U(3) F(2) [OF core_ok] by simp
  show "core_ok d'" by (rule wf_upd_tasks [OF wf1 ts U(2) U(4) [OF wfD(1) [OF wf1]]]) simp_all
  show "evolves d d'"
    by (rule evolves_then_bump [OF F(4) [OF core_ok] ts evolves_upd_tasks [OF ts U(2)]]) simp_all
qed

lemma insert_execution_ok:
  assumes "insert_execution s now e d = Inr d'" and "core_ok d"
  shows "rest d' = rest d" and "core_ok d'" and "evolves d d'" and "evolves_except {e_task_id e} d d'"
  using insert_executionD [OF assms] wf_snoc_execution [OF assms(2)]
    evolves_snoc_execution [of d' d e now] by blast+

lemma exec_step_ok:
  assumes "exec_step s d d'"
  shows "hidden_db s d' = hidden_db s d" and "core_ok d \<Longrightarrow> rest d' = rest d"
    and "core_ok d \<Longrightarrow> core_ok d'" and "core_ok d \<Longrightarrow> evolves d d'"
  using assms
proof (induction)
  case (stay d)
  { case 1 show ?case by simp }
  { case 2 show ?case by simp }
  { case 3 then show ?case by simp }
  { case 4 show ?case by (rule evolves_refl) }
next
  case (move now e f d d')
  note F = forward_updateD [OF move(1)]
  { case 1 show ?case by (rule F(1)) }
  { case 2 then show ?case by (rule F(2)) }
  { case 3 then show ?case by (rule F(3)) }
  { case 4 then show ?case using move(2) by (rule F(5)) }
next
  case (touch now e f d d1 d')
  note T = touch_parent_ok [OF touch]
  { case 1 show ?case
      using isolated_update_tasks [OF touch(2)] forward_updateD(1) [OF touch(1)] by simp }
  { case 2 then show ?case by (rule T(1)) }
  { case 3 then show ?case by (rule T(2)) }
  { case 4 then show ?case by (rule T(3)) }
next
  case (create now e d d')
  { case 1 show ?case by (rule isolated_insert_execution [OF create]) }
  { case 2 show ?case by (rule insert_execution_ok(1) [OF create 2]) }
  { case 3 show ?case by (rule insert_execution_ok(2) [OF create 3]) }
  { case 4 show ?case by (rule insert_execution_ok(3) [OF create 4]) }
next
  case (retry now e f d d1 e' d')
  note F = forward_updateD [OF retry(1)]
  { case 1 show ?case using isolated_insert_execution [OF retry(2)] F(1) by simp }
  { case 2 show ?case using insert_execution_ok(1) [OF retry(2) F(3) [OF 2]] F(2) [OF 2] by simp }
  { case 3 show ?case by (rule insert_execution_ok(2) [OF retry(2) F(3) [OF 3]]) }
  { case 4
    note wf1 = F(3) [OF 4]
    have "tasks d' = upd_where (\<lambda>t. t_id t = e_task_id e) (counted now e') (tasks d1)"
      and "evolves_except {e_task_id e} d1 d'"
      using insert_executionD(2) [OF retry(2) wf1] insert_execution_ok(4) [OF retry(2) wf1] retry(3)
      by simp_all
    then show ?case by (rule evolves_then_bump [OF F(4) [OF 4]]) simp_all }
qed

lemma sound_exec:
  assumes "\<And>d x d'. c d = Inr (x, d') \<Longrightarrow> exec_step s d d'"
  shows "sound s c"
  by (rule soundI_core) (use assms exec_step_ok in blast)+

lemma forward_updateI:
  assumes "update_execution s now eid f d = Inr d'" and "select_execution s eid d = Some e"
    and "\<And>x. e_task_id (f x) = e_task_id x" and "\<And>x. e_tenant_id (f x) = e_tenant_id x"
    and "exec_evolves e (f e)"
  shows "forward_update s now e f d d'"
  using assms select_executionD [OF assms(2)] by (simp add: forward_update_def)

lemma create_execution_sound [cmd_inv]:
  "sound s (create_execution s now p_id p_task_id p_item_key p_runtime p_runtime_scope p_external_id)"
  by (rule sound_exec)
    (auto simp: create_execution_def Let_def split: if_splits option.splits
      dest!: on_unique_violation_InrD intro: exec_step.create)

lemma bind_execution_sound [cmd_inv]:
  "sound s (bind_execution s now p_id v p_runtime p_runtime_scope p_external_id)"
proof (rule sound_exec)
  fix d x d'
  let ?f = "\<lambda>e. e\<lparr>e_runtime_scope := btrim (coalesce p_runtime_scope ''''),
    e_external_id := Some (btrim p_external_id), e_state := E_dispatched,
    e_version := e_version e + 1, e_updated_at := now\<rparr>"
  assume "bind_execution s now p_id v p_runtime p_runtime_scope p_external_id d = Inr (x, d')"
  then obtain e where e: "select_execution s p_id d = Some e" "e_state e = E_pending_dispatch"
    and bound: "\<not> (case e_external_id e of None \<Rightarrow> False
      | Some x \<Rightarrow> x \<noteq> btrim p_external_id \<or> e_runtime_scope e \<noteq> btrim (coalesce p_runtime_scope ''''))"
    and upd: "update_execution s now p_id ?f d = Inr d'"
    unfolding bind_execution_def by (auto split: option.split_asm if_split_asm)
  have "exec_evolves e (?f e)"
    using bound e(2) by (auto simp: exec_evolves_def exec_terminal_def split: option.splits)
  then show "exec_step s d d'"
    by (intro exec_step.move [where f = ?f, OF forward_updateI [OF upd e(1)]]) (simp_all add: e(2))
qed

lemma exec_transitioned_ok:
  assumes "exec_transition_allowed e target"
  shows "exec_evolves e (exec_transitioned now target p_reason e)"
    and "e_state (exec_transitioned now target p_reason e) \<noteq> e_state e"
  using assms
  by (auto simp: exec_evolves_def exec_transitioned_def exec_transition_allowed_def exec_terminal_def)

lemma exec_transitioned_keep [simp]:
  "e_id (exec_transitioned now target p_reason e) = e_id e"
  "e_task_id (exec_transitioned now target p_reason e) = e_task_id e"
  "e_tenant_id (exec_transitioned now target p_reason e) = e_tenant_id e"
  "e_state (exec_transitioned now target p_reason e) = target"
  "e_version (exec_transitioned now target p_reason e) = e_version e + 1"
  by (simp_all add: exec_transitioned_def)

lemma transition_execution_sound [cmd_inv]:
  "sound s (transition_execution s now p_id v p_target p_reason)"
  by (rule sound_exec)
    (auto simp: transition_execution_def split: option.splits if_splits
      intro: exec_step.stay exec_step.move [OF forward_updateI] exec_transitioned_ok
      dest: exec_transitioned_ok(2))

lemma transition_execution_for_owner_sound [cmd_inv]:
  "sound s (transition_execution_for_owner s now p_id p_tenant_id p_owner_id v p_target p_reason)"
  by (rule sound_exec)
    (auto simp: transition_execution_for_owner_def split: option.splits if_splits
      intro: exec_step.stay exec_step.touch [OF forward_updateI] exec_transitioned_ok)

lemma attach_execution_result_sound [cmd_inv]:
  "sound s (attach_execution_result s now p_id v p_reference)"
  by (rule sound_exec)
    (auto simp: attach_execution_result_def Let_def split: option.splits if_splits
      intro!: exec_step.stay exec_step.touch [OF forward_updateI] simp: exec_evolves_def)

lemma superseded_keep [simp]:
  "e_id (superseded now e) = e_id e" "e_task_id (superseded now e) = e_task_id e"
  "e_tenant_id (superseded now e) = e_tenant_id e" "e_state (superseded now e) = e_state e"
  "e_version (superseded now e) = e_version e + 1"
  by (simp_all add: superseded_def)

lemma superseded_evolves: "e_superseded_at e = None \<Longrightarrow> exec_evolves e (superseded now e)"
  by (simp add: exec_evolves_def superseded_def)

lemma retry_execution_sound [cmd_inv]: "sound s (retry_execution s now p_id v p_new_id)"
  by (rule sound_exec)
    (auto simp: retry_execution_def Let_def new_execution_def split: option.splits if_splits
      dest!: on_unique_violation_InrD intro: exec_step.retry [OF forward_updateI] superseded_evolves)

lemma latest_attemptD: "latest_attempt rows = Some e \<Longrightarrow> e \<in> set rows"
  unfolding latest_attempt_def by (erule find_SomeE)

lemma effect_claimed_keep [simp]:
  "e_id (effect_claimed now k e) = e_id e" "e_task_id (effect_claimed now k e) = e_task_id e"
  "e_tenant_id (effect_claimed now k e) = e_tenant_id e" "e_state (effect_claimed now k e) = e_state e"
  "exec_evolves e (effect_claimed now k e)" "exec_view (effect_claimed now k e) = exec_view e"
  by (simp_all add: effect_claimed_def exec_evolves_def exec_view_def)

lemma claim_item_effect_sound [cmd_inv]:
  "sound s (claim_item_effect s now p_execution_id p_effect_key)"
proof (rule sound_exec)
  fix d x d'
  assume "claim_item_effect s now p_execution_id p_effect_key d = Inr (x, d')"
  then consider "d' = d" | e :: execution_row and c where
      "latest_attempt (filter (\<lambda>a. e_superseded_at a = None) (item_attempts s (e_task_id e) (e_item_key e) d)) = Some c"
      "update_execution s now (e_id c) (effect_claimed now (btrim p_effect_key)) d = Inr d'"
    by (auto simp: claim_item_effect_def Let_def split: option.splits if_splits)
  then show "exec_step s d d'"
  proof cases
    case (2 e c)
    have "c \<in> set (executions d)" "visible s (e_tenant_id c)"
      using latest_attemptD [OF 2(1)] by (auto simp: item_attempts_def)
    then have "forward_update s now c (effect_claimed now (btrim p_effect_key)) d d'"
      using 2(2) by (simp add: forward_update_def)
    then show ?thesis by (rule exec_step.move) simp
  qed (simp add: exec_step.stay)
qed

section \<open>What a granted effect did\<close>

lemma claim_item_effect_granted:
  assumes "claim_item_effect s now eid k d = Inr (True, d1)" and "select_execution s eid d = Some e"
  obtains c where "c \<in> set (item_attempts s (e_task_id e) (e_item_key e) d)"
    and "update_execution s now (e_id c) (effect_claimed now (btrim k)) d = Inr d1"
    and "btrim k \<noteq> ''''" and "len (btrim k) \<le> 256"
proof -
  obtain c where c: "latest_attempt (filter (\<lambda>a. e_superseded_at a = None)
      (item_attempts s (e_task_id e) (e_item_key e) d)) = Some c"
    and "update_execution s now (e_id c) (effect_claimed now (btrim k)) d = Inr d1"
    and "btrim k \<noteq> ''''" "\<not> len (btrim k) > 256"
    using assms by (auto simp: claim_item_effect_def Let_def split: if_split_asm option.split_asm)
  then show thesis using that [of c] by (auto simp: latest_attempt_def find_Some_iff in_set_conv_nth dest!: nth_mem)
qed

end
