(* ===== verification/Waitpoints.thy ===== *)
theory Waitpoints
  imports Execution_Commands "HOL-Library.List_Lexorder" "HOL-Library.Char_ord" "HOL-Library.Product_Lexorder"
begin

text \<open>
  Durable waitpoints, migrations 008 and 013: a point at which a Task waits for an input, an
  approval or a webhook, resolved once by its owner or expired at its deadline.
\<close>

section \<open>Commands\<close>

definition new_waitpoint ::
  "int \<Rightarrow> string \<Rightarrow> string \<Rightarrow> string \<Rightarrow> string \<Rightarrow> string \<Rightarrow> int \<Rightarrow> int option \<Rightarrow> waitpoint_row" where
  "new_waitpoint now wid tid tenant key kind pv deadline = \<lparr>w_id = wid, w_task_id = tid,
    w_tenant_id = tenant, w_key = key, w_kind = kind, w_payload_version = pv, w_state = W_waiting,
    w_deadline = deadline, w_resolution = None, w_resolution_hash = None, w_resolution_id = None,
    w_resolved_by = None, w_resolved_at = None, w_version = 1, w_created_at = now,
    w_updated_at = now\<rparr>"

definition create_waitpoint ::
  "session \<Rightarrow> int \<Rightarrow> string \<Rightarrow> string \<Rightarrow> string \<Rightarrow> string \<Rightarrow> int \<Rightarrow> int option \<Rightarrow> bool command" where
  "create_waitpoint s now p_id p_task_id p_key p_kind p_payload_version p_deadline d =
    bind_res (default_tenant s) (\<lambda>tenant.
    bind_res (insert_row_or_nothing s waitpoint_table
        (new_waitpoint now p_id p_task_id tenant p_key p_kind p_payload_version p_deadline)
        (waitpoints d)) (\<lambda>(found, rows).
      if found then
        (if \<not> task_key_exists p_task_id tenant d then Inl foreign_key_violation
         else bind_res (update_task s p_task_id (touch_task now) (d\<lparr>waitpoints := rows\<rparr>))
           (\<lambda>d'. Inr (False, d')))
      else (case select_one s waitpoint_table (\<lambda>w. w_task_id w = p_task_id \<and> w_key w = p_key) (waitpoints d) of
          None \<Rightarrow> fail ''RHINOQ_WAITPOINT_CONFLICT'' p_id
        | Some v \<Rightarrow>
            if w_id v \<noteq> p_id \<or> w_kind v \<noteq> p_kind \<or> w_payload_version v \<noteq> p_payload_version \<or>
              w_deadline v \<noteq> p_deadline
            then fail ''RHINOQ_WAITPOINT_CONFLICT'' p_id
            else Inr (True, d))))"

definition waitpoint_resolved ::
  "int \<Rightarrow> string \<Rightarrow> string \<Rightarrow> string \<Rightarrow> string \<Rightarrow> waitpoint_row \<Rightarrow> waitpoint_row" where
  "waitpoint_resolved now rid actor res hash w = w\<lparr>w_state := W_resolved, w_resolution := Some res,
    w_resolution_hash := Some hash, w_resolution_id := Some rid, w_resolved_by := Some actor,
    w_resolved_at := Some now, w_version := w_version w + 1, w_updated_at := now\<rparr>"

definition resolve_waitpoint ::
  "session \<Rightarrow> int \<Rightarrow> string \<Rightarrow> string \<Rightarrow> string \<Rightarrow> int \<Rightarrow> string \<Rightarrow> string \<Rightarrow> string \<Rightarrow> string \<Rightarrow> unit command" where
  "resolve_waitpoint s now p_id p_tenant_id p_owner_id p_expected_version p_resolution_id p_actor
      p_resolution p_resolution_hash d = (
    if btrim p_tenant_id = '''' then fail ''RHINOQ_INVALID_TENANT'' p_id
    else (case select_one s waitpoint_table (\<lambda>w. w_id w = p_id \<and>
          owned_task s (w_task_id w) p_tenant_id p_owner_id d \<noteq> None) (waitpoints d) of
        None \<Rightarrow> fail ''RHINOQ_WAITPOINT_NOT_FOUND'' p_id
      | Some v \<Rightarrow>
          if w_state v = W_resolved then
            (if w_resolution_id v = Some p_resolution_id \<and> w_resolution_hash v = Some p_resolution_hash \<and>
                w_resolution v = Some p_resolution
             then Inr ((), d)
             else fail ''RHINOQ_WAITPOINT_CONFLICT'' p_id)
          else if w_version v \<noteq> p_expected_version then fail ''RHINOQ_VERSION_CONFLICT'' p_id
          else if w_state v \<noteq> W_waiting \<or>
            (case w_deadline v of None \<Rightarrow> False | Some deadline \<Rightarrow> now \<ge> deadline)
          then fail ''RHINOQ_WAITPOINT_SETTLED'' p_id
          else bind_res (update_rows s waitpoint_table (\<lambda>w. w_id w = p_id)
              (waitpoint_resolved now p_resolution_id p_actor p_resolution p_resolution_hash)
              (waitpoints d)) (\<lambda>rows.
            bind_res (update_task s (w_task_id v) (touch_task now) (d\<lparr>waitpoints := rows\<rparr>))
              (\<lambda>d'. Inr ((), d')))))"

text \<open>The seven-argument form of migration 008, closed by migration 013.\<close>

definition resolve_waitpoint_v8 ::
  "session \<Rightarrow> int \<Rightarrow> string \<Rightarrow> string \<Rightarrow> int \<Rightarrow> string \<Rightarrow> string \<Rightarrow> string \<Rightarrow> string \<Rightarrow> unit command" where
  "resolve_waitpoint_v8 s now p_id p_owner_id p_expected_version p_resolution_id p_actor p_resolution
      p_resolution_hash d = fail ''RHINOQ_TENANT_REQUIRED'' p_id"

definition waitpoint_expired :: "int \<Rightarrow> waitpoint_row \<Rightarrow> waitpoint_row" where
  "waitpoint_expired now w = w\<lparr>w_state := W_expired, w_version := w_version w + 1, w_updated_at := now\<rparr>"

definition waitpoint_due :: "int \<Rightarrow> waitpoint_row \<Rightarrow> bool" where
  "waitpoint_due now w \<longleftrightarrow> w_state w = W_waiting \<and>
    (case w_deadline w of None \<Rightarrow> False | Some deadline \<Rightarrow> deadline \<le> now)"

text \<open>\<open>ORDER BY deadline, id LIMIT p_limit\<close>, with the byte order of text.\<close>

definition due_waitpoints :: "session \<Rightarrow> int \<Rightarrow> int \<Rightarrow> db \<Rightarrow> waitpoint_row list" where
  "due_waitpoints s now p_limit d = take (nat p_limit)
    (sort_key (\<lambda>w. (coalesce (w_deadline w) 0, w_id w))
      (select_rows s waitpoint_table (waitpoint_due now) (waitpoints d)))"

fun expire_loop :: "session \<Rightarrow> int \<Rightarrow> waitpoint_row list \<Rightarrow> int \<Rightarrow> int command" where
  "expire_loop s now [] v_count d = Inr (v_count, d)"
| "expire_loop s now (v # vs) v_count d =
    bind_res (update_rows s waitpoint_table (\<lambda>w. w_id w = w_id v) (waitpoint_expired now) (waitpoints d)) (\<lambda>rows.
    bind_res (update_task s (w_task_id v) (touch_task now) (d\<lparr>waitpoints := rows\<rparr>)) (\<lambda>d'.
    expire_loop s now vs (v_count + 1) d'))"

definition expire_waitpoints :: "session \<Rightarrow> int \<Rightarrow> int \<Rightarrow> int command" where
  "expire_waitpoints s now p_limit d = (
    if p_limit < 1 \<or> p_limit > 500 then fail ''RHINOQ_INVALID_REQUEST'' ''limit''
    else expire_loop s now (due_waitpoints s now p_limit d) 0 d)"

section \<open>Contract\<close>

lemma good_waitpoints:
  assumes "table_ok waitpoint_table (waitpoints d) \<Longrightarrow> table_ok waitpoint_table rows"
    and "waitpoints_ok d \<Longrightarrow> list_all (\<lambda>w. (w_task_id w, w_tenant_id w) \<in> set (task_keys d)) rows"
    and "waitpoints_ok d \<Longrightarrow> rows_evolve waitpoint_evolves (waitpoints d) rows"
    and "hidden s waitpoint_table rows = hidden s waitpoint_table (waitpoints d)"
  shows "good s d (d\<lparr>waitpoints := rows\<rparr>)"
proof (rule good_child)
  let ?d = "d\<lparr>waitpoints := rows\<rparr>"
  show "waitpoints_ok ?d \<and> evidence_ok ?d \<and> outbox_ok ?d \<and> checkpoints_ok ?d \<and> steps_ok ?d \<and> leases_ok ?d"
    if "inv d" using inv_parts [OF that] assms(1,2) by (simp add: waitpoints_ok_def)
  show "children_evolve d ?d" if "inv d"
    using inv_parts(2) [OF that] assms(3) by (simp add: children_evolve_def rows_evolve_refl)
  show "hidden_db s ?d = hidden_db s d" using assms(4) by (simp add: hidden_db_def)
qed simp_all

lemma good_update_waitpoint:
  assumes upd: "update_rows s waitpoint_table (\<lambda>w. w_id w = w_id v) f (waitpoints d) = Inr rows"
    and v: "v \<in> set (waitpoints d)" "waitpoint_evolves v (f v)"
    and keep: "\<And>w. w_tenant_id (f w) = w_tenant_id w" "\<And>w. w_task_id (f w) = w_task_id w"
  shows "good s d (d\<lparr>waitpoints := rows\<rparr>)"
proof (rule good_waitpoints)
  note R = update_rows_ok [OF upd]
  show "table_ok waitpoint_table rows" if "table_ok waitpoint_table (waitpoints d)" by (rule R(2) [OF that])
  show "hidden s waitpoint_table rows = hidden s waitpoint_table (waitpoints d)"
    by (rule hidden_update_rows [OF upd]) (simp add: keep)
  assume ok: "waitpoints_ok d"
  then show "list_all (\<lambda>w. (w_task_id w, w_tenant_id w) \<in> set (task_keys d)) rows"
    by (auto simp: R(1) waitpoints_ok_def list_all_iff keep elim!: in_upd_whereE)
  show "rows_evolve waitpoint_evolves (waitpoints d) rows"
    unfolding R(1)
  proof (rule rows_evolve_upd_where)
    fix w
    assume "w \<in> set (waitpoints d)" and "visible s (tb_tenant waitpoint_table w) \<and> w_id w = w_id v"
    then show "waitpoint_evolves w (f w)"
      using waitpoint_key.key_inj [of "waitpoints d" w v] ok v by (simp add: waitpoints_ok_def)
  qed simp
qed

lemma create_waitpoint_sound [cmd_inv]:
  "sound s (create_waitpoint s now p_id p_task_id p_key p_kind pv p_deadline)"
proof (rule soundI)
  fix d x d'
  assume c: "create_waitpoint s now p_id p_task_id p_key p_kind pv p_deadline d = Inr (x, d')"
  show "good s d d'"
  proof (cases "d' = d")
    case False
    then obtain tenant rows where
      ins: "insert_row_or_nothing s waitpoint_table
        (new_waitpoint now p_id p_task_id tenant p_key p_kind pv p_deadline) (waitpoints d) = Inr (True, rows)"
      and key: "task_key_exists p_task_id tenant d"
      and upd: "update_task s p_task_id (touch_task now) (d\<lparr>waitpoints := rows\<rparr>) = Inr d'"
      using c by (auto simp: create_waitpoint_def split: if_splits option.splits)
    note I = insert_row_or_nothing_ok [OF ins]
    have "good s d (d\<lparr>waitpoints := rows\<rparr>)"
      by (rule good_waitpoints)
        (use I key in \<open>auto simp: new_waitpoint_def task_key_exists_keys waitpoints_ok_def rows_evolve_snoc\<close>)
    then show ?thesis using good_touch [OF upd] by (rule good_trans)
  qed simp
qed

lemma resolve_waitpoint_sound [cmd_inv]:
  "sound s (resolve_waitpoint s now p_id p_tenant_id p_owner_id v p_rid p_actor p_res p_hash)"
proof (rule soundI)
  fix d x d'
  assume c: "resolve_waitpoint s now p_id p_tenant_id p_owner_id v p_rid p_actor p_res p_hash d = Inr (x, d')"
  show "good s d d'"
  proof (cases "d' = d")
    case False
    then obtain w rows where
      w: "select_one s waitpoint_table (\<lambda>w. w_id w = p_id \<and>
          owned_task s (w_task_id w) p_tenant_id p_owner_id d \<noteq> None) (waitpoints d) = Some w"
      and st: "w_state w = W_waiting"
      and rows: "update_rows s waitpoint_table (\<lambda>w. w_id w = p_id)
          (waitpoint_resolved now p_rid p_actor p_res p_hash) (waitpoints d) = Inr rows"
      and upd: "update_task s (w_task_id w) (touch_task now) (d\<lparr>waitpoints := rows\<rparr>) = Inr d'"
      using c unfolding resolve_waitpoint_def by (auto split: if_split_asm option.split_asm)
    note W = select_one_SomeD [OF w]
    have "w_id w = p_id" using W by simp
    note rows' = rows [folded this]
    have "good s d (d\<lparr>waitpoints := rows\<rparr>)"
      by (rule good_update_waitpoint [OF rows'])
        (use W st in \<open>auto simp: waitpoint_resolved_def waitpoint_evolves_def\<close>)
    then show ?thesis using good_touch [OF upd] by (rule good_trans)
  qed simp
qed

text \<open>The rows still to be expired are waiting rows of the table.\<close>

lemma expire_loop_good:
  assumes "expire_loop s now vs n d = Inr (m, d')" and "distinct (map w_id vs)"
    and "\<And>v. v \<in> set vs \<Longrightarrow> v \<in> set (waitpoints d) \<and> w_state v = W_waiting"
  shows "good s d d'"
  using assms
proof (induction vs arbitrary: n d)
  case Nil
  then show ?case by simp
next
  case (Cons v vs)
  obtain rows d1 where
    rows: "update_rows s waitpoint_table (\<lambda>w. w_id w = w_id v) (waitpoint_expired now) (waitpoints d) = Inr rows"
    and upd: "update_task s (w_task_id v) (touch_task now) (d\<lparr>waitpoints := rows\<rparr>) = Inr d1"
    and loop: "expire_loop s now vs (n + 1) d1 = Inr (m, d')"
    using Cons.prems(1) by auto
  have g: "good s d (d\<lparr>waitpoints := rows\<rparr>)"
    by (rule good_update_waitpoint [OF rows])
      (use Cons.prems(3) [of v] in \<open>auto simp: waitpoint_expired_def waitpoint_evolves_def\<close>)
  have rest: "waitpoints d1 = rows" using rest_fields(1) [OF update_tasksD(3) [OF upd]] by simp
  have "good s d1 d'"
  proof (rule Cons.IH [OF loop])
    show "distinct (map w_id vs)" using Cons.prems(2) by simp
    fix u
    assume u: "u \<in> set vs"
    then have "w_id u \<noteq> w_id v" using distinct_map_ConsD [OF Cons.prems(2)] by blast
    then show "u \<in> set (waitpoints d1) \<and> w_state u = W_waiting"
      using Cons.prems(3) [of u] u by (auto simp: rest update_rows_ok(1) [OF rows] set_upd_where)
  qed
  then show ?case by (rule good_trans [OF good_trans [OF g good_touch [OF upd]]])
qed

lemma due_waitpointsD:
  assumes "v \<in> set (due_waitpoints s now p_limit d)"
  shows "v \<in> set (waitpoints d)" "visible s (w_tenant_id v)" "waitpoint_due now v"
  using in_set_takeD [OF assms [unfolded due_waitpoints_def]] by simp_all

lemma distinct_due_waitpoints:
  assumes "table_ok waitpoint_table (waitpoints d)"
  shows "distinct (map w_id (due_waitpoints s now p_limit d))"
proof -
  have "distinct (map w_id (filter p (waitpoints d)))" for p
    using waitpoint_key.distinct_keys [OF assms] by (simp add: distinct_map_filter)
  then have "distinct (map w_id (sort_key f (filter p (waitpoints d))))" for p and f :: "waitpoint_row \<Rightarrow> int \<times> string"
    by (auto simp: distinct_map)
  then show ?thesis
    unfolding due_waitpoints_def select_rows_def by (simp add: take_map [symmetric] distinct_take)
qed

lemma expire_waitpoints_sound [cmd_inv]: "sound s (expire_waitpoints s now p_limit)"
proof (rule soundI)
  fix d x d'
  assume "expire_waitpoints s now p_limit d = Inr (x, d')"
  then have loop: "expire_loop s now (due_waitpoints s now p_limit d) 0 d = Inr (x, d')"
    by (auto simp: expire_waitpoints_def split: if_splits)
  show "good s d d'"
  proof (cases "inv d")
    case True
    then have "table_ok waitpoint_table (waitpoints d)" using inv_parts(2) by (auto simp: waitpoints_ok_def)
    then show ?thesis
      by (intro expire_loop_good [OF loop] distinct_due_waitpoints)
        (auto dest: due_waitpointsD simp: waitpoint_due_def)
  qed (simp add: good_def fair_def)
qed

section \<open>Expiry drains\<close>

lemma touch_total:
  assumes "table_ok task_table (tasks d)"
  shows "\<exists>d'. update_task s tid (touch_task now) d = Inr d'"
proof -
  have "list_all (\<lambda>u. visible s (t_tenant_id u) \<and> t_id u = tid \<longrightarrow> task_check (touch_task now u)) (tasks d)"
    using assms by (auto simp: table_ok_def list_all_iff tables task_check_def touch_task_def split: option.splits)
  moreover have "unique_by (tb_conflict task_table) (upd_where (\<lambda>u. visible s (t_tenant_id u) \<and> t_id u = tid) (touch_task now) (tasks d))"
    by (rule unique_by_upd_where) (use assms in \<open>auto simp: table_ok_def tables touch_task_def split: if_splits\<close>)
  ultimately show ?thesis by (simp add: update_tasks_def update_rows_def tables)
qed

lemma expire_one_total:
  assumes i: "inv d" and v: "v \<in> set (waitpoints d)" "visible s (w_tenant_id v)" "w_state v = W_waiting"
  obtains rows d1 where
    "update_rows s waitpoint_table (\<lambda>w. w_id w = w_id v) (waitpoint_expired now) (waitpoints d) = Inr rows"
    and "update_task s (w_task_id v) (touch_task now) (d\<lparr>waitpoints := rows\<rparr>) = Inr d1"
    and "waitpoints d1 = upd_where (\<lambda>w. w_id w = w_id v) (waitpoint_expired now) (waitpoints d)" and "inv d1"
    and "tasks d1 = upd_where (\<lambda>t. t_id t = w_task_id v) (touch_task now) (tasks d)"
proof -
  have ok: "table_ok waitpoint_table (waitpoints d)" and parent: "task_key_exists (w_task_id v) (w_tenant_id v) d"
    using inv_parts(2) [OF i] v(1) by (simp_all add: waitpoints_ok_def list_all_iff task_key_exists_iff task_keys_def)
  let ?q = "\<lambda>w. visible s (w_tenant_id w) \<and> w_id w = w_id v"
  have one: "w = v" if "w \<in> set (waitpoints d)" "w_id w = w_id v" for w
    by (rule waitpoint_key.key_inj [OF ok that(1) v(1) that(2)])
  have "waitpoint_check v" using ok v(1) by (auto simp: table_ok_def list_all_iff tables)
  then have "waitpoint_check (waitpoint_expired now v)"
    using v(3) by (cases "w_deadline v") (simp_all add: waitpoint_check_def waitpoint_expired_def)
  then have "list_all (\<lambda>w. ?q w \<longrightarrow> waitpoint_check (waitpoint_expired now w)) (waitpoints d)"
    using one by (auto simp: list_all_iff)
  moreover have "unique_by (tb_conflict waitpoint_table) (upd_where ?q (waitpoint_expired now) (waitpoints d))"
    by (rule unique_by_upd_where)
      (use ok in \<open>auto simp: table_ok_def tables waitpoint_conflict_def waitpoint_expired_def split: if_splits\<close>)
  ultimately obtain rows where
    rows: "update_rows s waitpoint_table (\<lambda>w. w_id w = w_id v) (waitpoint_expired now) (waitpoints d) = Inr rows"
    by (simp add: update_rows_def tables)
  have "table_ok task_table (tasks (d\<lparr>waitpoints := rows\<rparr>))" using wfD(1) [OF inv_parts(1) [OF i]] by simp
  then obtain d1 where d1: "update_task s (w_task_id v) (touch_task now) (d\<lparr>waitpoints := rows\<rparr>) = Inr d1"
    using touch_total by blast
  have "rows = upd_where (\<lambda>w. w_id w = w_id v) (waitpoint_expired now) (waitpoints d)"
    using waitpoint_key.update_by_key [OF rows ok v(1)] v(2) by simp
  moreover have "waitpoints d1 = rows" using rest_fields(1) [OF update_tasksD(3) [OF d1]] by simp
  moreover have "good s d (d\<lparr>waitpoints := rows\<rparr>)"
    by (rule good_update_waitpoint [OF rows v(1)]) (use v(3) in \<open>auto simp: waitpoint_expired_def waitpoint_evolves_def\<close>)
  then have "inv d1" using fairD(1) [OF good_fair [OF good_trans [OF _ good_touch [OF d1]]] i] by blast
  moreover have "tasks d1 = upd_where (\<lambda>t. t_id t = w_task_id v) (touch_task now) (tasks d)"
    unfolding update_tasksD(1) [OF d1] upd_where_def
    using task_of_key [OF wfD(1) [OF inv_parts(1) [OF i]] parent] v(2) by auto
  ultimately show thesis using that rows d1 by blast
qed

lemma expire_loop_total:
  assumes "inv d" and "distinct (map w_id vs)"
    and "\<And>v. v \<in> set vs \<Longrightarrow> v \<in> set (waitpoints d) \<and> visible s (w_tenant_id v) \<and> w_state v = W_waiting"
  shows "\<exists>d'. expire_loop s now vs n d = Inr (n + len vs, d') \<and>
    waitpoints d' = upd_where (\<lambda>w. w_id w \<in> w_id ` set vs) (waitpoint_expired now) (waitpoints d) \<and>
    tasks d' = map (\<lambda>t. (touch_task now ^^ length (filter (\<lambda>w. w_task_id w = t_id t) vs)) t) (tasks d)"
  using assms
proof (induction vs arbitrary: n d)
  case Nil
  then show ?case by (simp add: len_def upd_where_none)
next
  case (Cons v vs)
  have v: "v \<in> set (waitpoints d)" "visible s (w_tenant_id v)" "w_state v = W_waiting" using Cons.prems(3) [of v] by simp_all
  obtain rows d1 where
    rows: "update_rows s waitpoint_table (\<lambda>w. w_id w = w_id v) (waitpoint_expired now) (waitpoints d) = Inr rows"
    and d1: "update_task s (w_task_id v) (touch_task now) (d\<lparr>waitpoints := rows\<rparr>) = Inr d1"
    and w1: "waitpoints d1 = upd_where (\<lambda>w. w_id w = w_id v) (waitpoint_expired now) (waitpoints d)" and i1: "inv d1"
    and t1: "tasks d1 = upd_where (\<lambda>t. t_id t = w_task_id v) (touch_task now) (tasks d)"
    by (rule expire_one_total [OF Cons.prems(1) v])
  have ne: "w_id u \<noteq> w_id v" if "u \<in> set vs" for u using distinct_map_ConsD [OF Cons.prems(2) that] .
  have "u \<in> set (waitpoints d1) \<and> visible s (w_tenant_id u) \<and> w_state u = W_waiting" if "u \<in> set vs" for u
    using Cons.prems(3) [of u] that ne [OF that] by (auto simp: w1 set_upd_where)
  then obtain d' where d': "expire_loop s now vs (n + 1) d1 = Inr (n + 1 + len vs, d')"
    "waitpoints d' = upd_where (\<lambda>w. w_id w \<in> w_id ` set vs) (waitpoint_expired now) (waitpoints d1)"
    "tasks d' = map (\<lambda>t. (touch_task now ^^ length (filter (\<lambda>w. w_task_id w = t_id t) vs)) t) (tasks d1)"
    using Cons.IH [OF i1, of "n + 1"] Cons.prems(2) by auto
  have "tasks d' = map (\<lambda>t. (touch_task now ^^ length (filter (\<lambda>w. w_task_id w = t_id t) (v # vs))) t) (tasks d)"
    unfolding d'(3) t1 upd_where_def map_map by (rule map_cong [OF refl]) (auto simp: funpow_swap1 touch_task_def)
  moreover
  have "waitpoints d' = upd_where (\<lambda>w. w_id w \<in> w_id ` set (v # vs)) (waitpoint_expired now) (waitpoints d)"
  proof -
    have nv: "w_id v \<notin> w_id ` set vs" using ne by (metis imageE)
    have id: "w_id (waitpoint_expired now w) = w_id w" for w by (simp add: waitpoint_expired_def)
    show ?thesis unfolding d'(2) w1 upd_where_def map_map
      by (rule map_cong [OF refl]) (use nv in \<open>simp add: id del: set_map\<close>)
  qed
  ultimately show ?case using rows d1 d'(1) by (simp add: bind_res_def len_def)
qed

lemma filter_not_taken:
  assumes "distinct (map k xs)"
  shows "filter (\<lambda>x. k x \<notin> k ` set (take n xs)) xs = drop n xs"
proof -
  have "k x \<notin> k ` set (take n xs)" if "x \<in> set (drop n xs)" for x
  proof
    assume "k x \<in> k ` set (take n xs)"
    moreover have "k x \<in> set (map k (drop n xs))" using that by simp
    ultimately show False
      using assms distinct_append [of "map k (take n xs)" "map k (drop n xs)"] by (metis append_take_drop_id disjoint_iff map_append set_map)
  qed
  then have "filter (\<lambda>x. k x \<notin> k ` set (take n xs)) (drop n xs) = drop n xs" by (rule filter_True [rule_format])
  moreover have "filter (\<lambda>x. k x \<notin> k ` set (take n xs)) (take n xs) = []" by (simp add: filter_empty_conv)
  ultimately have "filter (\<lambda>x. k x \<notin> k ` set (take n xs)) (take n xs @ drop n xs) = drop n xs"
    unfolding filter_append by simp
  then show ?thesis unfolding append_take_drop_id .
qed

end
