(* ===== verification/Evidence.thy ===== *)
theory Evidence
  imports Waitpoints
begin

text \<open>
  Verifications and artifacts of a Task (migration 009 with the guards of 014), and the retention
  sweep's three statements on artifacts (\<open>PostgresArtifactRetentionStore\<close> of
  \<open>tasks/artifact-upload.ts\<close>).
\<close>

section \<open>Verifications\<close>

definition new_verification ::
  "int \<Rightarrow> string \<Rightarrow> string \<Rightarrow> string \<Rightarrow> string \<Rightarrow> string \<Rightarrow> string option \<Rightarrow> string option \<Rightarrow>
    string option \<Rightarrow> string option \<Rightarrow> string option \<Rightarrow> int option \<Rightarrow> string option \<Rightarrow> int \<Rightarrow>
    verification_row" where
  "new_verification now vid tid tenant verifier status summ evid rule sty sid inv_version link at =
    \<lparr>v_id = vid, v_task_id = tid, v_tenant_id = tenant, v_verifier = verifier, v_status = status,
      v_summary = summ, v_evidence = evid, v_finding_rule_id = rule, v_finding_subject_type = sty,
      v_finding_subject_id = sid, v_finding_invariant_version = inv_version,
      v_finding_deep_link = link, v_verified_at = at, v_created_at = now\<rparr>"

definition record_verification ::
  "session \<Rightarrow> int \<Rightarrow> string \<Rightarrow> string \<Rightarrow> string \<Rightarrow> string \<Rightarrow> string option \<Rightarrow> string option \<Rightarrow>
    string option \<Rightarrow> string option \<Rightarrow> string option \<Rightarrow> int option \<Rightarrow> string option \<Rightarrow> int \<Rightarrow> bool command" where
  "record_verification s now p_id p_task_id p_verifier p_status p_summary p_evidence p_finding_rule_id
      p_finding_subject_type p_finding_subject_id p_finding_invariant_version p_finding_deep_link
      p_verified_at d =
    bind_res (default_tenant s) (\<lambda>tenant.
    bind_res (insert_row_or_nothing s verification_table (new_verification now p_id p_task_id tenant p_verifier p_status p_summary p_evidence
        p_finding_rule_id p_finding_subject_type p_finding_subject_id p_finding_invariant_version
        p_finding_deep_link p_verified_at) (verifications d)) (\<lambda>(found, rows).
      if found then
        (if \<not> task_key_exists p_task_id tenant d then Inl foreign_key_violation
         else bind_res (update_task s p_task_id (touch_task now) (d\<lparr>verifications := rows\<rparr>))
           (\<lambda>d'. Inr (False, d')))
      else (case select_one s verification_table (\<lambda>v. v_id v = p_id) (verifications d) of
          None \<Rightarrow>
            if p_summary \<noteq> None \<or> p_evidence \<noteq> None \<or> p_finding_rule_id \<noteq> None \<or>
              p_finding_subject_type \<noteq> None \<or> p_finding_subject_id \<noteq> None \<or>
              p_finding_invariant_version \<noteq> None \<or> p_finding_deep_link \<noteq> None
            then fail ''RHINOQ_VERIFICATION_CONFLICT'' p_id else Inr (True, d)
        | Some v \<Rightarrow>
            if v_task_id v \<noteq> p_task_id \<or> v_verifier v \<noteq> p_verifier \<or> v_status v \<noteq> p_status \<or>
              v_summary v \<noteq> p_summary \<or> v_evidence v \<noteq> p_evidence \<or>
              v_finding_rule_id v \<noteq> p_finding_rule_id \<or>
              v_finding_subject_type v \<noteq> p_finding_subject_type \<or>
              v_finding_subject_id v \<noteq> p_finding_subject_id \<or>
              v_finding_invariant_version v \<noteq> p_finding_invariant_version \<or>
              v_finding_deep_link v \<noteq> p_finding_deep_link \<or> v_verified_at v \<noteq> p_verified_at
            then fail ''RHINOQ_VERIFICATION_CONFLICT'' p_id else Inr (True, d))))"

section \<open>Artifacts\<close>

text \<open>The trigger \<open>ensure_artifact_execution_tenant\<close>, which runs before the row is written.\<close>

definition ensure_artifact_execution_tenant ::
  "session \<Rightarrow> string option \<Rightarrow> string \<Rightarrow> string option \<Rightarrow> db \<Rightarrow> unit res" where
  "ensure_artifact_execution_tenant s execution_id task_id tenant d = (case execution_id of
      None \<Rightarrow> Inr ()
    | Some eid \<Rightarrow>
        if select_one s execution_table (\<lambda>e. e_id e = eid \<and> e_task_id e = task_id \<and>
          tenant = Some (e_tenant_id e)) (executions d) = None
        then Inl (Rhinoq ''RHINOQ_ARTIFACT_EXECUTION_TENANT_CONFLICT'' None)
        else Inr ())"

definition new_artifact ::
  "int \<Rightarrow> string \<Rightarrow> string \<Rightarrow> string \<Rightarrow> string option \<Rightarrow> string \<Rightarrow> string \<Rightarrow> int \<Rightarrow> string \<Rightarrow> string \<Rightarrow>
    int \<Rightarrow> string \<Rightarrow> artifact_row" where
  "new_artifact now aid tid tenant eid nm ctype sz checksum ref expires lineage =
    \<lparr>a_id = aid, a_task_id = tid, a_tenant_id = tenant, a_execution_id = eid, a_name = nm,
      a_content_type = ctype, a_size_bytes = sz, a_checksum_sha256 = checksum, a_reference = ref,
      a_expires_at = expires, a_lineage = lineage, a_cleanup_state = Cl_active,
      a_cleanup_owner = None, a_cleanup_lease_until = None, a_version = 1, a_created_at = now,
      a_updated_at = now\<rparr>"

definition register_artifact ::
  "session \<Rightarrow> int \<Rightarrow> string \<Rightarrow> string \<Rightarrow> string option \<Rightarrow> string \<Rightarrow> string \<Rightarrow> int \<Rightarrow> string \<Rightarrow> string \<Rightarrow>
    int \<Rightarrow> string \<Rightarrow> bool command" where
  "register_artifact s now p_id p_task_id p_execution_id p_name p_content_type p_size_bytes p_checksum
      p_reference p_expires_at p_lineage d = (
    if (case p_execution_id of None \<Rightarrow> False | Some eid \<Rightarrow>
        select_one s execution_table (\<lambda>e. e_id e = eid \<and> e_task_id e = p_task_id) (executions d) = None)
    then fail ''RHINOQ_ARTIFACT_EXECUTION_MISMATCH'' (coalesce p_execution_id '''')
    else
      bind_res (ensure_artifact_execution_tenant s p_execution_id p_task_id (current_tenant s) d) (\<lambda>_.
      bind_res (default_tenant s) (\<lambda>tenant.
      bind_res (insert_row_or_nothing s artifact_table (new_artifact now p_id p_task_id tenant p_execution_id p_name
          p_content_type p_size_bytes p_checksum p_reference p_expires_at p_lineage)
          (artifacts d)) (\<lambda>(found, rows).
        if found then
          (if \<not> task_key_exists p_task_id tenant d then Inl foreign_key_violation
           else bind_res (update_task s p_task_id (touch_task now) (d\<lparr>artifacts := rows\<rparr>))
             (\<lambda>d'. Inr (False, d')))
        else (case select_one s artifact_table (\<lambda>a. a_id a = p_id) (artifacts d) of
            None \<Rightarrow> if p_execution_id \<noteq> None then fail ''RHINOQ_ARTIFACT_CONFLICT'' p_id else Inr (True, d)
          | Some v \<Rightarrow>
              if a_task_id v \<noteq> p_task_id \<or> a_execution_id v \<noteq> p_execution_id \<or> a_name v \<noteq> p_name \<or>
                a_content_type v \<noteq> p_content_type \<or> a_size_bytes v \<noteq> p_size_bytes \<or>
                a_checksum_sha256 v \<noteq> p_checksum \<or> a_reference v \<noteq> p_reference \<or>
                a_expires_at v \<noteq> p_expires_at \<or> a_lineage v \<noteq> p_lineage
              then fail ''RHINOQ_ARTIFACT_CONFLICT'' p_id else Inr (True, d))))))"

definition refresh_artifact :: "session \<Rightarrow> int \<Rightarrow> string \<Rightarrow> int \<Rightarrow> string \<Rightarrow> int \<Rightarrow> unit command" where
  "refresh_artifact s now p_id p_expected_version p_reference p_expires_at d = (
    case select_one s artifact_table (\<lambda>a. a_id a = p_id) (artifacts d) of
      None \<Rightarrow> fail ''RHINOQ_ARTIFACT_NOT_FOUND'' p_id
    | Some v \<Rightarrow>
        if a_version v \<noteq> p_expected_version then fail ''RHINOQ_VERSION_CONFLICT'' p_id
        else bind_res (update_rows s artifact_table (\<lambda>a. a_id a = p_id) (\<lambda>a. a\<lparr>
            a_reference := p_reference, a_expires_at := p_expires_at,
            a_version := a_version a + 1, a_updated_at := now\<rparr>) (artifacts d)) (\<lambda>rows.
          bind_res (update_task s (a_task_id v) (touch_task now) (d\<lparr>artifacts := rows\<rparr>))
            (\<lambda>d'. Inr ((), d'))))"

section \<open>Retention\<close>

definition retention_due :: "int \<Rightarrow> artifact_row \<Rightarrow> bool" where
  "retention_due at a \<longleftrightarrow> a_expires_at a \<le> at \<and> (a_cleanup_state a = Cl_active \<or>
    (a_cleanup_state a = Cl_leased \<and>
      (case a_cleanup_lease_until a of None \<Rightarrow> False | Some until \<Rightarrow> until \<le> at)))"

text \<open>\<open>claimExpired\<close>: \<open>at\<close> is the caller's clock, \<open>now\<close> the database's.\<close>

definition retention_claim ::
  "session \<Rightarrow> int \<Rightarrow> string \<Rightarrow> nat \<Rightarrow> int \<Rightarrow> int \<Rightarrow> string list command" where
  "retention_claim s now owner limit leaseMs at d = (
    let ids = map a_id (take limit (sort_key (\<lambda>a. (a_expires_at a, a_id a))
      (select_rows s artifact_table (retention_due at) (artifacts d)))) in
    bind_res (update_rows s artifact_table (\<lambda>a. a_id a \<in> set ids) (\<lambda>a. a\<lparr>
        a_cleanup_state := Cl_leased, a_cleanup_owner := Some owner,
        a_cleanup_lease_until := Some (at + leaseMs), a_updated_at := now\<rparr>) (artifacts d)) (\<lambda>rows.
      Inr (ids, d\<lparr>artifacts := rows\<rparr>)))"

definition retention_held :: "string \<Rightarrow> string \<Rightarrow> artifact_row \<Rightarrow> bool" where
  "retention_held aid owner a \<longleftrightarrow>
    a_id a = aid \<and> a_cleanup_state a = Cl_leased \<and> a_cleanup_owner a = Some owner"

definition retention_complete :: "session \<Rightarrow> int \<Rightarrow> string \<Rightarrow> string \<Rightarrow> unit command" where
  "retention_complete s now aid owner d = (
    case select_one s artifact_table (retention_held aid owner) (artifacts d) of
      None \<Rightarrow> fail ''RHINOQ_ARTIFACT_CLEANUP_LEASE_CONFLICT'' ''''
    | Some a \<Rightarrow>
        bind_res (update_task s (a_task_id a) (touch_task now)
            (d\<lparr>artifacts := delete_rows s artifact_table (retention_held aid owner) (artifacts d)\<rparr>))
          (\<lambda>d'. Inr ((), d')))"

definition retention_fail :: "session \<Rightarrow> int \<Rightarrow> string \<Rightarrow> string \<Rightarrow> unit command" where
  "retention_fail s now aid owner d =
    bind_res (update_rows s artifact_table (retention_held aid owner) (\<lambda>a. a\<lparr>
        a_cleanup_state := Cl_failed, a_cleanup_owner := None, a_cleanup_lease_until := None,
        a_updated_at := now\<rparr>) (artifacts d)) (\<lambda>rows. Inr ((), d\<lparr>artifacts := rows\<rparr>))"

section \<open>Contract\<close>

lemma good_new_verification:
  assumes ins: "insert_row_or_nothing s verification_table v (verifications d) = Inr (True, rows)"
    and key: "task_key_exists (v_task_id v) (v_tenant_id v) d"
  shows "good s d (d\<lparr>verifications := rows\<rparr>)"
proof (rule good_child)
  let ?d = "d\<lparr>verifications := rows\<rparr>"
  note I = insert_row_or_nothing_ok [OF ins]
  show "waitpoints_ok ?d \<and> evidence_ok ?d \<and> outbox_ok ?d \<and> checkpoints_ok ?d \<and> steps_ok ?d \<and> leases_ok ?d"
    if "inv d"
    using inv_parts [OF that] I(1,3) key
    by (auto simp: evidence_ok_def outbox_ok_def task_key_exists_keys list_all_iff split: option.splits)
  show "children_evolve d ?d" using I(1) by (simp add: children_evolve_def rows_evolve_refl rows_evolve_snoc)
  show "hidden_db s ?d = hidden_db s d" using I(4) by (simp add: hidden_db_def)
qed simp_all

lemma good_artifacts:
  assumes "table_ok artifact_table (artifacts d) \<Longrightarrow> table_ok artifact_table rows"
    and "\<And>a. evidence_ok d \<Longrightarrow> a \<in> set rows \<Longrightarrow> (a_task_id a, a_tenant_id a) \<in> set (task_keys d)"
    and "\<And>a eid. evidence_ok d \<Longrightarrow> a \<in> set rows \<Longrightarrow> a_execution_id a = Some eid \<Longrightarrow>
      (eid, a_task_id a, a_tenant_id a) \<in> set (exec_parents d)"
    and "hidden s artifact_table rows = hidden s artifact_table (artifacts d)"
  shows "good s d (d\<lparr>artifacts := rows\<rparr>)"
proof (rule good_child)
  let ?d = "d\<lparr>artifacts := rows\<rparr>"
  show "waitpoints_ok ?d \<and> evidence_ok ?d \<and> outbox_ok ?d \<and> checkpoints_ok ?d \<and> steps_ok ?d \<and> leases_ok ?d"
    if "inv d"
  proof -
    note ev = inv_parts(3) [OF that]
    have "list_all (\<lambda>a. (a_task_id a, a_tenant_id a) \<in> set (task_keys d) \<and>
      (case a_execution_id a of None \<Rightarrow> True
        | Some eid \<Rightarrow> (eid, a_task_id a, a_tenant_id a) \<in> set (exec_parents d))) rows"
      using assms(2,3) [OF ev] by (simp add: list_all_iff split: option.split)
    then have "evidence_ok ?d"
      using ev assms(1) by (simp add: evidence_ok_def cong: option.case_cong)
    then show ?thesis using inv_parts [OF that] by simp
  qed
  show "children_evolve d ?d" by (simp add: children_evolve_def rows_evolve_refl)
  show "hidden_db s ?d = hidden_db s d" using assms(4) by (simp add: hidden_db_def)
qed simp_all

lemma evidence_ok_artifactD:
  assumes "evidence_ok d" and "a \<in> set (artifacts d)"
  shows "(a_task_id a, a_tenant_id a) \<in> set (task_keys d)"
    and "a_execution_id a = Some eid \<Longrightarrow> (eid, a_task_id a, a_tenant_id a) \<in> set (exec_parents d)"
  using assms by (auto simp: evidence_ok_def list_all_iff)

lemma good_update_artifacts:
  assumes upd: "update_rows s artifact_table p f (artifacts d) = Inr rows"
    and keep: "\<And>a. a_tenant_id (f a) = a_tenant_id a" "\<And>a. a_task_id (f a) = a_task_id a"
      "\<And>a. a_execution_id (f a) = a_execution_id a"
  shows "good s d (d\<lparr>artifacts := rows\<rparr>)"
proof (rule good_artifacts)
  note R = update_rows_ok [OF upd]
  show "table_ok artifact_table rows" if "table_ok artifact_table (artifacts d)" by (rule R(2) [OF that])
  show "hidden s artifact_table rows = hidden s artifact_table (artifacts d)"
    by (rule hidden_update_rows [OF upd]) (simp add: keep)
  have old: "\<exists>b \<in> set (artifacts d). a_task_id a = a_task_id b \<and> a_tenant_id a = a_tenant_id b \<and>
      a_execution_id a = a_execution_id b" if "a \<in> set rows" for a
    using that unfolding R(1) by (elim in_upd_whereE) (auto simp: keep intro!: bexI)
  show "(a_task_id a, a_tenant_id a) \<in> set (task_keys d)" if "evidence_ok d" "a \<in> set rows" for a
    using old [OF that(2)] evidence_ok_artifactD(1) [OF that(1)] by auto
  show "(eid, a_task_id a, a_tenant_id a) \<in> set (exec_parents d)"
    if "evidence_ok d" "a \<in> set rows" "a_execution_id a = Some eid" for a eid
    using old [OF that(2)] evidence_ok_artifactD(2) [OF that(1), of _ eid] that(3) by auto
qed

lemma record_verification_sound [cmd_inv]:
  "sound s (record_verification s now p_id p_task_id p_verifier p_status p_summary p_evidence p_rule
    p_st p_si p_iv p_dl p_at)"
proof (rule soundI)
  fix d x d'
  assume c: "record_verification s now p_id p_task_id p_verifier p_status p_summary p_evidence p_rule
    p_st p_si p_iv p_dl p_at d = Inr (x, d')"
  show "good s d d'"
  proof (cases "d' = d")
    case False
    then obtain tenant rows where
      ins: "insert_row_or_nothing s verification_table (new_verification now p_id p_task_id tenant p_verifier
        p_status p_summary p_evidence p_rule p_st p_si p_iv p_dl p_at) (verifications d) = Inr (True, rows)"
      and key: "task_key_exists p_task_id tenant d"
      and upd: "update_task s p_task_id (touch_task now) (d\<lparr>verifications := rows\<rparr>) = Inr d'"
      using c unfolding record_verification_def by (auto split: if_split_asm option.split_asm)
    show ?thesis
      by (rule good_trans [OF good_new_verification [OF ins] good_touch [OF upd]])
        (simp add: new_verification_def key)
  qed simp
qed

lemma ensure_artifact_execution_tenant_ok:
  assumes "ensure_artifact_execution_tenant s (Some eid) tid (Some tenant) d = Inr u"
  shows "(eid, tid, tenant) \<in> set (exec_parents d)"
  using assms
  by (auto simp: ensure_artifact_execution_tenant_def exec_parents_def split: if_splits
      dest!: select_one_SomeD intro!: rev_image_eqI)

lemma register_artifact_sound [cmd_inv]:
  "sound s (register_artifact s now p_id p_task_id p_execution_id p_name p_ct p_size p_sum p_ref p_exp p_lin)"
proof (rule soundI)
  fix d x d'
  assume c: "register_artifact s now p_id p_task_id p_execution_id p_name p_ct p_size p_sum p_ref p_exp
    p_lin d = Inr (x, d')"
  show "good s d d'"
  proof (cases "d' = d")
    case False
    let ?a = "\<lambda>tenant. new_artifact now p_id p_task_id tenant p_execution_id p_name p_ct p_size p_sum
      p_ref p_exp p_lin"
    from False obtain rows tenant where
      guard: "ensure_artifact_execution_tenant s p_execution_id p_task_id (current_tenant s) d = Inr ()"
      and tenant: "default_tenant s = Inr tenant"
      and ins: "insert_row_or_nothing s artifact_table (?a tenant) (artifacts d) = Inr (True, rows)"
      and key: "task_key_exists p_task_id tenant d"
      and upd: "update_task s p_task_id (touch_task now) (d\<lparr>artifacts := rows\<rparr>) = Inr d'"
      using c unfolding register_artifact_def by (auto split: if_split_asm option.split_asm)
    have a: "a_task_id (?a tenant) = p_task_id" "a_tenant_id (?a tenant) = tenant"
      "a_execution_id (?a tenant) = p_execution_id" by (simp_all add: new_artifact_def)
    note I = insert_row_or_nothing_ok [OF ins]
    have "current_tenant s = Some tenant" using default_tenant_InrD [OF tenant] by simp
    then have "(eid, p_task_id, tenant) \<in> set (exec_parents d)" if "p_execution_id = Some eid" for eid
      using guard that ensure_artifact_execution_tenant_ok by simp
    then have "good s d (d\<lparr>artifacts := rows\<rparr>)"
      using I key a by (intro good_artifacts) (auto simp: task_key_exists_keys dest: evidence_ok_artifactD)
    then show ?thesis using good_touch [OF upd] by (rule good_trans)
  qed simp
qed

lemma refresh_artifact_sound [cmd_inv]: "sound s (refresh_artifact s now p_id v p_reference p_expires_at)"
  by (rule soundI)
    (auto simp: refresh_artifact_def split: if_splits option.splits
      intro!: good_trans [OF good_update_artifacts good_touch])

lemma retention_claim_sound [cmd_inv]: "sound s (retention_claim s now owner limit leaseMs at)"
  by (rule soundI) (auto simp: retention_claim_def Let_def intro!: good_update_artifacts)

lemma retention_fail_sound [cmd_inv]: "sound s (retention_fail s now aid owner)"
  by (rule soundI) (auto simp: retention_fail_def intro!: good_update_artifacts)

lemma retention_complete_sound [cmd_inv]: "sound s (retention_complete s now aid owner)"
proof (rule soundI)
  fix d x d'
  assume "retention_complete s now aid owner d = Inr (x, d')"
  then obtain tid where upd: "update_task s tid (touch_task now)
      (d\<lparr>artifacts := delete_rows s artifact_table (retention_held aid owner) (artifacts d)\<rparr>) = Inr d'"
    by (auto simp: retention_complete_def split: option.splits)
  have "good s d (d\<lparr>artifacts := delete_rows s artifact_table (retention_held aid owner) (artifacts d)\<rparr>)"
    by (rule good_artifacts)
      (auto simp: delete_rows_ok dest: delete_rowsD evidence_ok_artifactD)
  then show "good s d d'" using good_touch [OF upd] by (rule good_trans)
qed

end
