(* ===== verification/Notifications.thy ===== *)
theory Notifications
  imports Evidence
begin

text \<open>
  The notification outbox (migration 010): the statements \<open>queueTaskNotification\<close>,
  \<open>claimTaskNotification\<close>, \<open>completeTaskNotification\<close> and \<open>failTaskNotification\<close> of
  \<open>postgres/task-client.ts\<close>, with the argument checks the client makes first. A JavaScript
  \<open>TypeError\<close> or \<open>RangeError\<close> is the error of that name.
\<close>

section \<open>Commands\<close>

text \<open>
  \<open>payload_size\<close> is the byte length of the JSON text of verification and finding; the two texts
  are given. \<open>ON CONFLICT (id) DO NOTHING\<close> covers the primary key alone: a second notification for
  the same verification under another id is a unique violation. The \<open>INSERT\<close> and the \<open>SELECT\<close> that reads the row back are
  two statements of the client and one step here. What the \<open>SELECT\<close> compares never changes once the row is there, so
  another client between the two can only make the record that is returned show a later delivery state.
\<close>

definition new_notification ::
  "int \<Rightarrow> string \<Rightarrow> string \<Rightarrow> string \<Rightarrow> string \<Rightarrow> string \<Rightarrow> string \<Rightarrow> string option \<Rightarrow> outbox_row" where
  "new_notification now nid tid tenant vid verification finding link = \<lparr>n_id = nid, n_task_id = tid,
    n_tenant_id = tenant, n_verification_id = vid, n_verification = verification,
    n_finding = finding, n_deep_link = link, n_state = N_pending, n_attempts = 0,
    n_available_at = now, n_lease_owner = None, n_lease_until = None, n_last_error = None,
    n_created_at = now, n_updated_at = now\<rparr>"

definition queueTaskNotification ::
  "session \<Rightarrow> int \<Rightarrow> string \<Rightarrow> string \<Rightarrow> string \<Rightarrow> string \<Rightarrow> string \<Rightarrow> string \<Rightarrow> string \<Rightarrow> int \<Rightarrow>
    string option \<Rightarrow> outbox_row command" where
  "queueTaskNotification s now taskId notificationId verificationId verificationTaskId ruleId
      verification finding payload_size deepLink d = (
    if js_trim taskId = '''' \<or> js_trim notificationId = '''' \<or> verificationId = '''' \<or> ruleId = ''''
    then Inl (Rhinoq ''TypeError'' None)
    else if verificationTaskId \<noteq> taskId then Inl (Rhinoq ''TypeError'' None)
    else if payload_size > 131072 then Inl (Rhinoq ''RangeError'' None)
    else
      let same = list_ex (\<lambda>n. n_id n = notificationId) (outbox d) in
      bind_res (default_tenant s) (\<lambda>tenant.
      bind_res
        (let n = new_notification now notificationId taskId tenant verificationId verification finding deepLink in
         if \<not> outbox_check n then Inl check_violation
         else if same then Inr d
         else bind_res (insert_row s outbox_table n (outbox d)) (\<lambda>rows.
           if \<not> task_key_exists taskId tenant d \<or>
             \<not> list_ex (\<lambda>v. v_id v = verificationId \<and> v_tenant_id v = tenant) (verifications d)
           then Inl foreign_key_violation
           else Inr (d\<lparr>outbox := rows\<rparr>)))
      (\<lambda>d'. case select_one s outbox_table (\<lambda>n. n_id n = notificationId) (outbox d') of
          None \<Rightarrow> fail ''RHINOQ_NOTIFICATION_CONFLICT'' notificationId
        | Some row \<Rightarrow>
            if n_task_id row \<noteq> taskId \<or> n_verification_id row \<noteq> verificationId
            then fail ''RHINOQ_NOTIFICATION_CONFLICT'' notificationId
            else Inr (row, d'))))"

definition notification_ready :: "int \<Rightarrow> outbox_row \<Rightarrow> bool" where
  "notification_ready now n \<longleftrightarrow>
    (n_state n \<in> {N_pending, N_failed} \<and> n_available_at n \<le> now) \<or>
    (n_state n = N_leased \<and> (case n_lease_until n of None \<Rightarrow> False | Some until \<Rightarrow> until \<le> now))"

text \<open>\<open>ORDER BY created_at, id LIMIT 1\<close>.\<close>

definition notification_candidate :: "session \<Rightarrow> int \<Rightarrow> db \<Rightarrow> outbox_row option" where
  "notification_candidate s now d =
    (case sort_key (\<lambda>n. (n_created_at n, n_id n))
        (select_rows s outbox_table (notification_ready now) (outbox d)) of
      [] \<Rightarrow> None | n # _ \<Rightarrow> Some n)"

definition notification_leased :: "int \<Rightarrow> string \<Rightarrow> int \<Rightarrow> outbox_row \<Rightarrow> outbox_row" where
  "notification_leased now owner leaseMs n = n\<lparr>n_state := N_leased, n_attempts := n_attempts n + 1,
    n_lease_owner := Some owner, n_lease_until := Some (now + leaseMs), n_updated_at := now\<rparr>"

definition claimTaskNotification :: "session \<Rightarrow> int \<Rightarrow> string \<Rightarrow> int \<Rightarrow> outbox_row option command" where
  "claimTaskNotification s now owner leaseMs d = (
    if js_trim owner = '''' then Inl (Rhinoq ''TypeError'' None)
    else if leaseMs < 1000 \<or> leaseMs > 3600000 then Inl (Rhinoq ''RangeError'' None)
    else (case notification_candidate s now d of
        None \<Rightarrow> Inr (None, d)
      | Some n \<Rightarrow> bind_res (update_rows s outbox_table (\<lambda>m. n_id m = n_id n)
            (notification_leased now owner leaseMs) (outbox d)) (\<lambda>rows.
          Inr (Some (notification_leased now owner leaseMs n), d\<lparr>outbox := rows\<rparr>))))"

definition notification_held :: "string \<Rightarrow> string \<Rightarrow> outbox_row \<Rightarrow> bool" where
  "notification_held nid owner n \<longleftrightarrow>
    n_id n = nid \<and> n_state n = N_leased \<and> n_lease_owner n = Some owner"

definition completeTaskNotification :: "session \<Rightarrow> int \<Rightarrow> string \<Rightarrow> string \<Rightarrow> outbox_row command" where
  "completeTaskNotification s now nid owner d = (
    let f = (\<lambda>n. n\<lparr>n_state := N_sent, n_lease_owner := None, n_lease_until := None, n_updated_at := now\<rparr>) in
    case select_one s outbox_table (notification_held nid owner) (outbox d) of
      None \<Rightarrow> fail ''RHINOQ_NOTIFICATION_LEASE_CONFLICT'' nid
    | Some n \<Rightarrow> bind_res (update_rows s outbox_table (notification_held nid owner) f (outbox d))
        (\<lambda>rows. Inr (f n, d\<lparr>outbox := rows\<rparr>)))"

definition failTaskNotification ::
  "session \<Rightarrow> int \<Rightarrow> string \<Rightarrow> string \<Rightarrow> string \<Rightarrow> int \<Rightarrow> outbox_row command" where
  "failTaskNotification s now nid owner reason retryAfterMs d = (
    let f = (\<lambda>n. n\<lparr>n_state := N_failed, n_lease_owner := None, n_lease_until := None,
      n_available_at := now + retryAfterMs, n_last_error := Some (left_text 2048 reason),
      n_updated_at := now\<rparr>) in
    if js_trim reason = '''' then Inl (Rhinoq ''TypeError'' None)
    else if retryAfterMs < 0 \<or> retryAfterMs > 86400000 then Inl (Rhinoq ''RangeError'' None)
    else (case select_one s outbox_table (notification_held nid owner) (outbox d) of
        None \<Rightarrow> fail ''RHINOQ_NOTIFICATION_LEASE_CONFLICT'' nid
      | Some n \<Rightarrow> bind_res (update_rows s outbox_table (notification_held nid owner) f (outbox d))
          (\<lambda>rows. Inr (f n, d\<lparr>outbox := rows\<rparr>))))"

section \<open>Contract\<close>

lemma good_outbox:
  assumes "table_ok outbox_table (outbox d) \<Longrightarrow> table_ok outbox_table rows"
    and "outbox_ok d \<Longrightarrow> list_all (\<lambda>n. (n_task_id n, n_tenant_id n) \<in> set (task_keys d) \<and>
      (n_verification_id n, n_tenant_id n) \<in> (\<lambda>v. (v_id v, v_tenant_id v)) ` set (verifications d)) rows"
    and "outbox_ok d \<Longrightarrow> rows_evolve outbox_evolves (outbox d) rows"
    and "hidden s outbox_table rows = hidden s outbox_table (outbox d)"
  shows "good s d (d\<lparr>outbox := rows\<rparr>)"
proof (rule good_child)
  let ?d = "d\<lparr>outbox := rows\<rparr>"
  show "waitpoints_ok ?d \<and> evidence_ok ?d \<and> outbox_ok ?d \<and> checkpoints_ok ?d \<and> steps_ok ?d \<and> leases_ok ?d"
    if "inv d" using inv_parts [OF that] assms(1,2) by (simp add: outbox_ok_def)
  show "children_evolve d ?d" if "inv d"
    using inv_parts(4) [OF that] assms(3) by (simp add: children_evolve_def rows_evolve_refl)
  show "hidden_db s ?d = hidden_db s d" using assms(4) by (simp add: hidden_db_def)
qed simp_all

lemma good_update_outbox:
  assumes upd: "update_rows s outbox_table p f (outbox d) = Inr rows"
    and ev: "\<And>n. n \<in> set (outbox d) \<Longrightarrow> outbox_ok d \<Longrightarrow> p n \<Longrightarrow> outbox_evolves n (f n)"
    and keep: "\<And>n. n_tenant_id (f n) = n_tenant_id n" "\<And>n. n_task_id (f n) = n_task_id n"
      "\<And>n. n_verification_id (f n) = n_verification_id n"
  shows "good s d (d\<lparr>outbox := rows\<rparr>)"
proof (rule good_outbox)
  note R = update_rows_ok [OF upd]
  show "table_ok outbox_table rows" if "table_ok outbox_table (outbox d)" by (rule R(2) [OF that])
  show "hidden s outbox_table rows = hidden s outbox_table (outbox d)"
    by (rule hidden_update_rows [OF upd]) (simp add: keep)
  assume ok: "outbox_ok d"
  then show "list_all (\<lambda>n. (n_task_id n, n_tenant_id n) \<in> set (task_keys d) \<and>
      (n_verification_id n, n_tenant_id n) \<in> (\<lambda>v. (v_id v, v_tenant_id v)) ` set (verifications d)) rows"
    unfolding R(1) list_all_iff by (auto simp: outbox_ok_def list_all_iff keep elim!: in_upd_whereE)
  show "rows_evolve outbox_evolves (outbox d) rows"
    unfolding R(1) by (rule rows_evolve_upd_where) (use ev [OF _ ok] in auto)
qed

lemma queueTaskNotification_sound [cmd_inv]:
  "sound s (queueTaskNotification s now tid nid vid vtid rid ver fin sz link)"
proof (rule soundI)
  fix d x d'
  assume c: "queueTaskNotification s now tid nid vid vtid rid ver fin sz link d = Inr (x, d')"
  show "good s d d'"
  proof (cases "d' = d")
    case False
    then obtain tenant rows where d': "d' = d\<lparr>outbox := rows\<rparr>"
      and ins: "insert_row s outbox_table (new_notification now nid tid tenant vid ver fin link) (outbox d) = Inr rows"
      and keys: "task_key_exists tid tenant d"
        "list_ex (\<lambda>v. v_id v = vid \<and> v_tenant_id v = tenant) (verifications d)"
      using c unfolding queueTaskNotification_def Let_def by (auto split: if_split_asm option.split_asm)
    note I = insert_row_ok [OF ins]
    show ?thesis
      unfolding d'
    proof (rule good_outbox)
      assume "outbox_ok d"
      then show "list_all (\<lambda>n. (n_task_id n, n_tenant_id n) \<in> set (task_keys d) \<and>
        (n_verification_id n, n_tenant_id n) \<in> (\<lambda>v. (v_id v, v_tenant_id v)) ` set (verifications d)) rows"
        using keys by (auto simp: I(1) new_notification_def outbox_ok_def task_key_exists_keys list_ex_iff)
      show "rows_evolve outbox_evolves (outbox d) rows" by (simp add: I(1) rows_evolve_snoc)
    qed (use I in simp_all)
  qed simp
qed

lemma notification_candidateD:
  assumes "notification_candidate s now d = Some n"
  shows "n \<in> set (outbox d)" "visible s (n_tenant_id n)" "notification_ready now n"
proof -
  obtain ns where eq: "sort_key (\<lambda>n. (n_created_at n, n_id n))
      (select_rows s outbox_table (notification_ready now) (outbox d)) = n # ns"
    using assms by (auto simp: notification_candidate_def split: list.splits)
  have "n \<in> set (sort_key (\<lambda>n. (n_created_at n, n_id n))
      (select_rows s outbox_table (notification_ready now) (outbox d)))"
    unfolding eq by simp
  then show "n \<in> set (outbox d)" "visible s (n_tenant_id n)" "notification_ready now n" by simp_all
qed

lemma claimTaskNotification_sound [cmd_inv]: "sound s (claimTaskNotification s now owner leaseMs)"
proof (rule soundI)
  fix d x d'
  assume c: "claimTaskNotification s now owner leaseMs d = Inr (x, d')"
  show "good s d d'"
  proof (cases "d' = d")
    case False
    then obtain n rows where n: "notification_candidate s now d = Some n" and d': "d' = d\<lparr>outbox := rows\<rparr>"
      and upd: "update_rows s outbox_table (\<lambda>m. n_id m = n_id n) (notification_leased now owner leaseMs) (outbox d) = Inr rows"
      using c by (auto simp: claimTaskNotification_def split: if_splits option.splits)
    note N = notification_candidateD [OF n]
    show ?thesis
      unfolding d'
    proof (rule good_update_outbox [OF upd])
      fix m
      assume "m \<in> set (outbox d)" "outbox_ok d" "n_id m = n_id n"
      then have "m = n" using outbox_key.key_inj N(1) by (auto simp: outbox_ok_def)
      then show "outbox_evolves m (notification_leased now owner leaseMs m)"
        using N(3) by (auto simp: outbox_evolves_def notification_leased_def notification_ready_def)
    qed (simp_all add: notification_leased_def)
  qed simp
qed

lemma completeTaskNotification_sound [cmd_inv]: "sound s (completeTaskNotification s now nid owner)"
  by (rule soundI)
    (auto simp: completeTaskNotification_def Let_def outbox_evolves_def split: option.splits
      intro!: good_update_outbox)

lemma failTaskNotification_sound [cmd_inv]:
  "sound s (failTaskNotification s now nid owner reason retryAfterMs)"
  by (rule soundI)
    (auto simp: failTaskNotification_def Let_def outbox_evolves_def notification_held_def
      split: option.splits if_splits intro!: good_update_outbox)

end
