(* ===== verification/Checkpoints.thy ===== *)
theory Checkpoints
  imports Notifications
begin

text \<open>
  Execution checkpoints (migration 012): a caller-owned cursor per execution and key, replayed
  without a fence and advanced under one.
\<close>

section \<open>Commands\<close>

definition new_checkpoint ::
  "int \<Rightarrow> string \<Rightarrow> string \<Rightarrow> string \<Rightarrow> string \<Rightarrow> string \<Rightarrow> int \<Rightarrow> string \<Rightarrow> string \<Rightarrow> bool \<Rightarrow> checkpoint_row" where
  "new_checkpoint now kid tid tenant eid key hv checksum st completed = \<lparr>k_id = kid, k_task_id = tid,
    k_tenant_id = tenant, k_execution_id = eid, k_checkpoint_key = key, k_handler_version = hv,
    k_input_checksum = checksum, k_state = st, k_completed = completed, k_version = 1,
    k_created_at = now, k_updated_at = now\<rparr>"

definition upsert_checkpoint ::
  "session \<Rightarrow> int \<Rightarrow> string \<Rightarrow> string \<Rightarrow> string \<Rightarrow> string \<Rightarrow> int \<Rightarrow> string \<Rightarrow> string \<Rightarrow> bool option \<Rightarrow>
    int option \<Rightarrow> int command" where
  "upsert_checkpoint s now p_id p_task_id p_execution_id p_key p_handler_version p_input_checksum
      p_state p_completed p_expected_version d = (
    if btrim p_id = '''' \<or> btrim p_task_id = '''' \<or> btrim p_execution_id = '''' \<or> btrim p_key = '''' \<or>
      p_handler_version \<le> 0 \<or> \<not> sha256_text p_input_checksum \<or> len p_state > 65536
    then fail ''RHINOQ_INVALID_CHECKPOINT'' ''''
    else if select_one s execution_table (\<lambda>e. e_id e = p_execution_id \<and> e_task_id e = p_task_id)
      (executions d) = None
    then fail ''RHINOQ_CHECKPOINT_EXECUTION_MISMATCH'' ''''
    else (case select_one s checkpoint_table
        (\<lambda>k. k_execution_id k = p_execution_id \<and> k_checkpoint_key k = p_key) (checkpoints d) of
      Some v \<Rightarrow>
        if k_id v \<noteq> p_id \<or> k_task_id v \<noteq> p_task_id \<or> k_handler_version v \<noteq> p_handler_version \<or>
          k_input_checksum v \<noteq> p_input_checksum
        then fail ''RHINOQ_CHECKPOINT_INCOMPATIBLE'' ''''
        else if k_state v = p_state \<and> k_completed v = coalesce p_completed False
        then Inr (k_version v, d)
        else if p_expected_version \<noteq> Some (k_version v)
        then fail ''RHINOQ_CHECKPOINT_VERSION_CONFLICT'' ''''
        else bind_res (update_rows s checkpoint_table (\<lambda>k. k_id k = k_id v) (\<lambda>k. k\<lparr>
            k_state := p_state, k_completed := coalesce p_completed False,
            k_version := k_version k + 1, k_updated_at := now\<rparr>) (checkpoints d))
          (\<lambda>rows. Inr (k_version v + 1, d\<lparr>checkpoints := rows\<rparr>))
    | None \<Rightarrow>
        if p_expected_version \<noteq> None then fail ''RHINOQ_CHECKPOINT_VERSION_CONFLICT'' ''''
        else on_unique_violation
          (fail ''RHINOQ_CHECKPOINT_ALREADY_EXISTS'' (p_execution_id @ '':'' @ p_key)) (
            bind_res (default_tenant s) (\<lambda>tenant.
            bind_res (insert_row s checkpoint_table (new_checkpoint now p_id p_task_id tenant
                p_execution_id (btrim p_key) p_handler_version p_input_checksum p_state
                (coalesce p_completed False)) (checkpoints d)) (\<lambda>rows.
              if \<not> task_key_exists p_task_id tenant d \<or> \<not> execution_key_exists p_execution_id tenant d
              then Inl foreign_key_violation
              else Inr (1, d\<lparr>checkpoints := rows\<rparr>))))))"

definition delete_execution_checkpoints :: "session \<Rightarrow> string \<Rightarrow> int command" where
  "delete_execution_checkpoints s p_execution_id d = (
    if btrim p_execution_id = '''' then fail ''RHINOQ_INVALID_CHECKPOINT'' ''''
    else
      let rows = delete_rows s checkpoint_table (\<lambda>k. k_execution_id k = p_execution_id) (checkpoints d) in
      Inr (int (length (checkpoints d)) - int (length rows), d\<lparr>checkpoints := rows\<rparr>))"

section \<open>Contract\<close>

lemma good_checkpoints:
  assumes "table_ok checkpoint_table (checkpoints d) \<Longrightarrow> table_ok checkpoint_table rows"
    and "checkpoints_ok d \<Longrightarrow> list_all (\<lambda>k. (k_task_id k, k_tenant_id k) \<in> set (task_keys d) \<and>
      (k_execution_id k, k_tenant_id k) \<in> set (exec_keys d)) rows"
    and "hidden s checkpoint_table rows = hidden s checkpoint_table (checkpoints d)"
  shows "good s d (d\<lparr>checkpoints := rows\<rparr>)"
proof (rule good_child)
  let ?d = "d\<lparr>checkpoints := rows\<rparr>"
  show "waitpoints_ok ?d \<and> evidence_ok ?d \<and> outbox_ok ?d \<and> checkpoints_ok ?d \<and> steps_ok ?d \<and> leases_ok ?d"
    if "inv d" using inv_parts [OF that] assms(1,2) by (simp add: checkpoints_ok_def)
  show "children_evolve d ?d" by (simp add: children_evolve_def rows_evolve_refl)
  show "hidden_db s ?d = hidden_db s d" using assms(3) by (simp add: hidden_db_def)
qed simp_all

lemma good_update_checkpoints:
  assumes upd: "update_rows s checkpoint_table p f (checkpoints d) = Inr rows"
    and keep: "\<And>k. k_tenant_id (f k) = k_tenant_id k" "\<And>k. k_task_id (f k) = k_task_id k"
      "\<And>k. k_execution_id (f k) = k_execution_id k"
  shows "good s d (d\<lparr>checkpoints := rows\<rparr>)"
proof (rule good_checkpoints)
  note R = update_rows_ok [OF upd]
  show "table_ok checkpoint_table rows" if "table_ok checkpoint_table (checkpoints d)" by (rule R(2) [OF that])
  show "hidden s checkpoint_table rows = hidden s checkpoint_table (checkpoints d)"
    by (rule hidden_update_rows [OF upd]) (simp add: keep)
  show "list_all (\<lambda>k. (k_task_id k, k_tenant_id k) \<in> set (task_keys d) \<and>
      (k_execution_id k, k_tenant_id k) \<in> set (exec_keys d)) rows" if "checkpoints_ok d"
    using that unfolding R(1) by (auto simp: checkpoints_ok_def list_all_iff keep elim!: in_upd_whereE)
qed

lemma good_insert_checkpoint:
  assumes ins: "insert_row s checkpoint_table k (checkpoints d) = Inr rows"
    and "task_key_exists (k_task_id k) (k_tenant_id k) d"
    and "execution_key_exists (k_execution_id k) (k_tenant_id k) d"
  shows "good s d (d\<lparr>checkpoints := rows\<rparr>)"
  using insert_row_ok [OF ins] assms(2,3)
  by (intro good_checkpoints)
    (auto simp: checkpoints_ok_def task_key_exists_keys execution_key_exists_keys)

lemma new_checkpoint_keys [simp]:
  "k_task_id (new_checkpoint now kid tid tenant eid key hv checksum st completed) = tid"
  "k_tenant_id (new_checkpoint now kid tid tenant eid key hv checksum st completed) = tenant"
  "k_execution_id (new_checkpoint now kid tid tenant eid key hv checksum st completed) = eid"
  by (simp_all add: new_checkpoint_def)

lemma upsert_checkpoint_sound [cmd_inv]:
  "sound s (upsert_checkpoint s now p_id p_task_id p_execution_id p_key p_hv p_sum p_state p_done p_v)"
proof (rule soundI)
  fix d x d'
  assume "upsert_checkpoint s now p_id p_task_id p_execution_id p_key p_hv p_sum p_state p_done p_v d =
    Inr (x, d')"
  then show "good s d d'"
    unfolding upsert_checkpoint_def
    by (auto split: if_split_asm option.split_asm dest!: on_unique_violation_InrD
        intro: good_update_checkpoints good_insert_checkpoint [where k = "new_checkpoint _ _ _ _ _ _ _ _ _ _", simplified])
qed

lemma delete_execution_checkpoints_sound [cmd_inv]:
  "sound s (delete_execution_checkpoints s p_execution_id)"
  by (rule soundI)
    (auto simp: delete_execution_checkpoints_def Let_def delete_rows_ok checkpoints_ok_def list_all_iff
      split: if_splits intro!: good_checkpoints dest!: delete_rowsD)

section \<open>What a save leaves behind\<close>

interpretation checkpoint_slot: keyed_table checkpoint_table "\<lambda>k. (k_execution_id k, k_checkpoint_key k)"
  by unfold_locales (simp add: tables)

lemma upsert_checkpoint_saved:
  assumes c: "upsert_checkpoint s now kid tid eid key hv cs st fin v d = Inr (n, d1)" and i: "inv d" and key: "btrim key = key"
  shows "\<exists>k. select_one s checkpoint_table (\<lambda>k. k_execution_id k = eid \<and> k_checkpoint_key k = key) (checkpoints d1) = Some k \<and>
    k_id k = kid \<and> k_task_id k = tid \<and> k_handler_version k = hv \<and> k_input_checksum k = cs \<and> k_state k = st \<and>
    k_completed k = coalesce fin False \<and> k_version k = n"
proof -
  let ?q = "\<lambda>k. k_execution_id k = eid \<and> k_checkpoint_key k = key"
  have "good s d d1" by (rule soundD [OF upsert_checkpoint_sound c])
  then have ok: "table_ok checkpoint_table (checkpoints d1)"
    using fairD(1) [OF good_fair i] inv_parts(5) by (auto simp: checkpoints_ok_def)
  have found: "select_one s checkpoint_table ?q (checkpoints d1) = Some k"
    if "k \<in> set (checkpoints d1)" "visible s (k_tenant_id k)" "?q k" for k
    using checkpoint_slot.select_key [OF ok that(1), of s] that(2,3) by simp
  show ?thesis
  proof (cases "select_one s checkpoint_table ?q (checkpoints d)")
    case None
    obtain tenant rows where ins: "insert_row s checkpoint_table (new_checkpoint now kid tid tenant eid (btrim key) hv cs st
        (coalesce fin False)) (checkpoints d) = Inr rows" and d1: "d1 = d\<lparr>checkpoints := rows\<rparr>" "n = 1"
      using c None by (auto simp: upsert_checkpoint_def dest!: on_unique_violation_InrD split: if_split_asm)
    have "select_one s checkpoint_table ?q (checkpoints d1) = Some (new_checkpoint now kid tid tenant eid (btrim key) hv cs st (coalesce fin False))"
      by (rule found) (use insert_row_ok(1,2) [OF ins] d1 key in \<open>simp_all add: new_checkpoint_def\<close>)
    then show ?thesis using d1 by (simp add: new_checkpoint_def)
  next
    case (Some k)
    note K = select_one_SomeD [OF Some]
    let ?f = "\<lambda>k. k\<lparr>k_state := st, k_completed := coalesce fin False, k_version := k_version k + 1, k_updated_at := now\<rparr>"
    have same: "k_id k = kid" "k_task_id k = tid" "k_handler_version k = hv" "k_input_checksum k = cs"
      and rest: "k_state k = st \<and> k_completed k = coalesce fin False \<and> n = k_version k \<and> d1 = d \<or>
        (\<exists>rows. update_rows s checkpoint_table (\<lambda>x. k_id x = k_id k) ?f (checkpoints d) = Inr rows \<and>
          n = k_version k + 1 \<and> d1 = d\<lparr>checkpoints := rows\<rparr>)"
      using c Some by (auto simp: upsert_checkpoint_def split: if_split_asm)
    from rest show ?thesis
    proof
      assume "\<exists>rows. update_rows s checkpoint_table (\<lambda>x. k_id x = k_id k) ?f (checkpoints d) = Inr rows \<and>
          n = k_version k + 1 \<and> d1 = d\<lparr>checkpoints := rows\<rparr>"
      then obtain rows where rows: "update_rows s checkpoint_table (\<lambda>x. k_id x = k_id k) ?f (checkpoints d) = Inr rows"
        and d1: "n = k_version k + 1" "d1 = d\<lparr>checkpoints := rows\<rparr>" by blast
      have "?f k \<in> set (checkpoints d1)"
        unfolding d1(2) using update_rows_ok(1) [OF rows] K by (auto simp: set_upd_where)
      from found [OF this] K same d1(1) show ?thesis by simp
    qed (use Some same in simp)
  qed
qed

end
