(* ===== verification/Durable_Steps.thy ===== *)
theory Durable_Steps
  imports Checkpoints
begin

text \<open>
  Durable steps (\<open>postgres/durable-step-schema.ts\<close>, migrations 019 and 021): a step of an item runs
  under a leased attempt; a worker acquires it, renews the lease, and completes, fails or cancels
  the step under the fence of owner and epoch. Times are in milliseconds.

  \<open>acquire_durable_step\<close> returns a table whose columns (\<open>id\<close>, \<open>version\<close>, ...) are PL/pgSQL
  variables too, and three of its statements name such a column without its table. What the
  server makes of that is its setting \<open>plpgsql.variable_conflict\<close>, which is not part of the sources:
  it is a parameter, the field \<open>s_variable_conflict\<close> of the session. \<open>unqualified\<close> marks those
  statements and states the documented behaviour: an error when the statement runs under
  \<open>error\<close>, the server's default, and the column under \<open>use_column\<close>, as
  \<open>test/durable-step.integration.test.mjs\<close> expects of an acquisition. The properties hold for either
  setting; the sessions of the witnesses that acquire use \<open>Use_column\<close>. The third setting,
  \<open>use_variable\<close>, under which the statements would read the output variables, is not modelled.
\<close>

section \<open>Commands\<close>

definition unqualified :: "session \<Rightarrow> 'a res \<Rightarrow> 'a res" where
  "unqualified s m = (case s_variable_conflict s of
      Conflict_error \<Rightarrow> Inl ambiguous_column
    | Use_column \<Rightarrow> m)"

lemma unqualified_Inr [simp]:
  "unqualified s m = Inr x \<longleftrightarrow> s_variable_conflict s = Use_column \<and> m = Inr x"
  by (cases "s_variable_conflict s") (simp_all add: unqualified_def)

datatype step_grant = Reused step_row | Acquired step_row attempt_row

definition attempts_of :: "string \<Rightarrow> attempt_row list \<Rightarrow> attempt_row list" where
  "attempts_of sid rows = filter (\<lambda>a. da_step_id a = sid) rows"

text \<open>\<open>ORDER BY attempt DESC LIMIT 1\<close>; \<open>(step_id, attempt)\<close> is unique.\<close>

definition last_attempt :: "attempt_row list \<Rightarrow> attempt_row option" where
  "last_attempt rows = find (\<lambda>a. list_all (\<lambda>b. da_attempt b \<le> da_attempt a) rows) rows"

definition attempt_id :: "string \<Rightarrow> int \<Rightarrow> string" where
  "attempt_id sid n = sid @ '':attempt:'' @ int_text n"

definition new_step ::
  "int \<Rightarrow> string \<Rightarrow> string \<Rightarrow> string \<Rightarrow> string \<Rightarrow> string \<Rightarrow> string \<Rightarrow> int \<Rightarrow> int \<Rightarrow> step_row" where
  "new_step now sid tenant tid eid item key tv sv = \<lparr>ds_id = sid, ds_tenant_id = tenant,
    ds_task_id = tid, ds_execution_id = eid, ds_item_key = item, ds_step_key = key,
    ds_task_version = tv, ds_step_version = sv, ds_state = S_running, ds_result = None,
    ds_result_ref = None, ds_failure_reason = None, ds_attempt = 1, ds_version = 1,
    ds_created_at = now, ds_updated_at = now, ds_completed_at = None\<rparr>"

definition new_attempt ::
  "int \<Rightarrow> string \<Rightarrow> string \<Rightarrow> string \<Rightarrow> int \<Rightarrow> string \<Rightarrow> int \<Rightarrow> int \<Rightarrow> attempt_row" where
  "new_attempt now sid tenant eid n owner epoch leaseMs = \<lparr>da_id = attempt_id sid n,
    da_tenant_id = tenant, da_step_id = sid, da_execution_id = eid, da_attempt = n,
    da_state = A_running, da_lease_owner = owner, da_lease_epoch = epoch,
    da_lease_until = now + leaseMs, da_failure_reason = None, da_created_at = now,
    da_updated_at = now, da_completed_at = None\<rparr>"

definition step_restarted :: "int \<Rightarrow> string \<Rightarrow> step_row \<Rightarrow> step_row" where
  "step_restarted now eid r = r\<lparr>ds_execution_id := eid, ds_state := S_running,
    ds_failure_reason := None, ds_attempt := ds_attempt r + 1, ds_version := ds_version r + 1,
    ds_updated_at := now, ds_completed_at := None\<rparr>"

definition attempt_closed :: "int \<Rightarrow> attempt_state \<Rightarrow> string option \<Rightarrow> attempt_row \<Rightarrow> attempt_row" where
  "attempt_closed now st reason a = a\<lparr>da_state := st,
    da_failure_reason := (if reason = None then da_failure_reason a else reason),
    da_updated_at := now, da_completed_at := Some now\<rparr>"

text \<open>Inserts with their foreign keys.\<close>

definition insert_step :: "session \<Rightarrow> step_row \<Rightarrow> db \<Rightarrow> db res" where
  "insert_step s r d = bind_res (insert_row s step_table r (steps d)) (\<lambda>rows.
    if \<not> task_key_exists (ds_task_id r) (ds_tenant_id r) d \<or>
      \<not> execution_key_exists (ds_execution_id r) (ds_tenant_id r) d
    then Inl foreign_key_violation else Inr (d\<lparr>steps := rows\<rparr>))"

definition insert_attempt :: "session \<Rightarrow> attempt_row \<Rightarrow> db \<Rightarrow> db res" where
  "insert_attempt s a d = bind_res (insert_row s attempt_table a (step_attempts d)) (\<lambda>rows.
    if \<not> list_ex (\<lambda>r. ds_id r = da_step_id a \<and> ds_tenant_id r = da_tenant_id a) (steps d) \<or>
      \<not> execution_key_exists (da_execution_id a) (da_tenant_id a) d
    then Inl foreign_key_violation else Inr (d\<lparr>step_attempts := rows\<rparr>))"

definition update_step :: "session \<Rightarrow> string \<Rightarrow> (step_row \<Rightarrow> step_row) \<Rightarrow> db \<Rightarrow> db res" where
  "update_step s sid f d =
    bind_res (update_rows s step_table (\<lambda>r. ds_id r = sid) f (steps d)) (\<lambda>rows. Inr (d\<lparr>steps := rows\<rparr>))"

definition update_attempt :: "session \<Rightarrow> string \<Rightarrow> (attempt_row \<Rightarrow> attempt_row) \<Rightarrow> db \<Rightarrow> db res" where
  "update_attempt s aid f d =
    bind_res (update_rows s attempt_table (\<lambda>a. da_id a = aid) f (step_attempts d))
      (\<lambda>rows. Inr (d\<lparr>step_attempts := rows\<rparr>))"

definition select_step :: "session \<Rightarrow> string \<Rightarrow> db \<Rightarrow> step_row option" where
  "select_step s sid d = select_one s step_table (\<lambda>r. ds_id r = sid) (steps d)"

definition select_attempt :: "session \<Rightarrow> string \<Rightarrow> string \<Rightarrow> db \<Rightarrow> attempt_row option" where
  "select_attempt s aid sid d =
    select_one s attempt_table (\<lambda>a. da_id a = aid \<and> da_step_id a = sid) (step_attempts d)"

text \<open>The step exists: take it over, unless its result is there or its lease is held.\<close>

definition reacquire_step ::
  "session \<Rightarrow> int \<Rightarrow> task_row \<Rightarrow> step_row \<Rightarrow> string \<Rightarrow> string \<Rightarrow> int \<Rightarrow> int \<Rightarrow> string \<Rightarrow> int \<Rightarrow> int \<Rightarrow>
    step_grant command" where
  "reacquire_step s now v_task v_step p_execution_id v_step_key p_task_version p_step_version
      p_lease_owner p_lease_ms p_max_attempts d = (
    if ds_task_version v_step \<noteq> p_task_version \<or> ds_step_version v_step \<noteq> p_step_version
    then fail ''RHINOQ_DURABLE_STEP_VERSION_MISMATCH'' (''Step '' @ v_step_key @
      '' is stored as task version '' @ int_text (ds_task_version v_step) @ '', step version '' @
      int_text (ds_step_version v_step) @ ''; worker declared task version '' @
      int_text p_task_version @ '', step version '' @ int_text p_step_version @ ''.'')
    else if ds_state v_step = S_completed then Inr (Reused v_step, d)
    else if ds_state v_step = S_cancelled then fail ''RHINOQ_DURABLE_STEP_CANCELLED'' v_step_key
    else
      let v_previous = last_attempt (select_rows s attempt_table (\<lambda>a. da_step_id a = ds_id v_step)
          (step_attempts d)) in
      case v_previous of
        Some a \<Rightarrow>
          if da_state a = A_running \<and> da_lease_until a > now
          then fail ''RHINOQ_DURABLE_STEP_LEASE_HELD'' (''Step '' @ v_step_key @ '' is leased by '' @
            da_lease_owner a @ '' until '' @ int_text (da_lease_until a) @ ''.'')
          else if ds_attempt v_step \<ge> p_max_attempts
          then fail ''RHINOQ_DURABLE_STEP_RETRY_EXHAUSTED'' (''Step '' @ v_step_key @ '' used '' @
            int_text (ds_attempt v_step) @ '' of '' @ int_text p_max_attempts @ '' allowed attempts.'')
          else
            let at = new_attempt now (ds_id v_step) (t_tenant_id v_task) p_execution_id
              (ds_attempt v_step + 1) (btrim p_lease_owner) (da_lease_epoch a + 1) p_lease_ms in
            bind_res (if da_state a = A_running
                then unqualified s (update_attempt s (da_id a) (attempt_closed now A_expired None) d)
                else Inr d) (\<lambda>d1.
            bind_res (unqualified s (update_step s (ds_id v_step) (step_restarted now p_execution_id) d1)) (\<lambda>d2.
            bind_res (insert_attempt s at d2) (\<lambda>d3.
            bind_res (unqualified s (update_task s (t_id v_task) (touch_task now) d3)) (\<lambda>d'.
            Inr (Acquired (step_restarted now p_execution_id v_step) at, d')))))
      | None \<Rightarrow>
          if ds_attempt v_step \<ge> p_max_attempts
          then fail ''RHINOQ_DURABLE_STEP_RETRY_EXHAUSTED'' (''Step '' @ v_step_key @ '' used '' @
            int_text (ds_attempt v_step) @ '' of '' @ int_text p_max_attempts @ '' allowed attempts.'')
          else
            let at = new_attempt now (ds_id v_step) (t_tenant_id v_task) p_execution_id
              (ds_attempt v_step + 1) (btrim p_lease_owner) 1 p_lease_ms in
            bind_res (unqualified s (update_step s (ds_id v_step) (step_restarted now p_execution_id) d)) (\<lambda>d2.
            bind_res (insert_attempt s at d2) (\<lambda>d3.
            bind_res (unqualified s (update_task s (t_id v_task) (touch_task now) d3)) (\<lambda>d'.
            Inr (Acquired (step_restarted now p_execution_id v_step) at, d')))))"

definition start_step ::
  "session \<Rightarrow> int \<Rightarrow> task_row \<Rightarrow> string \<Rightarrow> string \<Rightarrow> string \<Rightarrow> string \<Rightarrow> int \<Rightarrow> int \<Rightarrow> string \<Rightarrow> int \<Rightarrow>
    step_grant command" where
  "start_step s now v_task p_id p_execution_id v_item_key v_step_key p_task_version p_step_version
      p_lease_owner p_lease_ms d = (
    let st = new_step now p_id (t_tenant_id v_task) (t_id v_task) p_execution_id v_item_key v_step_key
        p_task_version p_step_version;
      at = new_attempt now p_id (t_tenant_id v_task) p_execution_id 1 (btrim p_lease_owner) 1 p_lease_ms in
    bind_res (insert_step s st d) (\<lambda>d1.
    bind_res (insert_attempt s at d1) (\<lambda>d2.
    bind_res (unqualified s (update_task s (t_id v_task) (touch_task now) d2)) (\<lambda>d'.
    Inr (Acquired st at, d')))))"

definition acquire_durable_step ::
  "session \<Rightarrow> int \<Rightarrow> string \<Rightarrow> string \<Rightarrow> string \<Rightarrow> string option \<Rightarrow> int \<Rightarrow> string \<Rightarrow> int \<Rightarrow> string \<Rightarrow> int \<Rightarrow> int \<Rightarrow>
    step_grant command" where
  "acquire_durable_step s now p_id p_task_id p_execution_id p_item_key p_task_version p_step_key
      p_step_version p_lease_owner p_lease_ms p_max_attempts d = (
    let v_item_key = btrim (coalesce p_item_key ''default''); v_step_key = btrim p_step_key in
    if btrim p_id = '''' \<or> btrim p_task_id = '''' \<or> btrim p_execution_id = '''' \<or> v_item_key = '''' \<or>
      v_step_key = '''' \<or> len v_item_key > 256 \<or> len v_step_key > 256 \<or> p_task_version < 1 \<or>
      p_step_version < 1 \<or> btrim p_lease_owner = '''' \<or> p_lease_ms < 1000 \<or> p_lease_ms > 3600000 \<or>
      p_max_attempts < 1 \<or> p_max_attempts > 100
    then fail ''RHINOQ_INVALID_DURABLE_STEP'' ''''
    else (case select_task s p_task_id d of
      None \<Rightarrow> fail ''RHINOQ_TASK_NOT_FOUND'' p_task_id
    | Some v_task \<Rightarrow>
        if t_definition_version v_task \<noteq> p_task_version
        then fail ''RHINOQ_DURABLE_STEP_TASK_VERSION_MISMATCH'' (''Task definition is version '' @
          int_text (t_definition_version v_task) @ ''; worker declared version '' @
          int_text p_task_version @ ''.'')
        else (case select_one s execution_table
            (\<lambda>e. e_id e = p_execution_id \<and> e_task_id e = p_task_id) (executions d) of
          None \<Rightarrow> fail ''RHINOQ_DURABLE_STEP_EXECUTION_MISMATCH'' ''''
        | Some v_execution \<Rightarrow>
            if e_item_key v_execution \<noteq> v_item_key \<or> e_tenant_id v_execution \<noteq> t_tenant_id v_task
            then fail ''RHINOQ_DURABLE_STEP_EXECUTION_MISMATCH'' ''''
            else on_unique_violation (fail ''RHINOQ_DURABLE_STEP_ID_CONFLICT'' p_id)
              (case select_one s step_table (\<lambda>r. ds_task_id r = p_task_id \<and>
                  ds_item_key r = v_item_key \<and> ds_step_key r = v_step_key) (steps d) of
                None \<Rightarrow> start_step s now v_task p_id p_execution_id v_item_key v_step_key
                  p_task_version p_step_version p_lease_owner p_lease_ms d
              | Some v_step \<Rightarrow> reacquire_step s now v_task v_step p_execution_id v_step_key
                  p_task_version p_step_version p_lease_owner p_lease_ms p_max_attempts d))))"

text \<open>The lookups and the fence the four commands on a held lease share.\<close>

definition with_held_step ::
  "session \<Rightarrow> string \<Rightarrow> string \<Rightarrow> db \<Rightarrow> (step_row \<Rightarrow> attempt_row \<Rightarrow> 'a res) \<Rightarrow> 'a res" where
  "with_held_step s p_step_id p_attempt_id d k = (case select_step s p_step_id d of
      None \<Rightarrow> fail ''RHINOQ_DURABLE_STEP_NOT_FOUND'' p_step_id
    | Some v_step \<Rightarrow> (case select_attempt s p_attempt_id p_step_id d of
        None \<Rightarrow> fail ''RHINOQ_DURABLE_STEP_ATTEMPT_NOT_FOUND'' p_attempt_id
      | Some v_attempt \<Rightarrow> k v_step v_attempt))"

definition step_holder :: "string \<Rightarrow> int \<Rightarrow> attempt_row \<Rightarrow> bool" where
  "step_holder p_lease_owner p_lease_epoch a \<longleftrightarrow>
    da_lease_owner a = btrim p_lease_owner \<and> da_lease_epoch a = p_lease_epoch"

definition renew_durable_step ::
  "session \<Rightarrow> int \<Rightarrow> string \<Rightarrow> string \<Rightarrow> string \<Rightarrow> int \<Rightarrow> int \<Rightarrow> attempt_row command" where
  "renew_durable_step s now p_step_id p_attempt_id p_lease_owner p_lease_epoch p_lease_ms d = (
    if btrim p_step_id = '''' \<or> btrim p_attempt_id = '''' \<or> btrim p_lease_owner = '''' \<or>
      p_lease_epoch < 1 \<or> p_lease_ms < 1000 \<or> p_lease_ms > 3600000
    then fail ''RHINOQ_INVALID_DURABLE_STEP_RENEWAL'' ''''
    else with_held_step s p_step_id p_attempt_id d (\<lambda>v_step v_attempt.
      if ds_state v_step \<noteq> S_running \<or> da_state v_attempt \<noteq> A_running \<or>
        \<not> step_holder p_lease_owner p_lease_epoch v_attempt \<or> da_lease_until v_attempt \<le> now
      then fail ''RHINOQ_DURABLE_STEP_LEASE_FENCED'' p_step_id
      else
        let f = (\<lambda>a. a\<lparr>da_lease_until := now + p_lease_ms, da_updated_at := now\<rparr>) in
        bind_res (update_attempt s (da_id v_attempt) f d) (\<lambda>d'. Inr (f v_attempt, d'))))"

definition step_completed :: "int \<Rightarrow> string \<Rightarrow> string option \<Rightarrow> step_row \<Rightarrow> step_row" where
  "step_completed now res ref r = r\<lparr>ds_state := S_completed, ds_result := Some res,
    ds_result_ref := ref, ds_failure_reason := None, ds_version := ds_version r + 1,
    ds_updated_at := now, ds_completed_at := Some now\<rparr>"

definition trimmed_ref :: "string option \<Rightarrow> string option" where
  "trimmed_ref ref = (case ref of None \<Rightarrow> None | Some x \<Rightarrow> nullif (btrim x) '''')"

definition complete_durable_step ::
  "session \<Rightarrow> int \<Rightarrow> string \<Rightarrow> string \<Rightarrow> string \<Rightarrow> int \<Rightarrow> string \<Rightarrow> string option \<Rightarrow> step_row command" where
  "complete_durable_step s now p_step_id p_attempt_id p_lease_owner p_lease_epoch p_result p_result_ref d = (
    if btrim p_step_id = '''' \<or> btrim p_attempt_id = '''' \<or> btrim p_lease_owner = '''' \<or>
      p_lease_epoch < 1 \<or> len p_result > 65536 \<or> len (coalesce p_result_ref '''') > 2048
    then fail ''RHINOQ_INVALID_DURABLE_STEP_COMPLETION'' ''''
    else with_held_step s p_step_id p_attempt_id d (\<lambda>v_step v_attempt.
      if ds_state v_step = S_completed \<and> da_state v_attempt = A_completed \<and>
        step_holder p_lease_owner p_lease_epoch v_attempt \<and> ds_result v_step = Some p_result \<and>
        ds_result_ref v_step = trimmed_ref p_result_ref
      then Inr (v_step, d)
      else if ds_state v_step \<noteq> S_running \<or> da_state v_attempt \<noteq> A_running \<or>
        \<not> step_holder p_lease_owner p_lease_epoch v_attempt \<or> da_lease_until v_attempt < now
      then fail ''RHINOQ_DURABLE_STEP_LEASE_FENCED'' p_step_id
      else
        bind_res (update_attempt s (da_id v_attempt) (attempt_closed now A_completed None) d) (\<lambda>d1.
        bind_res (update_step s (ds_id v_step) (step_completed now p_result (trimmed_ref p_result_ref)) d1) (\<lambda>d2.
        bind_res (update_task s (ds_task_id v_step) (touch_task now) d2) (\<lambda>d'.
        Inr (step_completed now p_result (trimmed_ref p_result_ref) v_step, d'))))))"

definition reason_text :: "string \<Rightarrow> string option \<Rightarrow> string" where
  "reason_text dflt p_reason = left_text 2048 (coalesce (trimmed_ref p_reason) dflt)"

definition fail_durable_step ::
  "session \<Rightarrow> int \<Rightarrow> string \<Rightarrow> string \<Rightarrow> string \<Rightarrow> int \<Rightarrow> string option \<Rightarrow> step_row command" where
  "fail_durable_step s now p_step_id p_attempt_id p_lease_owner p_lease_epoch p_reason d = (
    let v_reason = reason_text ''Step handler failed.'' p_reason;
      f = (\<lambda>r. r\<lparr>ds_state := S_failed, ds_failure_reason := Some v_reason,
        ds_version := ds_version r + 1, ds_updated_at := now\<rparr>) in
    if btrim p_step_id = '''' \<or> btrim p_attempt_id = '''' \<or> btrim p_lease_owner = '''' \<or> p_lease_epoch < 1
    then fail ''RHINOQ_INVALID_DURABLE_STEP_FAILURE'' ''''
    else with_held_step s p_step_id p_attempt_id d (\<lambda>v_step v_attempt.
      if ds_state v_step \<in> {S_completed, S_failed} \<and> da_state v_attempt \<in> {A_completed, A_failed} \<and>
        step_holder p_lease_owner p_lease_epoch v_attempt
      then Inr (v_step, d)
      else if ds_state v_step \<noteq> S_running \<or> da_state v_attempt \<noteq> A_running \<or>
        \<not> step_holder p_lease_owner p_lease_epoch v_attempt \<or> da_lease_until v_attempt < now
      then fail ''RHINOQ_DURABLE_STEP_LEASE_FENCED'' p_step_id
      else
        bind_res (update_attempt s (da_id v_attempt) (attempt_closed now A_failed (Some v_reason)) d) (\<lambda>d1.
        bind_res (update_step s (ds_id v_step) f d1) (\<lambda>d2.
        bind_res (update_task s (ds_task_id v_step) (touch_task now) d2) (\<lambda>d'.
        Inr (f v_step, d'))))))"

definition cancel_durable_step ::
  "session \<Rightarrow> int \<Rightarrow> string \<Rightarrow> string \<Rightarrow> string \<Rightarrow> int \<Rightarrow> string option \<Rightarrow> step_row command" where
  "cancel_durable_step s now p_step_id p_attempt_id p_lease_owner p_lease_epoch p_reason d = (
    let v_reason = reason_text ''Task cancelled by user.'' p_reason;
      f = (\<lambda>r. r\<lparr>ds_state := S_cancelled, ds_failure_reason := Some v_reason,
        ds_version := ds_version r + 1, ds_updated_at := now, ds_completed_at := Some now\<rparr>) in
    if btrim p_step_id = '''' \<or> btrim p_attempt_id = '''' \<or> btrim p_lease_owner = '''' \<or> p_lease_epoch < 1
    then fail ''RHINOQ_INVALID_DURABLE_STEP_CANCELLATION'' ''''
    else with_held_step s p_step_id p_attempt_id d (\<lambda>v_step v_attempt.
      if ds_state v_step = S_cancelled \<and> da_state v_attempt = A_cancelled \<and>
        step_holder p_lease_owner p_lease_epoch v_attempt
      then Inr (v_step, d)
      else if ds_state v_step \<noteq> S_running \<or> da_state v_attempt \<noteq> A_running \<or>
        \<not> step_holder p_lease_owner p_lease_epoch v_attempt \<or> da_lease_until v_attempt < now
      then fail ''RHINOQ_DURABLE_STEP_LEASE_FENCED'' p_step_id
      else
        bind_res (update_attempt s (da_id v_attempt) (attempt_closed now A_cancelled (Some v_reason)) d) (\<lambda>d1.
        bind_res (update_step s (ds_id v_step) f d1) (\<lambda>d2.
        bind_res (update_task s (ds_task_id v_step) (touch_task now) d2) (\<lambda>d'.
        Inr (f v_step, d'))))))"

section \<open>Contract\<close>

lemma fair_step_rows:
  assumes "inv d \<Longrightarrow> table_ok step_table rows"
    and "inv d \<Longrightarrow> list_all (\<lambda>r. (ds_task_id r, ds_tenant_id r) \<in> set (task_keys d) \<and>
      (ds_execution_id r, ds_tenant_id r) \<in> set (exec_keys d)) rows"
    and "inv d \<Longrightarrow> rows_evolve step_evolves (steps d) rows"
    and "hidden s step_table rows = hidden s step_table (steps d)"
  shows "fair s d (d\<lparr>steps := rows\<rparr>)"
proof (rule fair_child)
  let ?d = "d\<lparr>steps := rows\<rparr>"
  show "waitpoints_ok ?d \<and> evidence_ok ?d \<and> outbox_ok ?d \<and> checkpoints_ok ?d \<and> steps_ok ?d \<and> leases_ok ?d"
    if i: "inv d"
  proof -
    have "set (map (\<lambda>r. (ds_id r, ds_tenant_id r)) (steps d)) \<subseteq> set (map (\<lambda>r. (ds_id r, ds_tenant_id r)) rows)"
      by (rule rows_evolve_keys [OF assms(3) [OF i]]) (simp add: step_evolves_def)
    then have "steps_ok ?d"
      using inv_parts(6) [OF i] assms(1,2) [OF i] by (auto simp: steps_ok_def list_all_iff)
    then show ?thesis using inv_parts [OF i] by simp
  qed
  show "children_evolve d ?d" if "inv d"
    using assms(3) [OF that] by (simp add: children_evolve_def rows_evolve_refl)
  show "hidden_db s ?d = hidden_db s d" using assms(4) by (simp add: hidden_db_def)
qed simp_all

lemma fair_attempt_rows:
  assumes "inv d \<Longrightarrow> table_ok attempt_table rows"
    and "inv d \<Longrightarrow> list_all (\<lambda>a. (da_step_id a, da_tenant_id a) \<in> (\<lambda>r. (ds_id r, ds_tenant_id r)) ` set (steps d) \<and>
      (da_execution_id a, da_tenant_id a) \<in> set (exec_keys d)) rows"
    and "inv d \<Longrightarrow> rows_evolve attempt_evolves (step_attempts d) rows"
    and "hidden s attempt_table rows = hidden s attempt_table (step_attempts d)"
  shows "fair s d (d\<lparr>step_attempts := rows\<rparr>)"
proof (rule fair_child)
  let ?d = "d\<lparr>step_attempts := rows\<rparr>"
  show "waitpoints_ok ?d \<and> evidence_ok ?d \<and> outbox_ok ?d \<and> checkpoints_ok ?d \<and> steps_ok ?d \<and> leases_ok ?d"
    if "inv d" using inv_parts [OF that] assms(1,2) [OF that] by (simp add: steps_ok_def)
  show "children_evolve d ?d" if "inv d"
    using assms(3) [OF that] by (simp add: children_evolve_def rows_evolve_refl)
  show "hidden_db s ?d = hidden_db s d" using assms(4) by (simp add: hidden_db_def)
qed simp_all

lemma steps_okD:
  assumes "inv d"
  shows "table_ok step_table (steps d)" and "table_ok attempt_table (step_attempts d)"
    and "r \<in> set (steps d) \<Longrightarrow> (ds_task_id r, ds_tenant_id r) \<in> set (task_keys d)"
    and "r \<in> set (steps d) \<Longrightarrow> (ds_execution_id r, ds_tenant_id r) \<in> set (exec_keys d)"
    and "a \<in> set (step_attempts d) \<Longrightarrow>
      (da_step_id a, da_tenant_id a) \<in> (\<lambda>r. (ds_id r, ds_tenant_id r)) ` set (steps d)"
    and "a \<in> set (step_attempts d) \<Longrightarrow> (da_execution_id a, da_tenant_id a) \<in> set (exec_keys d)"
  using inv_parts(6) [OF assms] by (auto simp: steps_ok_def list_all_iff)

lemma fair_insert_step:
  assumes "insert_step s r d = Inr d'"
  shows "fair s d d'"
proof -
  obtain rows where ins: "insert_row s step_table r (steps d) = Inr rows" and d': "d' = d\<lparr>steps := rows\<rparr>"
    and keys: "task_key_exists (ds_task_id r) (ds_tenant_id r) d" "execution_key_exists (ds_execution_id r) (ds_tenant_id r) d"
    using assms by (auto simp: insert_step_def split: if_splits)
  note I = insert_row_ok [OF ins]
  show ?thesis
    unfolding d'
  proof (rule fair_step_rows)
    show "hidden s step_table rows = hidden s step_table (steps d)" by (rule I(4))
    assume i: "inv d"
    show "table_ok step_table rows" by (rule I(3) [OF steps_okD(1) [OF i]])
    show "list_all (\<lambda>r. (ds_task_id r, ds_tenant_id r) \<in> set (task_keys d) \<and>
        (ds_execution_id r, ds_tenant_id r) \<in> set (exec_keys d)) rows"
      using steps_okD(3,4) [OF i] keys
      by (simp add: I(1) list_all_iff task_key_exists_keys execution_key_exists_keys)
    show "rows_evolve step_evolves (steps d) rows" by (simp add: I(1) rows_evolve_snoc)
  qed
qed

lemma fair_insert_attempt:
  assumes "insert_attempt s a d = Inr d'"
  shows "fair s d d'"
proof -
  obtain rows where ins: "insert_row s attempt_table a (step_attempts d) = Inr rows" and d': "d' = d\<lparr>step_attempts := rows\<rparr>"
    and keys: "list_ex (\<lambda>r. ds_id r = da_step_id a \<and> ds_tenant_id r = da_tenant_id a) (steps d)"
      "execution_key_exists (da_execution_id a) (da_tenant_id a) d"
    using assms by (auto simp: insert_attempt_def split: if_splits)
  note I = insert_row_ok [OF ins]
  show ?thesis
    unfolding d'
  proof (rule fair_attempt_rows)
    show "hidden s attempt_table rows = hidden s attempt_table (step_attempts d)" by (rule I(4))
    assume i: "inv d"
    show "table_ok attempt_table rows" by (rule I(3) [OF steps_okD(2) [OF i]])
    have parent: "(da_step_id a, da_tenant_id a) \<in> (\<lambda>r. (ds_id r, ds_tenant_id r)) ` set (steps d)"
      using keys(1) by (auto simp: list_ex_iff intro: rev_image_eqI)
    show "list_all (\<lambda>a. (da_step_id a, da_tenant_id a) \<in> (\<lambda>r. (ds_id r, ds_tenant_id r)) ` set (steps d) \<and>
        (da_execution_id a, da_tenant_id a) \<in> set (exec_keys d)) rows"
      using steps_okD(5,6) [OF i] parent keys(2)
      by (simp add: I(1) list_all_iff execution_key_exists_keys)
    show "rows_evolve attempt_evolves (step_attempts d) rows" by (simp add: I(1) rows_evolve_snoc)
  qed
qed

lemma fair_update_step:
  assumes upd: "update_step s (ds_id r) f d = Inr d'" and r: "r \<in> set (steps d)" "step_evolves r (f r)"
    and keep: "\<And>x. ds_task_id (f x) = ds_task_id x" "\<And>x. ds_tenant_id (f x) = ds_tenant_id x"
    and ex: "inv d \<Longrightarrow> (ds_execution_id (f r), ds_tenant_id r) \<in> set (exec_keys d)"
  shows "fair s d d'"
proof -
  obtain rows where rows: "update_rows s step_table (\<lambda>x. ds_id x = ds_id r) f (steps d) = Inr rows"
    and d': "d' = d\<lparr>steps := rows\<rparr>"
    using upd by (auto simp: update_step_def)
  note R = update_rows_ok [OF rows]
  show ?thesis
    unfolding d'
  proof (rule fair_step_rows)
    show "hidden s step_table rows = hidden s step_table (steps d)"
      by (rule hidden_update_rows [OF rows]) (simp add: keep)
    assume i: "inv d"
    have same: "x = r" if "x \<in> set (steps d)" "ds_id x = ds_id r" for x
      using step_key.key_inj [OF steps_okD(1) [OF i] that(1) r(1) that(2)] .
    have ex': "(ds_execution_id (f x), ds_tenant_id x) \<in> set (exec_keys d)"
      if "x \<in> set (steps d)" "ds_id x = ds_id r" for x
      using same [OF that] ex [OF i] by simp
    show "table_ok step_table rows" by (rule R(2) [OF steps_okD(1) [OF i]])
    show "list_all (\<lambda>r. (ds_task_id r, ds_tenant_id r) \<in> set (task_keys d) \<and>
        (ds_execution_id r, ds_tenant_id r) \<in> set (exec_keys d)) rows"
      unfolding R(1) list_all_iff
      using steps_okD(3,4) [OF i] ex' by (auto simp: keep elim!: in_upd_whereE)
    show "rows_evolve step_evolves (steps d) rows"
      unfolding R(1) by (rule rows_evolve_upd_where) (use same r(2) in auto)
  qed
qed

lemma fair_update_attempt:
  assumes upd: "update_attempt s (da_id a) f d = Inr d'"
    and a: "a \<in> set (step_attempts d)" "attempt_evolves a (f a)"
    and keep: "\<And>x. da_tenant_id (f x) = da_tenant_id x" "\<And>x. da_step_id (f x) = da_step_id x"
      "\<And>x. da_execution_id (f x) = da_execution_id x"
  shows "fair s d d'"
proof -
  obtain rows where rows: "update_rows s attempt_table (\<lambda>x. da_id x = da_id a) f (step_attempts d) = Inr rows"
    and d': "d' = d\<lparr>step_attempts := rows\<rparr>"
    using upd by (auto simp: update_attempt_def)
  note R = update_rows_ok [OF rows]
  show ?thesis
    unfolding d'
  proof (rule fair_attempt_rows)
    show "hidden s attempt_table rows = hidden s attempt_table (step_attempts d)"
      by (rule hidden_update_rows [OF rows]) (simp add: keep)
    assume i: "inv d"
    have same: "x = a" if "x \<in> set (step_attempts d)" "da_id x = da_id a" for x
      using attempt_key.key_inj [OF steps_okD(2) [OF i] that(1) a(1) that(2)] .
    show "table_ok attempt_table rows" by (rule R(2) [OF steps_okD(2) [OF i]])
    show "list_all (\<lambda>a. (da_step_id a, da_tenant_id a) \<in> (\<lambda>r. (ds_id r, ds_tenant_id r)) ` set (steps d) \<and>
        (da_execution_id a, da_tenant_id a) \<in> set (exec_keys d)) rows"
      unfolding R(1) list_all_iff
      using steps_okD(5,6) [OF i] by (auto simp: keep elim!: in_upd_whereE)
    show "rows_evolve attempt_evolves (step_attempts d) rows"
      unfolding R(1) by (rule rows_evolve_upd_where) (use same a(2) in auto)
  qed
qed

text \<open>What the statements leave of the other tables.\<close>

lemma step_stmt_quiet:
  "insert_step s r d = Inr d' \<Longrightarrow> quiet_leases d d'"
  "insert_attempt s a d = Inr d' \<Longrightarrow> quiet_leases d d'"
  "update_step s sid f d = Inr d' \<Longrightarrow> quiet_leases d d'"
  "update_attempt s aid g d = Inr d' \<Longrightarrow> quiet_leases d d'"
  by (auto simp: insert_step_def insert_attempt_def update_step_def update_attempt_def quiet_leases_def
      split: if_splits)

lemma touch_quiet:
  assumes "update_task s tid (touch_task now) d = Inr d'"
  shows "quiet_leases d d'" and "quiet_steps d d'"
  using rest_fields [OF update_tasksD(3) [OF assms]] by (simp_all add: quiet_leases_def quiet_steps_def)

lemma quiet_leases_trans: "quiet_leases d d1 \<Longrightarrow> quiet_leases d1 d2 \<Longrightarrow> quiet_leases d d2"
  by (simp add: quiet_leases_def)

section \<open>The history of a step\<close>

text \<open>
  Attempts are numbered from 1 and their epochs follow the numbers; the last attempt is in the
  state of the step, and no earlier attempt is running.
\<close>

fun states_match :: "step_state \<Rightarrow> attempt_state \<Rightarrow> bool" where
  "states_match S_running st = (st = A_running)"
| "states_match S_completed st = (st = A_completed)"
| "states_match S_failed st = (st = A_failed)"
| "states_match S_cancelled st = (st = A_cancelled)"
| "states_match S_pending st = False"

definition step_history :: "step_row \<Rightarrow> attempt_row list \<Rightarrow> bool" where
  "step_history r as \<longleftrightarrow>
    list_all (\<lambda>a. 1 \<le> da_attempt a \<and> da_attempt a \<le> ds_attempt r \<and> da_lease_epoch a = da_attempt a) as \<and>
    list_ex (\<lambda>a. da_attempt a = ds_attempt r \<and> states_match (ds_state r) (da_state a)) as \<and>
    list_all (\<lambda>a. da_attempt a < ds_attempt r \<longrightarrow> da_state a \<noteq> A_running) as"

definition steps_inv :: "db \<Rightarrow> bool" where
  "steps_inv d \<longleftrightarrow> list_all (\<lambda>r. step_history r (attempts_of (ds_id r) (step_attempts d))) (steps d)"

lemma attempts_of_upd_where:
  "(\<And>x. da_step_id (f x) = da_step_id x) \<Longrightarrow>
    attempts_of sid (upd_where p f rows) = upd_where p f (attempts_of sid rows)"
  by (induction rows) (auto simp: attempts_of_def upd_where_def)

lemma last_attemptD: "last_attempt rows = Some a \<Longrightarrow> a \<in> set rows \<and> (\<forall>b \<in> set rows. da_attempt b \<le> da_attempt a)"
  unfolding last_attempt_def by (erule find_SomeE) (simp add: list_all_iff)

lemma last_attempt_exists: "rows \<noteq> [] \<Longrightarrow> \<exists>a. last_attempt rows = Some a"
proof -
  have "\<exists>a \<in> set rows. \<forall>b \<in> set rows. da_attempt b \<le> da_attempt a" if "rows \<noteq> []"
    using that
  proof (induction rows rule: list_nonempty_induct)
    case (cons x xs)
    then obtain a where "a \<in> set xs" "\<forall>b \<in> set xs. da_attempt b \<le> da_attempt a" by auto
    then show ?case by (cases "da_attempt x \<le> da_attempt a") (auto intro: order_trans)
  qed simp
  then show "rows \<noteq> [] \<Longrightarrow> \<exists>a. last_attempt rows = Some a"
    unfolding last_attempt_def by (cases "find (\<lambda>a. list_all (\<lambda>b. da_attempt b \<le> da_attempt a) rows) rows")
      (auto simp: find_None_iff list_all_iff)
qed

lemma steps_invD: "steps_inv d \<Longrightarrow> r \<in> set (steps d) \<Longrightarrow> step_history r (attempts_of (ds_id r) (step_attempts d))"
  by (simp add: steps_inv_def list_all_iff)

text \<open>The attempts of a step belong to its tenant.\<close>

lemma attempt_tenant:
  assumes "inv d" and "r \<in> set (steps d)" and "a \<in> set (step_attempts d)" and "da_step_id a = ds_id r"
  shows "da_tenant_id a = ds_tenant_id r"
proof -
  obtain q where "q \<in> set (steps d)" "da_step_id a = ds_id q" "da_tenant_id a = ds_tenant_id q"
    using steps_okD(5) [OF assms(1,3)] by auto
  then show ?thesis using step_key.key_inj [OF steps_okD(1) [OF assms(1)]] assms(2,4) by metis
qed

lemma attempt_unique:
  assumes "inv d" and "a \<in> set (step_attempts d)" "b \<in> set (step_attempts d)"
    and "da_step_id a = da_step_id b" "da_attempt a = da_attempt b"
  shows "a = b"
proof (rule ccontr)
  assume ne: "a \<noteq> b"
  obtain i j where ij: "i < length (step_attempts d)" "step_attempts d ! i = a"
    "j < length (step_attempts d)" "step_attempts d ! j = b"
    using assms(2,3) by (auto simp: in_set_conv_nth)
  then have "i \<noteq> j" using ne by auto
  moreover have "\<not> tb_conflict attempt_table (step_attempts d ! i) (step_attempts d ! j)"
    if "i < j" "j < length (step_attempts d)" for i j
    using steps_okD(2) [OF assms(1)] that
    by (auto simp: table_ok_def unique_by_def sorted_wrt_iff_nth_less)
  ultimately have "\<not> tb_conflict attempt_table a b \<or> \<not> tb_conflict attempt_table b a"
    using ij by (metis linorder_neqE_nat)
  then show False using assms(4,5) by (simp add: tables)
qed

text \<open>A step of the database moves; the attempts of other steps stay.\<close>

lemma steps_inv_move:
  assumes i: "inv d" and h: "steps_inv d" and r: "r \<in> set (steps d)"
    and st: "steps d' = upd_where (\<lambda>x. ds_id x = ds_id r) f (steps d)" and f: "\<And>x. ds_id (f x) = ds_id x"
    and other: "\<And>sid. sid \<noteq> ds_id r \<Longrightarrow> attempts_of sid (step_attempts d') = attempts_of sid (step_attempts d)"
    and own: "step_history (f r) (attempts_of (ds_id r) (step_attempts d'))"
  shows "steps_inv d'"
  unfolding steps_inv_def list_all_iff
proof
  fix x
  assume "x \<in> set (steps d')"
  then obtain q where q: "q \<in> set (steps d)" "x = (if ds_id q = ds_id r then f q else q)"
    unfolding st by (rule in_upd_whereE)
  show "step_history x (attempts_of (ds_id x) (step_attempts d'))"
  proof (cases "ds_id q = ds_id r")
    case True
    then have "q = r" using step_key.key_inj [OF steps_okD(1) [OF i] q(1) r] by simp
    then show ?thesis using own q(2) f by simp
  next
    case False
    then show ?thesis using other [OF False] steps_invD [OF h q(1)] q(2) by simp
  qed
qed

lemma update_stepD:
  assumes "update_step s (ds_id r) f d = Inr d'" and "inv d" and "r \<in> set (steps d)" "visible s (ds_tenant_id r)"
  shows "steps d' = upd_where (\<lambda>x. ds_id x = ds_id r) f (steps d)" and "step_attempts d' = step_attempts d"
  using assms step_key.update_by_key [OF _ steps_okD(1) [OF assms(2)], of s r f]
  by (auto simp: update_step_def)

lemma update_attemptD:
  assumes "update_attempt s (da_id a) f d = Inr d'" and "inv d" and "a \<in> set (step_attempts d)" "visible s (da_tenant_id a)"
  shows "step_attempts d' = upd_where (\<lambda>x. da_id x = da_id a) f (step_attempts d)" and "steps d' = steps d"
  using assms attempt_key.update_by_key [OF _ steps_okD(2) [OF assms(2)], of s a f]
  by (auto simp: update_attempt_def)

lemma attempts_of_other:
  assumes "inv d" and a: "a \<in> set (step_attempts d)" and "sid \<noteq> da_step_id a"
    and keep: "\<And>x. da_step_id (f x) = da_step_id x"
  shows "attempts_of sid (upd_where (\<lambda>x. da_id x = da_id a) f (step_attempts d)) = attempts_of sid (step_attempts d)"
  unfolding attempts_of_upd_where [OF keep]
proof (rule upd_where_none)
  fix x
  assume "x \<in> set (attempts_of sid (step_attempts d))"
  then show "da_id x \<noteq> da_id a"
    using attempt_key.key_inj [OF steps_okD(2) [OF assms(1)] _ a] assms(3) by (auto simp: attempts_of_def)
qed

section \<open>Every step command keeps contract and history\<close>

definition step_good :: "session \<Rightarrow> db \<Rightarrow> db \<Rightarrow> bool" where
  "step_good s d d' \<longleftrightarrow> fair s d d' \<and> quiet_leases d d' \<and> (inv d \<longrightarrow> steps_inv d \<longrightarrow> steps_inv d')"

definition sound_steps :: "session \<Rightarrow> 'a command \<Rightarrow> bool" where
  "sound_steps s c \<longleftrightarrow> (\<forall>d x d'. c d = Inr (x, d') \<longrightarrow> step_good s d d')"

lemma step_good_refl [simp]: "step_good s d d"
  by (simp add: step_good_def)

lemma steps_inv_cong: "quiet_steps d d' \<Longrightarrow> steps_inv d' = steps_inv d"
  by (simp add: quiet_steps_def steps_inv_def)

lemma select_stepD:
  assumes "select_step s sid d = Some r"
  shows "r \<in> set (steps d)" "visible s (ds_tenant_id r)" "ds_id r = sid"
  using select_one_SomeD [OF assms [unfolded select_step_def]] by simp_all

lemma select_attemptD:
  assumes "select_attempt s aid sid d = Some a"
  shows "a \<in> set (step_attempts d)" "visible s (da_tenant_id a)" "da_id a = aid" "da_step_id a = sid"
  using select_one_SomeD [OF assms [unfolded select_attempt_def]] by simp_all

lemma attempt_closed_keep [simp]:
  "da_id (attempt_closed now st reason a) = da_id a"
  "da_step_id (attempt_closed now st reason a) = da_step_id a"
  "da_tenant_id (attempt_closed now st reason a) = da_tenant_id a"
  "da_execution_id (attempt_closed now st reason a) = da_execution_id a"
  "da_attempt (attempt_closed now st reason a) = da_attempt a"
  "da_lease_epoch (attempt_closed now st reason a) = da_lease_epoch a"
  "da_state (attempt_closed now st reason a) = st"
  "da_state a = A_running \<Longrightarrow> attempt_evolves a (attempt_closed now st reason a)"
  by (simp_all add: attempt_closed_def attempt_evolves_def)

text \<open>Completion, failure and cancellation close the running attempt and the step together.\<close>

lemma history_close:
  assumes h: "step_history r as" and a: "a \<in> set as" "da_state a = A_running"
    and uniq: "\<And>x. x \<in> set as \<Longrightarrow> da_id x = da_id a \<Longrightarrow> x = a"
    and q: "ds_attempt q = ds_attempt r" "states_match (ds_state q) st"
  shows "step_history q (upd_where (\<lambda>x. da_id x = da_id a) (attempt_closed now st reason) as)"
proof -
  have last: "da_attempt a = ds_attempt r"
    using h a by (force simp: step_history_def list_all_iff)
  let ?as = "upd_where (\<lambda>x. da_id x = da_id a) (attempt_closed now st reason) as"
  have "attempt_closed now st reason a \<in> set ?as" using a(1) by (auto simp: set_upd_where)
  then have "list_ex (\<lambda>a. da_attempt a = ds_attempt q \<and> states_match (ds_state q) (da_state a)) ?as"
    using last q by (auto simp: list_ex_iff intro!: bexI [of _ "attempt_closed now st reason a"])
  moreover have "\<forall>x \<in> set ?as. da_attempt x < ds_attempt q \<longrightarrow> da_state x \<noteq> A_running"
    using h last uniq q(1) by (fastforce simp: step_history_def list_all_iff elim!: in_upd_whereE)
  moreover have "\<forall>x \<in> set ?as. 1 \<le> da_attempt x \<and> da_attempt x \<le> ds_attempt q \<and> da_lease_epoch x = da_attempt x"
    using h q(1) by (auto simp: step_history_def list_all_iff elim!: in_upd_whereE)
  ultimately show ?thesis by (simp add: step_history_def list_all_iff)
qed

lemma close_step_good:
  assumes r: "select_step s sid d = Some r" and a: "select_attempt s aid sid d = Some a" "da_state a = A_running"
    and u1: "update_attempt s (da_id a) (attempt_closed now st reason) d = Inr d1"
    and u2: "update_step s (ds_id r) f d1 = Inr d2"
    and u3: "update_task s tid (touch_task now) d2 = Inr d'"
    and f: "\<And>x. ds_id (f x) = ds_id x" "\<And>x. ds_task_id (f x) = ds_task_id x" "\<And>x. ds_tenant_id (f x) = ds_tenant_id x"
      "ds_execution_id (f r) = ds_execution_id r" "ds_attempt (f r) = ds_attempt r"
      "states_match (ds_state (f r)) st" "step_evolves r (f r)"
  shows "step_good s d d'"
proof -
  note R = select_stepD [OF r] and A = select_attemptD [OF a(1)]
  have f1: "fair s d d1" by (rule fair_update_attempt [OF u1 A(1)]) (simp_all add: a(2))
  have st1: "steps d1 = steps d" using u1 by (auto simp: update_attempt_def)
  have f2: "fair s d1 d2"
    by (rule fair_update_step [OF u2 _ f(7) f(2,3)]) (use R(1) st1 steps_okD(4) [of d1 r] f(4) in auto)
  have f3: "fair s d2 d'" by (rule good_fair [OF good_touch [OF u3]])
  have "fair s d d'" by (rule fair_trans [OF fair_trans [OF f1 f2] f3])
  moreover have "quiet_leases d d'"
    by (rule quiet_leases_trans [OF quiet_leases_trans [OF step_stmt_quiet(4) [OF u1] step_stmt_quiet(3) [OF u2]]
          touch_quiet(1) [OF u3]])
  moreover have "steps_inv d'" if i: "inv d" and h: "steps_inv d"
  proof -
    note D1 = update_attemptD [OF u1 i A(1,2)]
    note i1 = fairD(1) [OF f1 i]
    have D2: "steps d2 = upd_where (\<lambda>x. ds_id x = ds_id r) f (steps d)" "step_attempts d2 = step_attempts d1"
      using update_stepD [OF u2 i1] R(1,2) st1 by simp_all
    have "steps_inv d2"
    proof (rule steps_inv_move [OF i h R(1) D2(1) f(1)])
      show "attempts_of x (step_attempts d2) = attempts_of x (step_attempts d)" if "x \<noteq> ds_id r" for x
        unfolding D2(2) D1(1) by (rule attempts_of_other [OF i A(1)]) (use that A(4) R(3) in simp_all)
      have "step_history (f r) (upd_where (\<lambda>x. da_id x = da_id a) (attempt_closed now st reason)
          (attempts_of (ds_id r) (step_attempts d)))"
      proof (rule history_close [OF steps_invD [OF h R(1)] _ a(2) _ f(5,6)])
        show "a \<in> set (attempts_of (ds_id r) (step_attempts d))" using A R(3) by (simp add: attempts_of_def)
        show "x = a" if "x \<in> set (attempts_of (ds_id r) (step_attempts d))" "da_id x = da_id a" for x
          using attempt_key.key_inj [OF steps_okD(2) [OF i] _ A(1) that(2)] that(1) by (simp add: attempts_of_def)
      qed
      then show "step_history (f r) (attempts_of (ds_id r) (step_attempts d2))"
        unfolding D2(2) D1(1) by (simp add: attempts_of_upd_where)
    qed
    then show ?thesis using steps_inv_cong [OF touch_quiet(2) [OF u3]] by simp
  qed
  ultimately show ?thesis by (simp add: step_good_def)
qed

lemma with_held_step_Inr:
  "with_held_step s sid aid d k = Inr x \<longleftrightarrow> (\<exists>r a. select_step s sid d = Some r \<and>
    select_attempt s aid sid d = Some a \<and> k r a = Inr x)"
  by (auto simp: with_held_step_def split: option.splits)

lemma complete_durable_step_sound [cmd_inv]: "sound_steps s (complete_durable_step s now sid aid owner epoch res ref)"
  unfolding sound_steps_def
proof (intro allI impI)
  fix d x d'
  assume c: "complete_durable_step s now sid aid owner epoch res ref d = Inr (x, d')"
  show "step_good s d d'"
  proof (cases "d' = d")
    case False
    with c obtain r a d1 d2 where r: "select_step s sid d = Some r" "ds_state r = S_running"
      and a: "select_attempt s aid sid d = Some a" "da_state a = A_running"
      and u1: "update_attempt s (da_id a) (attempt_closed now A_completed None) d = Inr d1"
      and u2: "update_step s (ds_id r) (step_completed now res (trimmed_ref ref)) d1 = Inr d2"
      and u3: "update_task s (ds_task_id r) (touch_task now) d2 = Inr d'"
      unfolding complete_durable_step_def by (auto simp: with_held_step_Inr split: if_split_asm)
    show ?thesis
      by (rule close_step_good [OF r(1) a u1 u2 u3]) (simp_all add: step_completed_def step_evolves_def r(2))
  qed simp
qed

lemma fail_durable_step_sound [cmd_inv]: "sound_steps s (fail_durable_step s now sid aid owner epoch reason)"
  unfolding sound_steps_def
proof (intro allI impI)
  fix d x d'
  assume c: "fail_durable_step s now sid aid owner epoch reason d = Inr (x, d')"
  show "step_good s d d'"
  proof (cases "d' = d")
    case False
    with c obtain r a d1 d2 where r: "select_step s sid d = Some r" "ds_state r = S_running"
      and a: "select_attempt s aid sid d = Some a" "da_state a = A_running"
      and u1: "update_attempt s (da_id a) (attempt_closed now A_failed (Some (reason_text ''Step handler failed.'' reason))) d = Inr d1"
      and u2: "update_step s (ds_id r) (\<lambda>r. r\<lparr>ds_state := S_failed,
        ds_failure_reason := Some (reason_text ''Step handler failed.'' reason),
        ds_version := ds_version r + 1, ds_updated_at := now\<rparr>) d1 = Inr d2"
      and u3: "update_task s (ds_task_id r) (touch_task now) d2 = Inr d'"
      unfolding fail_durable_step_def Let_def by (auto simp: with_held_step_Inr split: if_split_asm)
    show ?thesis
      by (rule close_step_good [OF r(1) a u1 u2 u3]) (simp_all add: step_evolves_def r(2))
  qed simp
qed

lemma cancel_durable_step_sound [cmd_inv]: "sound_steps s (cancel_durable_step s now sid aid owner epoch reason)"
  unfolding sound_steps_def
proof (intro allI impI)
  fix d x d'
  assume c: "cancel_durable_step s now sid aid owner epoch reason d = Inr (x, d')"
  show "step_good s d d'"
  proof (cases "d' = d")
    case False
    with c obtain r a d1 d2 where r: "select_step s sid d = Some r" "ds_state r = S_running"
      and a: "select_attempt s aid sid d = Some a" "da_state a = A_running"
      and u1: "update_attempt s (da_id a) (attempt_closed now A_cancelled (Some (reason_text ''Task cancelled by user.'' reason))) d = Inr d1"
      and u2: "update_step s (ds_id r) (\<lambda>r. r\<lparr>ds_state := S_cancelled,
        ds_failure_reason := Some (reason_text ''Task cancelled by user.'' reason),
        ds_version := ds_version r + 1, ds_updated_at := now, ds_completed_at := Some now\<rparr>) d1 = Inr d2"
      and u3: "update_task s (ds_task_id r) (touch_task now) d2 = Inr d'"
      unfolding cancel_durable_step_def Let_def by (auto simp: with_held_step_Inr split: if_split_asm)
    show ?thesis
      by (rule close_step_good [OF r(1) a u1 u2 u3]) (simp_all add: step_evolves_def r(2))
  qed simp
qed

lemma history_same:
  assumes "\<And>x. da_attempt (f x) = da_attempt x" "\<And>x. da_lease_epoch (f x) = da_lease_epoch x"
    "\<And>x. da_state (f x) = da_state x"
  shows "step_history r (upd_where p f as) = step_history r as"
proof -
  have "list_all P (upd_where p f as) = list_all P as" "list_ex P (upd_where p f as) = list_ex P as"
    if "\<And>x. P (f x) = P x" for P :: "attempt_row \<Rightarrow> bool"
    using that by (induction as) (simp_all add: upd_where_def)
  then show ?thesis by (simp add: step_history_def assms)
qed

lemma renew_durable_step_sound [cmd_inv]:
  "sound_steps s (renew_durable_step s now sid aid owner epoch leaseMs)"
  unfolding sound_steps_def
proof (intro allI impI)
  fix d x d'
  let ?f = "\<lambda>a. a\<lparr>da_lease_until := now + leaseMs, da_updated_at := now\<rparr>"
  assume c: "renew_durable_step s now sid aid owner epoch leaseMs d = Inr (x, d')"
  then obtain a where a: "select_attempt s aid sid d = Some a" "da_state a = A_running"
    and u: "update_attempt s (da_id a) ?f d = Inr d'"
    unfolding renew_durable_step_def Let_def by (auto simp: with_held_step_Inr split: if_split_asm)
  note A = select_attemptD [OF a(1)]
  have "fair s d d'"
    by (rule fair_update_attempt [OF u A(1)]) (simp_all add: attempt_evolves_def a(2))
  moreover have "steps_inv d'" if i: "inv d" and h: "steps_inv d"
    using h by (simp add: steps_inv_def update_attemptD [OF u i A(1,2)] attempts_of_upd_where history_same)
  ultimately show "step_good s d d'" using step_stmt_quiet(4) [OF u] by (simp add: step_good_def)
qed

lemma start_step_good:
  assumes c: "start_step s now t sid eid item key tv sv owner leaseMs d = Inr (x, d')"
  shows "step_good s d d'"
proof -
  let ?st = "new_step now sid (t_tenant_id t) (t_id t) eid item key tv sv"
  let ?at = "new_attempt now sid (t_tenant_id t) eid 1 (btrim owner) 1 leaseMs"
  obtain d1 d2 where u1: "insert_step s ?st d = Inr d1" and u2: "insert_attempt s ?at d1 = Inr d2"
    and u3: "update_task s (t_id t) (touch_task now) d2 = Inr d'"
    using c by (auto simp: start_step_def Let_def)
  have "fair s d d'"
    by (rule fair_trans [OF fair_trans [OF fair_insert_step [OF u1] fair_insert_attempt [OF u2]]
          good_fair [OF good_touch [OF u3]]])
  moreover have "quiet_leases d d'"
    by (rule quiet_leases_trans [OF quiet_leases_trans [OF step_stmt_quiet(1) [OF u1] step_stmt_quiet(2) [OF u2]]
          touch_quiet(1) [OF u3]])
  moreover have "steps_inv d'" if i: "inv d" and h: "steps_inv d"
  proof -
    have st: "steps d2 = steps d @ [?st]" "step_attempts d2 = step_attempts d @ [?at]"
      using u1 u2 by (auto simp: insert_step_def insert_attempt_def split: if_splits dest!: insert_row_ok(1))
    have "table_ok step_table (steps d @ [?st])"
      using u1 steps_okD(1) [OF i] by (auto simp: insert_step_def split: if_splits dest: insert_row_ok)
    then have fresh: "ds_id r \<noteq> sid" if "r \<in> set (steps d)" for r
      using step_key.distinct_keys [of "steps d @ [?st]"] that by (auto simp: new_step_def)
    have none: "attempts_of sid (step_attempts d) = []"
      using steps_okD(5) [OF i] fresh by (fastforce simp: attempts_of_def filter_empty_conv)
    have ao: "attempts_of x (step_attempts d2) = attempts_of x (step_attempts d) @ (if x = sid then [?at] else [])" for x
      by (auto simp: st(2) attempts_of_def new_attempt_def)
    have "step_history ?st (attempts_of (ds_id ?st) (step_attempts d2))"
      unfolding ao by (simp add: none new_step_def new_attempt_def step_history_def)
    moreover have "step_history r (attempts_of (ds_id r) (step_attempts d2))" if "r \<in> set (steps d)" for r
      unfolding ao using steps_invD [OF h that] fresh [OF that] by simp
    ultimately have "steps_inv d2" by (simp add: steps_inv_def st(1) list_all_iff)
    then show ?thesis using steps_inv_cong [OF touch_quiet(2) [OF u3]] by simp
  qed
  ultimately show ?thesis by (simp add: step_good_def)
qed

text \<open>Taking a step over: the previous attempt is over or expires, a new one follows it.\<close>

lemma history_restart:
  assumes h: "step_history r as" and a: "a \<in> set as" "\<forall>b \<in> set as. da_attempt b \<le> da_attempt a"
    and uniq: "\<And>x. x \<in> set as \<Longrightarrow> da_attempt x = da_attempt a \<Longrightarrow> x = a"
    and as': "as' = (if da_state a = A_running then upd_where (\<lambda>x. da_id x = da_id a) (attempt_closed now A_expired None) as else as)"
    and r': "ds_attempt r' = ds_attempt r + 1" "ds_state r' = S_running"
    and n: "da_attempt n = ds_attempt r + 1" "da_lease_epoch n = da_lease_epoch a + 1" "da_state n = A_running"
  shows "step_history r' (as' @ [n])"
proof -
  have last: "da_attempt a = ds_attempt r"
    using h a by (force simp: step_history_def list_all_iff list_ex_iff)
  have old: "da_attempt x \<le> ds_attempt r \<and> 1 \<le> da_attempt x \<and> da_lease_epoch x = da_attempt x"
    if "x \<in> set as'" for x
    using that h by (auto simp: as' step_history_def list_all_iff elim!: in_upd_whereE split: if_splits)
  have stopped: "da_state x \<noteq> A_running" if "x \<in> set as'" for x
  proof (cases "da_state a = A_running")
    case True
    then have "x \<in> set (upd_where (\<lambda>x. da_id x = da_id a) (attempt_closed now A_expired None) as)"
      using that by (simp add: as')
    then obtain y where y: "y \<in> set as" "x = (if da_id y = da_id a then attempt_closed now A_expired None y else y)"
      by (rule in_upd_whereE)
    show ?thesis
    proof (cases "da_id y = da_id a")
      case False
      then have "da_attempt y \<noteq> da_attempt a" using uniq [OF y(1)] by auto
      then have "da_attempt y < ds_attempt r" using a(2) y(1) last by force
      then show ?thesis using h y False by (auto simp: step_history_def list_all_iff)
    qed (simp add: y(2))
  next
    case False
    then have "x \<in> set as" using that by (simp add: as')
    then show ?thesis
      using False h uniq [of x] last by (fastforce simp: step_history_def list_all_iff)
  qed
  have "da_lease_epoch a = da_attempt a" using h a(1) by (auto simp: step_history_def list_all_iff)
  then show ?thesis
    using old stopped r' n last a(1) h
    by (fastforce simp: step_history_def list_all_iff)
qed

lemma step_restarted_keep [simp]:
  "ds_id (step_restarted now eid r) = ds_id r" "ds_task_id (step_restarted now eid r) = ds_task_id r"
  "ds_tenant_id (step_restarted now eid r) = ds_tenant_id r"
  "ds_execution_id (step_restarted now eid r) = eid"
  "ds_attempt (step_restarted now eid r) = ds_attempt r + 1"
  "ds_state (step_restarted now eid r) = S_running"
  "ds_state r \<notin> {S_completed, S_cancelled} \<Longrightarrow> step_evolves r (step_restarted now eid r)"
  by (simp_all add: step_restarted_def step_evolves_def)

text \<open>The last three statements of a takeover, after the previous attempt has been dealt with.\<close>

lemma restart_fair:
  assumes f1: "fair s d d1" "quiet_leases d d1" "steps d1 = steps d"
    and r: "r \<in> set (steps d)" "ds_state r \<notin> {S_completed, S_cancelled}"
    and ex: "inv d \<Longrightarrow> (eid, ds_tenant_id r) \<in> set (exec_keys d)" "exec_keys d1 = exec_keys d"
    and u2: "update_step s (ds_id r) (step_restarted now eid) d1 = Inr d2"
    and u3: "insert_attempt s at d2 = Inr d3" and u4: "update_task s tid (touch_task now) d3 = Inr d'"
  shows "fair s d d'" and "quiet_leases d d'"
proof -
  have "fair s d d2" if "inv d"
    by (rule fair_trans [OF f1(1)], rule fair_update_step [OF u2])
      (use r f1(3) ex(1) [OF that] ex(2) in simp_all)
  then have "fair s d d2" by (auto simp: fair_def)
  then show "fair s d d'"
    by (rule fair_trans [OF fair_trans [OF _ fair_insert_attempt [OF u3]] good_fair [OF good_touch [OF u4]]])
  show "quiet_leases d d'"
    by (rule quiet_leases_trans [OF quiet_leases_trans [OF quiet_leases_trans [OF f1(2) step_stmt_quiet(3) [OF u2]]
          step_stmt_quiet(2) [OF u3]] touch_quiet(1) [OF u4]])
qed

lemma restart_history:
  assumes i: "inv d" and h: "steps_inv d" and r: "r \<in> set (steps d)" "visible s (ds_tenant_id r)"
    and a: "last_attempt (select_rows s attempt_table (\<lambda>a. da_step_id a = ds_id r) (step_attempts d)) = Some a"
    and u1: "(if da_state a = A_running then update_attempt s (da_id a) (attempt_closed now A_expired None) d
      else Inr d) = Inr d1"
    and u2: "update_step s (ds_id r) (step_restarted now eid) d1 = Inr d2" and i1: "inv d1"
    and u3: "insert_attempt s at d2 = Inr d3"
    and n: "da_step_id at = ds_id r" "da_attempt at = ds_attempt r + 1" "da_lease_epoch at = da_lease_epoch a + 1"
      "da_state at = A_running"
  shows "steps_inv d3"
proof -
  have tenant: "visible s (da_tenant_id x)" if "x \<in> set (step_attempts d)" "da_step_id x = ds_id r" for x
    using attempt_tenant [OF i r(1) that] r(2) by simp
  then have sel: "set (select_rows s attempt_table (\<lambda>a. da_step_id a = ds_id r) (step_attempts d)) =
      set (attempts_of (ds_id r) (step_attempts d))" by (auto simp: attempts_of_def)
  have A: "a \<in> set (attempts_of (ds_id r) (step_attempts d))"
    "\<forall>b \<in> set (attempts_of (ds_id r) (step_attempts d)). da_attempt b \<le> da_attempt a"
    using last_attemptD [OF a] unfolding sel by simp_all
  then have a': "a \<in> set (step_attempts d)" "da_step_id a = ds_id r" by (simp_all add: attempts_of_def)
  let ?cl = "upd_where (\<lambda>x. da_id x = da_id a) (attempt_closed now A_expired None)"
  have D1: "step_attempts d1 = (if da_state a = A_running then ?cl (step_attempts d) else step_attempts d)"
    "steps d1 = steps d"
    using u1 update_attemptD [OF _ i a'(1) tenant [OF a']] by (auto split: if_splits)
  have D2: "steps d2 = upd_where (\<lambda>x. ds_id x = ds_id r) (step_restarted now eid) (steps d)"
    "step_attempts d2 = step_attempts d1"
    using update_stepD [OF u2 i1] r D1(2) by simp_all
  have D3: "steps d3 = steps d2" "step_attempts d3 = step_attempts d1 @ [at]"
    using u3 D2(2) by (auto simp: insert_attempt_def split: if_splits dest!: insert_row_ok(1))
  show ?thesis
  proof (rule steps_inv_move [OF i h r(1)])
    show "steps d3 = upd_where (\<lambda>x. ds_id x = ds_id r) (step_restarted now eid) (steps d)"
      using D3(1) D2(1) by simp
    show "attempts_of x (step_attempts d3) = attempts_of x (step_attempts d)" if "x \<noteq> ds_id r" for x
    proof -
      have "attempts_of x (?cl (step_attempts d)) = attempts_of x (step_attempts d)"
        by (rule attempts_of_other [OF i a'(1)]) (use that a'(2) in simp_all)
      then show ?thesis using that n(1) by (simp add: D3(2) D1(1) attempts_of_def)
    qed
    have own: "attempts_of (ds_id r) (step_attempts d3) =
        (if da_state a = A_running then ?cl (attempts_of (ds_id r) (step_attempts d))
         else attempts_of (ds_id r) (step_attempts d)) @ [at]"
      using n(1) attempts_of_upd_where [of "attempt_closed now A_expired None" "ds_id r" "\<lambda>x. da_id x = da_id a"]
      by (simp add: D3(2) D1(1) attempts_of_def)
    show "step_history (step_restarted now eid r) (attempts_of (ds_id r) (step_attempts d3))"
      unfolding own
      by (rule history_restart [OF steps_invD [OF h r(1)] A _ refl])
        (use n attempt_unique [OF i _ a'(1)] a'(2) in \<open>auto simp: attempts_of_def\<close>)
  qed simp
qed

lemma reacquire_step_good:
  assumes c: "reacquire_step s now t r eid key tv sv owner leaseMs mx d = Inr (g, d')"
    and r: "r \<in> set (steps d)" "visible s (ds_tenant_id r)"
    and ex: "inv d \<Longrightarrow> (eid, ds_tenant_id r) \<in> set (exec_keys d)"
  shows "step_good s d d'"
proof (cases "d' = d")
  case False
  let ?la = "last_attempt (select_rows s attempt_table (\<lambda>a. da_step_id a = ds_id r) (step_attempts d))"
  have st: "ds_state r \<notin> {S_completed, S_cancelled}"
    using c False by (auto simp: reacquire_step_def split: if_splits)
  show ?thesis
  proof (cases ?la)
    case None
    then obtain d2 d3 at where u2: "update_step s (ds_id r) (step_restarted now eid) d = Inr d2"
      and u3: "insert_attempt s at d2 = Inr d3" and u4: "update_task s (t_id t) (touch_task now) d3 = Inr d'"
      using c False unfolding reacquire_step_def Let_def by (auto split: if_split_asm)
    note F = restart_fair [OF fair_refl quiet_refl(2) refl r(1) st ex refl u2 u3 u4]
    have "\<not> steps_inv d" if i: "inv d"
    proof
      assume "steps_inv d"
      then obtain a where "a \<in> set (step_attempts d)" "da_step_id a = ds_id r"
        using steps_invD [OF _ r(1)] by (auto simp: step_history_def list_ex_iff attempts_of_def)
      then have "select_rows s attempt_table (\<lambda>a. da_step_id a = ds_id r) (step_attempts d) \<noteq> []"
        using attempt_tenant [OF i r(1), of a] r(2) by (auto simp: select_rows_def filter_empty_conv intro!: bexI [of _ a])
      then show False using last_attempt_exists None by fastforce
    qed
    then show ?thesis using F by (auto simp: step_good_def)
  next
    case (Some a)
    let ?at = "new_attempt now (ds_id r) (t_tenant_id t) eid (ds_attempt r + 1) (btrim owner) (da_lease_epoch a + 1) leaseMs"
    obtain d1 d2 d3 where
      u1: "(if da_state a = A_running then update_attempt s (da_id a) (attempt_closed now A_expired None) d
        else Inr d) = Inr d1"
      and u2: "update_step s (ds_id r) (step_restarted now eid) d1 = Inr d2"
      and u3: "insert_attempt s ?at d2 = Inr d3" and u4: "update_task s (t_id t) (touch_task now) d3 = Inr d'"
      using c False Some st unfolding reacquire_step_def Let_def
      by (cases "da_state a = A_running") (auto split: if_split_asm)
    have a: "a \<in> set (step_attempts d)" using last_attemptD [OF Some] by auto
    have f1: "fair s d d1" and q1: "quiet_leases d d1" and s1: "steps d1 = steps d" and e1: "exec_keys d1 = exec_keys d"
      using u1 fair_update_attempt [OF _ a, of s "attempt_closed now A_expired None"] step_stmt_quiet(4)
      by (auto split: if_splits simp: update_attempt_def)
    note F = restart_fair [OF f1 q1 s1 r(1) st ex e1 u2 u3 u4]
    have "steps_inv d'" if i: "inv d" and h: "steps_inv d"
      using restart_history [OF i h r Some u1 u2 fairD(1) [OF f1 i] u3]
        steps_inv_cong [OF touch_quiet(2) [OF u4]] by (simp add: new_attempt_def)
    then show ?thesis using F by (simp add: step_good_def)
  qed
qed simp

lemma acquire_durable_step_sound [cmd_inv]:
  "sound_steps s (acquire_durable_step s now p_id p_task_id p_execution_id p_item tv p_step sv owner leaseMs mx)"
  unfolding sound_steps_def
proof (intro allI impI)
  fix d x d'
  assume "acquire_durable_step s now p_id p_task_id p_execution_id p_item tv p_step sv owner leaseMs mx d = Inr (x, d')"
  then obtain t e where t: "select_task s p_task_id d = Some t"
    and e: "select_one s execution_table (\<lambda>e. e_id e = p_execution_id \<and> e_task_id e = p_task_id) (executions d) = Some e"
    and et: "e_tenant_id e = t_tenant_id t"
    and c: "(case select_one s step_table (\<lambda>r. ds_task_id r = p_task_id \<and>
        ds_item_key r = btrim (coalesce p_item ''default'') \<and> ds_step_key r = btrim p_step) (steps d) of
      None \<Rightarrow> start_step s now t p_id p_execution_id (btrim (coalesce p_item ''default'')) (btrim p_step)
        tv sv owner leaseMs d
    | Some r \<Rightarrow> reacquire_step s now t r p_execution_id (btrim p_step) tv sv owner leaseMs mx d) = Inr (x, d')"
    unfolding acquire_durable_step_def Let_def
    by (auto split: if_split_asm option.split_asm dest!: on_unique_violation_InrD)
  note T = select_taskD [OF t] and E = select_one_SomeD [OF e]
  show "step_good s d d'"
  proof (cases "select_one s step_table (\<lambda>r. ds_task_id r = p_task_id \<and>
        ds_item_key r = btrim (coalesce p_item ''default'') \<and> ds_step_key r = btrim p_step) (steps d)")
    case None
    then show ?thesis using c start_step_good by simp
  next
    case (Some r)
    note R = select_one_SomeD [OF Some]
    have "(p_execution_id, ds_tenant_id r) \<in> set (exec_keys d)" if i: "inv d"
    proof -
      have "task_key_exists (t_id t) (ds_tenant_id r) d"
        using steps_okD(3) [OF i, of r] R T(3) by (simp add: task_key_exists_keys)
      then have "t_tenant_id t = ds_tenant_id r"
        using task_of_key [OF wfD(1) [OF inv_parts(1) [OF i]] _ T(1) refl] by simp
      then show ?thesis using E et by (auto simp: exec_keys_def intro!: rev_image_eqI [of e])
    qed
    then show ?thesis using reacquire_step_good [of s now t r] c Some R by simp
  qed
qed

end
