(* ===== verification/Resource_Leases.thy ===== *)
theory Resource_Leases
  imports Durable_Steps
begin

text \<open>
  Resource pools and leases (\<open>postgres/resource-lease-schema.ts\<close>, migration 020): an execution leases
  cpu, memory, disk and network of a named pool, within the pool's capacity. As in the durable
  steps, \<open>unqualified\<close> marks the statements that name a column which is a PL/pgSQL variable too:
  the \<open>ON CONFLICT\<close> of acquisition and the update of a renewal. The setting that decides their meaning
  is the same parameter of the session.
\<close>

section \<open>Commands\<close>

text \<open>\<open>COALESCE(sum(...), 0)\<close> of one dimension over the leases of a pool that satisfy \<open>q\<close>.\<close>

definition used :: "(resources \<Rightarrow> int) \<Rightarrow> string \<Rightarrow> string \<Rightarrow> (lease_row \<Rightarrow> bool) \<Rightarrow> lease_row list \<Rightarrow> int" where
  "used dim tenant key q rows = sum_list (map (\<lambda>l. dim (l_request l))
    (filter (\<lambda>l. l_tenant_id l = tenant \<and> l_pool_key l = key \<and> q l) rows))"

definition lease_live :: "int \<Rightarrow> lease_row \<Rightarrow> bool" where
  "lease_live now l \<longleftrightarrow> l_state l = L_active \<and> l_lease_until l > now"

definition lease_lapsed :: "int \<Rightarrow> lease_row \<Rightarrow> bool" where
  "lease_lapsed now l \<longleftrightarrow> l_state l = L_active \<and> l_lease_until l \<le> now"

definition lease_expired :: "int \<Rightarrow> lease_row \<Rightarrow> lease_row" where
  "lease_expired now l = l\<lparr>l_state := L_expired, l_updated_at := now, l_released_at := Some now\<rparr>"

definition lease_of :: "string \<Rightarrow> string \<Rightarrow> string \<Rightarrow> string \<Rightarrow> lease_row \<Rightarrow> bool" where
  "lease_of tenant tid eid key l \<longleftrightarrow> l_tenant_id l = tenant \<and> l_task_id l = tid \<and>
    l_execution_id l = eid \<and> l_pool_key l = key"

definition lease_taken :: "int \<Rightarrow> string \<Rightarrow> string \<Rightarrow> resources \<Rightarrow> int \<Rightarrow> lease_row \<Rightarrow> lease_row" where
  "lease_taken now lid owner req leaseMs l = l\<lparr>l_id := lid, l_lease_owner := owner,
    l_lease_epoch := l_lease_epoch l + 1, l_request := req, l_state := L_active,
    l_lease_until := now + leaseMs, l_updated_at := now, l_released_at := None\<rparr>"

definition new_lease ::
  "int \<Rightarrow> string \<Rightarrow> string \<Rightarrow> string \<Rightarrow> string \<Rightarrow> string \<Rightarrow> string \<Rightarrow> resources \<Rightarrow> int \<Rightarrow> lease_row" where
  "new_lease now lid tenant key tid eid owner req leaseMs = \<lparr>l_id = lid, l_tenant_id = tenant,
    l_pool_key = key, l_task_id = tid, l_execution_id = eid, l_lease_owner = owner,
    l_lease_epoch = 1, l_request = req, l_state = L_active, l_lease_until = now + leaseMs,
    l_created_at = now, l_updated_at = now, l_released_at = None\<rparr>"

definition new_pool :: "int \<Rightarrow> string \<Rightarrow> string \<Rightarrow> resources \<Rightarrow> pool_row" where
  "new_pool now tenant key cap = \<lparr>rp_tenant_id = tenant, rp_pool_key = key, rp_capacity = cap,
    rp_version = 1, rp_created_at = now, rp_updated_at = now\<rparr>"

text \<open>
  The part of acquisition after lapsed leases have been expired and the lease is not held: the
  capacity check, then the update of the execution's old lease or the insert of a new one.
\<close>

definition grant_lease ::
  "session \<Rightarrow> int \<Rightarrow> pool_row \<Rightarrow> lease_row option \<Rightarrow> string \<Rightarrow> string \<Rightarrow> string \<Rightarrow> string \<Rightarrow> string \<Rightarrow> string \<Rightarrow>
    resources \<Rightarrow> int \<Rightarrow> lease_row command" where
  "grant_lease s now v_pool v_lease p_id tenant v_key p_task_id p_execution_id p_lease_owner p_request
      p_lease_ms d = (
    let live = select_rows s lease_table (lease_live now) (leases d) in
    if used r_cpu tenant v_key (\<lambda>_. True) live + r_cpu p_request > r_cpu (rp_capacity v_pool) \<or>
      used r_memory tenant v_key (\<lambda>_. True) live + r_memory p_request > r_memory (rp_capacity v_pool) \<or>
      used r_disk tenant v_key (\<lambda>_. True) live + r_disk p_request > r_disk (rp_capacity v_pool) \<or>
      used r_network tenant v_key (\<lambda>_. True) live + r_network p_request > r_network (rp_capacity v_pool)
    then fail ''RHINOQ_RESOURCE_UNAVAILABLE'' v_key
    else (case v_lease of
        Some l \<Rightarrow> bind_res (update_rows s lease_table (lease_of tenant p_task_id p_execution_id v_key)
            (lease_taken now p_id (btrim p_lease_owner) p_request p_lease_ms) (leases d)) (\<lambda>rows.
          Inr (lease_taken now p_id (btrim p_lease_owner) p_request p_lease_ms l, d\<lparr>leases := rows\<rparr>))
      | None \<Rightarrow>
          let l = new_lease now p_id tenant v_key p_task_id p_execution_id (btrim p_lease_owner)
            p_request p_lease_ms in
          bind_res (insert_row s lease_table l (leases d)) (\<lambda>rows.
            if \<not> list_ex (\<lambda>p. rp_tenant_id p = tenant \<and> rp_pool_key p = v_key) (pools d) \<or>
              \<not> task_key_exists p_task_id tenant d \<or> \<not> execution_key_exists p_execution_id tenant d
            then Inl foreign_key_violation
            else Inr (l, d\<lparr>leases := rows\<rparr>))))"

text \<open>The part of acquisition after the pool row is known and locked.\<close>

definition lease_from_pool ::
  "session \<Rightarrow> int \<Rightarrow> pool_row \<Rightarrow> string \<Rightarrow> string \<Rightarrow> string \<Rightarrow> string \<Rightarrow> string \<Rightarrow> string \<Rightarrow> resources \<Rightarrow> resources \<Rightarrow>
    int \<Rightarrow> lease_row command" where
  "lease_from_pool s now v_pool p_id tenant v_key p_task_id p_execution_id p_lease_owner p_capacity p_request
      p_lease_ms d = (
    if rp_capacity v_pool \<noteq> p_capacity then fail ''RHINOQ_RESOURCE_POOL_CONFIG_MISMATCH'' v_key
    else if r_cpu p_request > r_cpu (rp_capacity v_pool) \<or> r_memory p_request > r_memory (rp_capacity v_pool) \<or>
      r_disk p_request > r_disk (rp_capacity v_pool) \<or> r_network p_request > r_network (rp_capacity v_pool)
    then fail ''RHINOQ_RESOURCE_REQUEST_EXCEEDS_CAPACITY'' v_key
    else bind_res (update_rows s lease_table
        (\<lambda>l. l_tenant_id l = tenant \<and> l_pool_key l = v_key \<and> lease_lapsed now l) (lease_expired now)
        (leases d)) (\<lambda>rows.
      case select_one s lease_table (lease_of tenant p_task_id p_execution_id v_key) rows of
        None \<Rightarrow> grant_lease s now v_pool None p_id tenant v_key p_task_id p_execution_id p_lease_owner
          p_request p_lease_ms (d\<lparr>leases := rows\<rparr>)
      | Some l \<Rightarrow>
          if lease_live now l then
            (if l_lease_owner l = btrim p_lease_owner \<and> l_request l = p_request
             then Inr (l, d\<lparr>leases := rows\<rparr>)
             else fail ''RHINOQ_RESOURCE_LEASE_HELD'' v_key)
          else grant_lease s now v_pool (Some l) p_id tenant v_key p_task_id p_execution_id p_lease_owner
            p_request p_lease_ms (d\<lparr>leases := rows\<rparr>)))"

definition acquire_resource_lease ::
  "session \<Rightarrow> int \<Rightarrow> string \<Rightarrow> string \<Rightarrow> string \<Rightarrow> string \<Rightarrow> string \<Rightarrow> resources \<Rightarrow> resources \<Rightarrow> int \<Rightarrow>
    lease_row command" where
  "acquire_resource_lease s now p_id p_pool_key p_task_id p_execution_id p_lease_owner p_capacity p_request
      p_lease_ms d = (
    let v_key = btrim p_pool_key in
    if btrim p_id = '''' \<or> v_key = '''' \<or> btrim p_task_id = '''' \<or> btrim p_execution_id = '''' \<or>
      btrim p_lease_owner = '''' \<or> len v_key > 128 \<or> p_lease_ms < 1000 \<or> p_lease_ms > 3600000 \<or>
      \<not> resources_nonneg p_capacity \<or> \<not> resources_nonneg p_request \<or>
      \<not> resources_some p_capacity \<or> \<not> resources_some p_request
    then fail ''RHINOQ_INVALID_RESOURCE_LEASE'' ''''
    else (case select_task s p_task_id d of
      None \<Rightarrow> fail ''RHINOQ_TASK_NOT_FOUND'' p_task_id
    | Some v_task \<Rightarrow>
        if select_one s execution_table (\<lambda>e. e_id e = p_execution_id \<and> e_task_id e = p_task_id \<and>
          e_tenant_id e = t_tenant_id v_task) (executions d) = None
        then fail ''RHINOQ_RESOURCE_LEASE_EXECUTION_MISMATCH'' ''''
        else unqualified s (
          bind_res (insert_row_or_nothing s pool_table (new_pool now (t_tenant_id v_task) v_key p_capacity)
            (pools d)) (\<lambda>(_, rows).
          case select_one s pool_table (\<lambda>p. rp_tenant_id p = t_tenant_id v_task \<and> rp_pool_key p = v_key) rows of
            None \<Rightarrow> fail ''RHINOQ_RESOURCE_POOL_NOT_FOUND'' v_key
          | Some v_pool \<Rightarrow> lease_from_pool s now v_pool p_id (t_tenant_id v_task) v_key p_task_id
              p_execution_id p_lease_owner p_capacity p_request p_lease_ms (d\<lparr>pools := rows\<rparr>)))))"

definition lease_renewed :: "int \<Rightarrow> int \<Rightarrow> lease_row \<Rightarrow> lease_row" where
  "lease_renewed now leaseMs l = l\<lparr>l_lease_until := now + leaseMs, l_updated_at := now\<rparr>"

definition renew_resource_lease ::
  "session \<Rightarrow> int \<Rightarrow> string \<Rightarrow> string \<Rightarrow> int \<Rightarrow> int \<Rightarrow> lease_row command" where
  "renew_resource_lease s now p_id p_lease_owner p_lease_epoch p_lease_ms d = (
    if btrim p_id = '''' \<or> btrim p_lease_owner = '''' \<or> p_lease_epoch < 1 \<or> p_lease_ms < 1000 \<or>
      p_lease_ms > 3600000
    then fail ''RHINOQ_INVALID_RESOURCE_LEASE_RENEWAL'' ''''
    else (case select_one s lease_table (\<lambda>l. l_id l = p_id) (leases d) of
      None \<Rightarrow> fail ''RHINOQ_RESOURCE_LEASE_FENCED'' p_id
    | Some l \<Rightarrow>
        if l_state l \<noteq> L_active \<or> l_lease_owner l \<noteq> btrim p_lease_owner \<or>
          l_lease_epoch l \<noteq> p_lease_epoch \<or> l_lease_until l \<le> now
        then fail ''RHINOQ_RESOURCE_LEASE_FENCED'' p_id
        else unqualified s (bind_res (update_rows s lease_table (\<lambda>m. l_id m = l_id l)
            (lease_renewed now p_lease_ms) (leases d)) (\<lambda>rows.
          Inr (lease_renewed now p_lease_ms l, d\<lparr>leases := rows\<rparr>)))))"

definition lease_released :: "int \<Rightarrow> lease_row \<Rightarrow> lease_row" where
  "lease_released now l = l\<lparr>l_state := L_released, l_lease_until := now, l_updated_at := now,
    l_released_at := Some now\<rparr>"

definition release_resource_lease :: "session \<Rightarrow> int \<Rightarrow> string \<Rightarrow> string \<Rightarrow> int \<Rightarrow> unit command" where
  "release_resource_lease s now p_id p_lease_owner p_lease_epoch d = (
    if btrim p_id = '''' \<or> btrim p_lease_owner = '''' \<or> p_lease_epoch < 1
    then fail ''RHINOQ_INVALID_RESOURCE_LEASE_RELEASE'' ''''
    else (case select_one s lease_table (\<lambda>l. l_id l = p_id) (leases d) of
      None \<Rightarrow> fail ''RHINOQ_RESOURCE_LEASE_FENCED'' p_id
    | Some l \<Rightarrow>
        if l_lease_owner l \<noteq> btrim p_lease_owner \<or> l_lease_epoch l \<noteq> p_lease_epoch
        then fail ''RHINOQ_RESOURCE_LEASE_FENCED'' p_id
        else if l_state l = L_released then Inr ((), d)
        else if l_state l \<noteq> L_active \<or> l_lease_until l \<le> now
        then fail ''RHINOQ_RESOURCE_LEASE_FENCED'' p_id
        else bind_res (update_rows s lease_table (\<lambda>m. l_id m = l_id l) (lease_released now) (leases d))
          (\<lambda>rows. Inr ((), d\<lparr>leases := rows\<rparr>))))"

section \<open>Contract\<close>

lemma leases_okD:
  assumes "inv d"
  shows "table_ok pool_table (pools d)" and "table_ok lease_table (leases d)"
    and "l \<in> set (leases d) \<Longrightarrow> (l_tenant_id l, l_pool_key l) \<in> (\<lambda>p. (rp_tenant_id p, rp_pool_key p)) ` set (pools d)"
    and "l \<in> set (leases d) \<Longrightarrow> (l_task_id l, l_tenant_id l) \<in> set (task_keys d)"
    and "l \<in> set (leases d) \<Longrightarrow> (l_execution_id l, l_tenant_id l) \<in> set (exec_keys d)"
  using inv_parts(7) [OF assms] by (auto simp: leases_ok_def list_all_iff)

lemma fair_lease_rows:
  assumes "inv d \<Longrightarrow> table_ok lease_table rows"
    and "inv d \<Longrightarrow> list_all (\<lambda>l. (l_tenant_id l, l_pool_key l) \<in> (\<lambda>p. (rp_tenant_id p, rp_pool_key p)) ` set (pools d) \<and>
      (l_task_id l, l_tenant_id l) \<in> set (task_keys d) \<and> (l_execution_id l, l_tenant_id l) \<in> set (exec_keys d)) rows"
    and "inv d \<Longrightarrow> rows_evolve lease_evolves (leases d) rows"
    and "hidden s lease_table rows = hidden s lease_table (leases d)"
  shows "fair s d (d\<lparr>leases := rows\<rparr>)"
proof (rule fair_child)
  let ?d = "d\<lparr>leases := rows\<rparr>"
  show "waitpoints_ok ?d \<and> evidence_ok ?d \<and> outbox_ok ?d \<and> checkpoints_ok ?d \<and> steps_ok ?d \<and> leases_ok ?d"
    if "inv d" using inv_parts [OF that] assms(1,2) [OF that] by (simp add: leases_ok_def)
  show "children_evolve d ?d" if "inv d"
    using assms(3) [OF that] by (simp add: children_evolve_def rows_evolve_refl)
  show "hidden_db s ?d = hidden_db s d" using assms(4) by (simp add: hidden_db_def)
qed simp_all

lemma fair_update_leases:
  assumes upd: "update_rows s lease_table p f (leases d) = Inr rows"
    and ev: "\<And>l. inv d \<Longrightarrow> l \<in> set (leases d) \<Longrightarrow> visible s (l_tenant_id l) \<Longrightarrow> p l \<Longrightarrow> lease_evolves l (f l)"
    and keep: "\<And>l. l_tenant_id (f l) = l_tenant_id l" "\<And>l. l_pool_key (f l) = l_pool_key l"
      "\<And>l. l_task_id (f l) = l_task_id l" "\<And>l. l_execution_id (f l) = l_execution_id l"
  shows "fair s d (d\<lparr>leases := rows\<rparr>)"
proof (rule fair_lease_rows)
  note R = update_rows_ok [OF upd]
  show "hidden s lease_table rows = hidden s lease_table (leases d)"
    by (rule hidden_update_rows [OF upd]) (simp add: keep)
  assume i: "inv d"
  show "table_ok lease_table rows" by (rule R(2) [OF leases_okD(2) [OF i]])
  show "list_all (\<lambda>l. (l_tenant_id l, l_pool_key l) \<in> (\<lambda>p. (rp_tenant_id p, rp_pool_key p)) ` set (pools d) \<and>
      (l_task_id l, l_tenant_id l) \<in> set (task_keys d) \<and> (l_execution_id l, l_tenant_id l) \<in> set (exec_keys d)) rows"
    unfolding R(1) list_all_iff using leases_okD(3-5) [OF i] by (auto simp: keep elim!: in_upd_whereE)
  show "rows_evolve lease_evolves (leases d) rows"
    unfolding R(1) by (rule rows_evolve_upd_where) (use ev [OF i] in auto)
qed

lemma fair_insert_pool:
  assumes ins: "insert_row_or_nothing s pool_table p (pools d) = Inr (found, rows)"
  shows "fair s d (d\<lparr>pools := rows\<rparr>)"
proof (rule fair_child)
  let ?d = "d\<lparr>pools := rows\<rparr>"
  note I = insert_row_or_nothing_ok [OF ins]
  show "waitpoints_ok ?d \<and> evidence_ok ?d \<and> outbox_ok ?d \<and> checkpoints_ok ?d \<and> steps_ok ?d \<and> leases_ok ?d"
    if i: "inv d"
  proof -
    have "leases_ok ?d"
      using leases_okD [OF i] I(3) by (auto simp: leases_ok_def list_all_iff I(1))
    then show ?thesis using inv_parts [OF i] by simp
  qed
  show "children_evolve d ?d" by (simp add: children_evolve_def rows_evolve_refl rows_evolve_snoc I(1))
  show "hidden_db s ?d = hidden_db s d" using I(4) by (simp add: hidden_db_def)
qed simp_all

lemma fair_insert_lease:
  assumes ins: "insert_row s lease_table l (leases d) = Inr rows"
    and "list_ex (\<lambda>p. rp_tenant_id p = l_tenant_id l \<and> rp_pool_key p = l_pool_key l) (pools d)"
    and "task_key_exists (l_task_id l) (l_tenant_id l) d" "execution_key_exists (l_execution_id l) (l_tenant_id l) d"
  shows "fair s d (d\<lparr>leases := rows\<rparr>)"
proof (rule fair_lease_rows)
  note I = insert_row_ok [OF ins]
  show "hidden s lease_table rows = hidden s lease_table (leases d)" by (rule I(4))
  assume i: "inv d"
  show "table_ok lease_table rows" by (rule I(3) [OF leases_okD(2) [OF i]])
  have "(l_tenant_id l, l_pool_key l) \<in> (\<lambda>p. (rp_tenant_id p, rp_pool_key p)) ` set (pools d)"
    using assms(2) by (auto simp: list_ex_iff intro: rev_image_eqI)
  then show "list_all (\<lambda>l. (l_tenant_id l, l_pool_key l) \<in> (\<lambda>p. (rp_tenant_id p, rp_pool_key p)) ` set (pools d) \<and>
      (l_task_id l, l_tenant_id l) \<in> set (task_keys d) \<and> (l_execution_id l, l_tenant_id l) \<in> set (exec_keys d)) rows"
    using leases_okD(3-5) [OF i] assms(3,4)
    by (simp add: I(1) list_all_iff task_key_exists_keys execution_key_exists_keys)
  show "rows_evolve lease_evolves (leases d) rows" by (simp add: I(1) rows_evolve_snoc)
qed

section \<open>Capacity\<close>

text \<open>The leases in state active, lapsed or not, never ask for more than the pool has.\<close>

definition held :: "(resources \<Rightarrow> int) \<Rightarrow> pool_row \<Rightarrow> lease_row list \<Rightarrow> int" where
  "held dim p rows = used dim (rp_tenant_id p) (rp_pool_key p) (\<lambda>l. l_state l = L_active) rows"

definition capacity_ok :: "pool_row \<Rightarrow> lease_row list \<Rightarrow> bool" where
  "capacity_ok p rows \<longleftrightarrow> held r_cpu p rows \<le> r_cpu (rp_capacity p) \<and>
    held r_memory p rows \<le> r_memory (rp_capacity p) \<and> held r_disk p rows \<le> r_disk (rp_capacity p) \<and>
    held r_network p rows \<le> r_network (rp_capacity p)"

definition capacity_inv :: "db \<Rightarrow> bool" where
  "capacity_inv d \<longleftrightarrow> list_all (\<lambda>p. capacity_ok p (leases d)) (pools d)"

text \<open>One dimension of the four.\<close>

definition dims :: "(resources \<Rightarrow> int) set" where
  "dims = {r_cpu, r_memory, r_disk, r_network}"

lemma capacity_ok_iff: "capacity_ok p rows \<longleftrightarrow> (\<forall>dim \<in> dims. held dim p rows \<le> dim (rp_capacity p))"
  by (auto simp: capacity_ok_def dims_def)

lemma dims_nonneg: "dim \<in> dims \<Longrightarrow> resources_nonneg r \<Longrightarrow> 0 \<le> dim r"
  by (auto simp: dims_def resources_nonneg_def)

text \<open>What one lease holds of a pool.\<close>

definition share :: "(resources \<Rightarrow> int) \<Rightarrow> pool_row \<Rightarrow> lease_row \<Rightarrow> int" where
  "share dim p l = (if l_tenant_id l = rp_tenant_id p \<and> l_pool_key l = rp_pool_key p \<and> l_state l = L_active
    then dim (l_request l) else 0)"

lemma held_share: "held dim p rows = sum_list (map (share dim p) rows)"
  unfolding held_def used_def by (induction rows) (simp_all add: share_def)

lemma held_upd_le:
  assumes "\<And>l. l \<in> set rows \<Longrightarrow> q l \<Longrightarrow> share dim p (f l) \<le> share dim p l"
  shows "held dim p (upd_where q f rows) \<le> held dim p rows"
  unfolding held_share using assms by (induction rows) (fastforce simp: upd_where_def)+

lemma sum_upd_one:
  fixes g :: "'r \<Rightarrow> int"
  assumes "distinct (map k rows)" and "r \<in> set rows"
  shows "sum_list (map g (upd_where (\<lambda>x. k x = k r) f rows)) = sum_list (map g rows) - g r + g (f r)"
  using assms
proof (induction rows)
  case Nil
  then show ?case by simp
next
  case (Cons a rows)
  show ?case
  proof (cases "k a = k r")
    case True
    have "a = r" using distinct_map_eqD [OF Cons.prems(1) _ Cons.prems(2) True] by simp
    moreover have "upd_where (\<lambda>x. k x = k r) f rows = rows"
      using distinct_map_ConsD [OF Cons.prems(1)] True by (intro upd_where_none) metis
    ultimately show ?thesis by (simp add: upd_where_def)
  next
    case False
    then have "r \<in> set rows" using Cons.prems(2) by auto
    with Cons False show ?thesis by (simp add: upd_where_def)
  qed
qed

interpretation lease_slot: keyed_table lease_table
  "\<lambda>l. (l_tenant_id l, l_task_id l, l_execution_id l, l_pool_key l)"
  by unfold_locales (simp add: tables)

lemma lease_requests_nonneg:
  assumes "table_ok lease_table rows" and "l \<in> set rows"
  shows "resources_nonneg (l_request l)"
  using assms by (auto simp: table_ok_def list_all_iff tables lease_check_def)

text \<open>Expiry and release give capacity back.\<close>

lemma capacity_upd_le:
  assumes c: "capacity_inv d" and "leases d' = upd_where q f (leases d)" and "pools d' = pools d"
    and ok: "table_ok lease_table (leases d)"
    and f: "\<And>l. q l \<Longrightarrow> l_state (f l) \<noteq> L_active \<or> (l_tenant_id (f l) = l_tenant_id l \<and> l_pool_key (f l) = l_pool_key l \<and>
      l_request (f l) = l_request l \<and> l_state (f l) = l_state l)"
  shows "capacity_inv d'"
proof -
  have "share dim p (f l) \<le> share dim p l" if "dim \<in> dims" "l \<in> set (leases d)" "q l" for dim p l
    using f [OF that(3)] dims_nonneg [OF that(1) lease_requests_nonneg [OF ok that(2)]]
    by (auto simp: share_def)
  then have "held dim p (leases d') \<le> held dim p (leases d)" if "dim \<in> dims" for dim p
    unfolding assms(2) using that by (intro held_upd_le) blast
  then show ?thesis
    using c assms(3) unfolding capacity_inv_def list_all_iff capacity_ok_iff by (metis order_trans)
qed

definition lease_good :: "session \<Rightarrow> db \<Rightarrow> db \<Rightarrow> bool" where
  "lease_good s d d' \<longleftrightarrow> fair s d d' \<and> quiet_steps d d' \<and> (inv d \<longrightarrow> capacity_inv d \<longrightarrow> capacity_inv d')"

definition sound_leases :: "session \<Rightarrow> 'a command \<Rightarrow> bool" where
  "sound_leases s c \<longleftrightarrow> (\<forall>d x d'. c d = Inr (x, d') \<longrightarrow> lease_good s d d')"

lemma lease_good_refl [simp]: "lease_good s d d"
  by (simp add: lease_good_def)

lemma lease_good_trans: "lease_good s d d1 \<Longrightarrow> lease_good s d1 d2 \<Longrightarrow> lease_good s d d2"
  unfolding lease_good_def quiet_steps_def using fair_trans [of s d d1 d2] fairD(1) [of s d d1] by auto

lemma capacity_inv_cong: "quiet_leases d d' \<Longrightarrow> capacity_inv d' = capacity_inv d"
  by (simp add: quiet_leases_def capacity_inv_def)

lemma insert_pool_good:
  assumes ins: "insert_row_or_nothing s pool_table p (pools d) = Inr (found, rows)"
  shows "lease_good s d (d\<lparr>pools := rows\<rparr>)"
  unfolding lease_good_def
proof (intro conjI impI)
  assume i: "inv d" and c: "capacity_inv d"
  have "capacity_ok p (leases d)" if found
  proof -
    have new: "rp_tenant_id q \<noteq> rp_tenant_id p \<or> rp_pool_key q \<noteq> rp_pool_key p" if "q \<in> set (pools d)" for q
      using ins that \<open>found\<close> by (auto simp: insert_row_or_nothing_def list_all_iff tables split: if_splits)
    have "share dim p l = 0" if "l \<in> set (leases d)" for dim l
      using leases_okD(3) [OF i that] new by (fastforce simp: share_def)
    then have "held dim p (leases d) = 0" for dim
      unfolding held_share by (metis map_idI sum_list_0 map_eq_conv)
    moreover have "resources_nonneg (rp_capacity p)"
      using ins by (auto simp: insert_row_or_nothing_def tables pool_check_def split: if_splits)
    ultimately show ?thesis by (simp add: capacity_ok_iff dims_nonneg)
  qed
  then show "capacity_inv (d\<lparr>pools := rows\<rparr>)"
    using c insert_row_or_nothing_ok(1) [OF ins] by (simp add: capacity_inv_def)
qed (simp_all add: fair_insert_pool [OF ins] quiet_steps_def)

text \<open>The sums that acquisition reads are what the pool's active leases hold.\<close>

lemma held_live:
  assumes "visible s (rp_tenant_id p)"
    and "\<And>l. l \<in> set rows \<Longrightarrow> l_tenant_id l = rp_tenant_id p \<Longrightarrow> l_pool_key l = rp_pool_key p \<Longrightarrow>
      l_state l = L_active \<Longrightarrow> lease_live now l"
  shows "used dim (rp_tenant_id p) (rp_pool_key p) (\<lambda>_. True) (select_rows s lease_table (lease_live now) rows) =
    held dim p rows"
proof -
  have "filter (\<lambda>l. l_tenant_id l = rp_tenant_id p \<and> l_pool_key l = rp_pool_key p)
      (select_rows s lease_table (lease_live now) rows) =
    filter (\<lambda>l. l_tenant_id l = rp_tenant_id p \<and> l_pool_key l = rp_pool_key p \<and> l_state l = L_active) rows"
    using assms by (auto simp: select_rows_def tables lease_live_def intro!: filter_cong)
  then show ?thesis by (simp add: held_def used_def)
qed

lemma capacity_inv_grow:
  assumes c: "capacity_inv d" and i: "inv d" and p: "p \<in> set (pools d)" and "pools d' = pools d"
    and fits: "\<And>dim. dim \<in> dims \<Longrightarrow> held dim p (leases d) + dim req \<le> dim (rp_capacity p)"
    and same: "\<And>dim. held dim p (leases d') = held dim p (leases d) + dim req"
    and other: "\<And>dim q. (rp_tenant_id q, rp_pool_key q) \<noteq> (rp_tenant_id p, rp_pool_key p) \<Longrightarrow>
      held dim q (leases d') = held dim q (leases d)"
  shows "capacity_inv d'"
proof -
  have "capacity_ok q (leases d')" if q: "q \<in> set (pools d)" for q
  proof (cases "(rp_tenant_id q, rp_pool_key q) = (rp_tenant_id p, rp_pool_key p)")
    case True
    have "q = p"
      by (rule pool_key.key_inj [OF leases_okD(1) [OF i] q p]) (use True in simp)
    then show ?thesis using fits same by (simp add: capacity_ok_iff)
  next
    case False
    then show ?thesis using c q other by (simp add: capacity_inv_def list_all_iff capacity_ok_def)
  qed
  then show ?thesis using assms(4) by (simp add: capacity_inv_def list_all_iff)
qed

lemma lease_of_slot:
  assumes "lease_of tenant tid eid key l"
  shows "lease_of tenant tid eid key = (\<lambda>m. (l_tenant_id m, l_task_id m, l_execution_id m, l_pool_key m) =
    (l_tenant_id l, l_task_id l, l_execution_id l, l_pool_key l))"
  using assms by (auto simp: lease_of_def)

lemma lease_taken_evolves: "lease_evolves l (lease_taken now lid owner req leaseMs l)"
  by (simp add: lease_evolves_def lease_taken_def)

text \<open>Granting within the capacity that the live leases leave.\<close>

lemma grant_lease_good:
  assumes g: "grant_lease s now p vl lid tenant key tid eid owner req leaseMs d = Inr (x, d')"
    and vis: "visible s tenant" and p: "p \<in> set (pools d)" "rp_tenant_id p = tenant" "rp_pool_key p = key"
    and live: "\<And>l. l \<in> set (leases d) \<Longrightarrow> l_tenant_id l = tenant \<Longrightarrow> l_pool_key l = key \<Longrightarrow>
      l_state l = L_active \<Longrightarrow> lease_live now l"
    and vl: "\<And>l. vl = Some l \<Longrightarrow> l \<in> set (leases d) \<and> lease_of tenant tid eid key l \<and> \<not> lease_live now l"
  shows "lease_good s d d'"
proof -
  have sums: "used dim tenant key (\<lambda>_. True) (select_rows s lease_table (lease_live now) (leases d)) = held dim p (leases d)"
    for dim using held_live [of s p "leases d" now dim] vis live p(2,3) by simp
  have fits: "held dim p (leases d) + dim req \<le> dim (rp_capacity p)" if "dim \<in> dims" for dim
    using g that by (auto simp: grant_lease_def sums dims_def split: if_splits)
  show ?thesis
  proof (cases vl)
    case None
    let ?l = "new_lease now lid tenant key tid eid (btrim owner) req leaseMs"
    obtain rows where ins: "insert_row s lease_table ?l (leases d) = Inr rows" and d': "d' = d\<lparr>leases := rows\<rparr>"
      and fk: "list_ex (\<lambda>p. rp_tenant_id p = tenant \<and> rp_pool_key p = key) (pools d)"
        "task_key_exists tid tenant d" "execution_key_exists eid tenant d"
      using g by (auto simp: grant_lease_def None Let_def split: if_split_asm)
    have "fair s d d'" unfolding d'
      by (rule fair_insert_lease [OF ins]) (use fk in \<open>simp_all add: new_lease_def\<close>)
    moreover have "capacity_inv d'" if "inv d" "capacity_inv d"
      by (rule capacity_inv_grow [OF that(2,1) p(1) _ fits])
        (simp_all add: d' insert_row_ok(1) [OF ins] held_share share_def new_lease_def p, auto)
    ultimately show ?thesis by (simp add: lease_good_def d' quiet_steps_def)
  next
    case (Some l)
    note L = vl [OF Some]
    obtain rows where upd: "update_rows s lease_table (lease_of tenant tid eid key)
        (lease_taken now lid (btrim owner) req leaseMs) (leases d) = Inr rows" and d': "d' = d\<lparr>leases := rows\<rparr>"
      using g by (auto simp: grant_lease_def Some Let_def split: if_split_asm)
    have "fair s d d'" unfolding d'
      by (rule fair_update_leases [OF upd lease_taken_evolves]) (simp_all add: lease_taken_def)
    moreover have "capacity_inv d'" if i: "inv d" and c: "capacity_inv d"
    proof -
      note ok = leases_okD(2) [OF i]
      have l: "l \<in> set (leases d)" "l_tenant_id l = tenant" "l_pool_key l = key" "l_state l \<noteq> L_active"
        using L live [of l] by (auto simp: lease_of_def)
      have rows: "rows = upd_where (\<lambda>m. (l_tenant_id m, l_task_id m, l_execution_id m, l_pool_key m) =
          (l_tenant_id l, l_task_id l, l_execution_id l, l_pool_key l)) (lease_taken now lid (btrim owner) req leaseMs) (leases d)"
        by (rule lease_slot.update_by_key [OF _ ok l(1)])
          (use upd lease_of_slot [of tenant tid eid key l] L vis l(2) in \<open>simp_all add: tables\<close>)
      have "held dim q rows = held dim q (leases d) - share dim q l +
          share dim q (lease_taken now lid (btrim owner) req leaseMs l)" for dim q
        unfolding held_share rows by (rule sum_upd_one [OF lease_slot.distinct_keys [OF ok] l(1)])
      then show ?thesis
        by (intro capacity_inv_grow [OF c i p(1) _ fits])
          (use l p in \<open>auto simp: d' share_def lease_taken_def\<close>)
    qed
    ultimately show ?thesis by (simp add: lease_good_def d' quiet_steps_def)
  qed
qed

lemma update_leases_eq:
  "update_rows s lease_table q f (leases d) = Inr rows \<Longrightarrow>
    leases (d\<lparr>leases := rows\<rparr>) = upd_where (\<lambda>l. visible s (l_tenant_id l) \<and> q l) f (leases d)"
  by (drule update_rows_ok(1)) (simp add: tables)

text \<open>A statement on leases that gives nothing new.\<close>

lemma shrink_leases_good:
  assumes upd: "update_rows s lease_table q f (leases d) = Inr rows"
    and f: "\<And>l. lease_evolves l (f l) \<or> \<not> q l" "\<And>l. l_tenant_id (f l) = l_tenant_id l" "\<And>l. l_pool_key (f l) = l_pool_key l"
      "\<And>l. l_task_id (f l) = l_task_id l" "\<And>l. l_execution_id (f l) = l_execution_id l"
    and sh: "\<And>l. l_state (f l) \<noteq> L_active \<or> (l_request (f l) = l_request l \<and> l_state (f l) = l_state l)"
  shows "lease_good s d (d\<lparr>leases := rows\<rparr>)"
  unfolding lease_good_def
proof (intro conjI impI)
  show "fair s d (d\<lparr>leases := rows\<rparr>)"
    by (rule fair_update_leases [OF upd]) (use f in blast)+
  show "capacity_inv (d\<lparr>leases := rows\<rparr>)" if "inv d" "capacity_inv d"
    by (rule capacity_upd_le [OF that(2) update_leases_eq [OF upd] _ leases_okD(2) [OF that(1)]])
      (use f(2,3) sh in auto)
qed (simp add: quiet_steps_def)

lemma expire_leases_live:
  assumes upd: "update_rows s lease_table (\<lambda>l. l_tenant_id l = tenant \<and> l_pool_key l = key \<and> lease_lapsed now l)
      (lease_expired now) rows = Inr rows'" and vis: "visible s tenant"
    and l: "l \<in> set rows'" "l_tenant_id l = tenant" "l_pool_key l = key" "l_state l = L_active"
  shows "lease_live now l"
proof -
  have "l \<in> set (upd_where (\<lambda>r. visible s (tb_tenant lease_table r) \<and> l_tenant_id r = tenant \<and>
      l_pool_key r = key \<and> lease_lapsed now r) (lease_expired now) rows)"
    using l(1) update_rows_ok(1) [OF upd] by simp
  then show ?thesis
  proof (rule in_upd_whereE)
    fix r
    assume r: "r \<in> set rows" "l = (if visible s (tb_tenant lease_table r) \<and> l_tenant_id r = tenant \<and>
      l_pool_key r = key \<and> lease_lapsed now r then lease_expired now r else r)"
    then show ?thesis
      using l(2-4) vis by (auto simp: lease_live_def lease_lapsed_def lease_expired_def tables split: if_split_asm)
  qed
qed

lemma lease_from_pool_good:
  assumes c: "lease_from_pool s now p lid tenant key tid eid owner cap req leaseMs d = Inr (x, d')"
    and vis: "visible s tenant" and p: "p \<in> set (pools d)" "rp_tenant_id p = tenant" "rp_pool_key p = key"
  shows "lease_good s d d'"
proof -
  obtain rows where upd: "update_rows s lease_table (\<lambda>l. l_tenant_id l = tenant \<and> l_pool_key l = key \<and> lease_lapsed now l)
        (lease_expired now) (leases d) = Inr rows"
    and rest: "(case select_one s lease_table (lease_of tenant tid eid key) rows of
        None \<Rightarrow> grant_lease s now p None lid tenant key tid eid owner req leaseMs (d\<lparr>leases := rows\<rparr>)
      | Some l \<Rightarrow> if lease_live now l then
            (if l_lease_owner l = btrim owner \<and> l_request l = req then Inr (l, d\<lparr>leases := rows\<rparr>)
             else fail ''RHINOQ_RESOURCE_LEASE_HELD'' key)
          else grant_lease s now p (Some l) lid tenant key tid eid owner req leaseMs (d\<lparr>leases := rows\<rparr>)) = Inr (x, d')"
    using c unfolding lease_from_pool_def by (auto split: if_split_asm)
  note live = expire_leases_live [OF upd vis]
  have 1: "lease_good s d (d\<lparr>leases := rows\<rparr>)"
    by (rule shrink_leases_good [OF upd])
      (auto simp: lease_expired_def lease_evolves_def lease_lapsed_def)
  have "lease_good s (d\<lparr>leases := rows\<rparr>) d'"
  proof (cases "d' = d\<lparr>leases := rows\<rparr>")
    case False
    with rest obtain vl where g: "grant_lease s now p vl lid tenant key tid eid owner req leaseMs (d\<lparr>leases := rows\<rparr>) = Inr (x, d')"
      and vl: "\<And>l. vl = Some l \<Longrightarrow> l \<in> set rows \<and> lease_of tenant tid eid key l \<and> \<not> lease_live now l"
      using select_one_SomeD [of s lease_table "lease_of tenant tid eid key" rows]
      by (auto split: if_split_asm option.split_asm variable_conflict.split_asm)
    show ?thesis
      by (rule grant_lease_good [OF g vis]) (use p live vl in simp_all)
  qed simp
  with 1 show ?thesis by (rule lease_good_trans)
qed

lemma acquire_resource_lease_sound [cmd_inv]:
  "sound_leases s (acquire_resource_lease s now lid pkey tid eid owner cap req leaseMs)"
  unfolding sound_leases_def
proof (intro allI impI)
  fix d x d'
  assume "acquire_resource_lease s now lid pkey tid eid owner cap req leaseMs d = Inr (x, d')"
  then obtain t found rows p where t: "select_task s tid d = Some t"
    and ins: "insert_row_or_nothing s pool_table (new_pool now (t_tenant_id t) (btrim pkey) cap) (pools d) = Inr (found, rows)"
    and p: "select_one s pool_table (\<lambda>p. rp_tenant_id p = t_tenant_id t \<and> rp_pool_key p = btrim pkey) rows = Some p"
    and r: "lease_from_pool s now p lid (t_tenant_id t) (btrim pkey) tid eid owner cap req leaseMs (d\<lparr>pools := rows\<rparr>) = Inr (x, d')"
    unfolding acquire_resource_lease_def Let_def unqualified_def
    by (auto split: if_split_asm option.split_asm variable_conflict.split_asm)
  note P = select_one_SomeD [OF p]
  show "lease_good s d d'"
    by (rule lease_good_trans [OF insert_pool_good [OF ins] lease_from_pool_good [OF r]])
      (use P insert_row_or_nothing_ok(2) [OF ins] in \<open>auto simp: tables new_pool_def\<close>)
qed

lemma renew_resource_lease_sound [cmd_inv]: "sound_leases s (renew_resource_lease s now lid owner epoch leaseMs)"
  unfolding sound_leases_def
proof (intro allI impI)
  fix d x d'
  assume "renew_resource_lease s now lid owner epoch leaseMs d = Inr (x, d')"
  then obtain l rows where l: "select_one s lease_table (\<lambda>l. l_id l = lid) (leases d) = Some l" "l_state l = L_active"
    and upd: "update_rows s lease_table (\<lambda>m. l_id m = l_id l) (lease_renewed now leaseMs) (leases d) = Inr rows"
    and d': "d' = d\<lparr>leases := rows\<rparr>"
    unfolding renew_resource_lease_def unqualified_def by (auto split: if_split_asm option.split_asm variable_conflict.split_asm)
  note L = select_one_SomeD [OF l(1)]
  have "fair s d d'" unfolding d'
    by (rule fair_update_leases [OF upd])
      (use L l(2) lease_key.key_inj [OF leases_okD(2)] in \<open>auto simp: lease_renewed_def lease_evolves_def\<close>)
  moreover have "capacity_inv d'" if "inv d" "capacity_inv d"
    unfolding d'
      by (rule capacity_upd_le [OF that(2) update_leases_eq [OF upd] _ leases_okD(2) [OF that(1)]])
        (simp_all add: lease_renewed_def)
  ultimately show "lease_good s d d'" by (simp add: lease_good_def d' quiet_steps_def)
qed

lemma release_resource_lease_sound [cmd_inv]: "sound_leases s (release_resource_lease s now lid owner epoch)"
  unfolding sound_leases_def
proof (intro allI impI)
  fix d x d'
  assume c: "release_resource_lease s now lid owner epoch d = Inr (x, d')"
  show "lease_good s d d'"
  proof (cases "d' = d")
    case False
    with c obtain l rows where l: "select_one s lease_table (\<lambda>l. l_id l = lid) (leases d) = Some l" "l_state l = L_active"
      and upd: "update_rows s lease_table (\<lambda>m. l_id m = l_id l) (lease_released now) (leases d) = Inr rows"
      and d': "d' = d\<lparr>leases := rows\<rparr>"
      unfolding release_resource_lease_def by (auto split: if_split_asm option.split_asm variable_conflict.split_asm)
    note L = select_one_SomeD [OF l(1)]
    have "fair s d d'" unfolding d'
      by (rule fair_update_leases [OF upd])
        (use L l(2) lease_key.key_inj [OF leases_okD(2)] in \<open>auto simp: lease_released_def lease_evolves_def\<close>)
    moreover have "capacity_inv d'" if "inv d" "capacity_inv d"
      unfolding d'
        by (rule capacity_upd_le [OF that(2) update_leases_eq [OF upd] _ leases_okD(2) [OF that(1)]])
          (simp_all add: lease_released_def)
    ultimately show ?thesis by (simp add: lease_good_def d' quiet_steps_def)
  qed simp
qed

end
