(* ===== verification/System.thy ===== *)
theory System
  imports Resource_Leases
begin

text \<open>
  The commands together: a \<open>call\<close> is one invocation of a schema function or of a client statement
  with its arguments, a \<open>request\<close> adds the session that sends it and the time of its transaction.
  A call that raises leaves the database as it was; one that returns commits. The contracts of the
  single commands become facts about every sequence of requests.
\<close>

section \<open>Calls\<close>

datatype task_call =
    Create_task string string string "string option" int
  | Create_task_v1 string string "string option" int
  | Transition_task string int string
  | Report_progress string int int "int option" "string option"
  | Request_cancellation string int
  | Resolve_cancellation string int string "string option"
  | Attach_task_result string int string
  | Settle_items string
  | Sync_item_progress string

datatype execution_call =
    Create_execution string string "string option" string "string option" "string option"
  | Bind_execution string int string "string option" string
  | Transition_execution string int string "string option"
  | Transition_execution_for_owner string string string int string "string option"
  | Attach_execution_result string int string
  | Retry_execution string int string
  | Claim_item_effect string string

datatype waitpoint_call =
    Create_waitpoint string string string string int "int option"
  | Resolve_waitpoint string string string int string string string string
  | Expire_waitpoints int

datatype evidence_call =
    Record_verification string string string string "string option" "string option" "string option"
      "string option" "string option" "int option" "string option" int
  | Register_artifact string string "string option" string string int string string int string
  | Refresh_artifact string int string int
  | Retention_claim string nat int int
  | Retention_complete string string
  | Retention_fail string string

datatype outbox_call =
    Queue_notification string string string string string string string int "string option"
  | Claim_notification string int
  | Complete_notification string string
  | Fail_notification string string string int

datatype checkpoint_call =
    Upsert_checkpoint string string string string int string string "bool option" "int option"
  | Delete_execution_checkpoints string

datatype step_call =
    Acquire_durable_step string string string "string option" int string int string int int
  | Renew_durable_step string string string int int
  | Complete_durable_step string string string int string "string option"
  | Fail_durable_step string string string int "string option"
  | Cancel_durable_step string string string int "string option"

datatype lease_call =
    Acquire_resource_lease string string string string string resources resources int
  | Renew_resource_lease string string int int
  | Release_resource_lease string string int

datatype call = Task_call task_call | Execution_call execution_call | Waitpoint_call waitpoint_call | Evidence_call evidence_call
  | Outbox_call outbox_call | Checkpoint_call checkpoint_call | Step_call step_call | Lease_call lease_call

type_synonym request = "session \<times> int \<times> call"

text \<open>A transaction: committed when the command returns, rolled back when it raises.\<close>

definition committed :: "'a command \<Rightarrow> db \<Rightarrow> db" where
  "committed c d = (case c d of Inl _ \<Rightarrow> d | Inr (_, d') \<Rightarrow> d')"

primrec perform_task :: "session \<Rightarrow> int \<Rightarrow> task_call \<Rightarrow> db \<Rightarrow> db" where
  "perform_task s now (Create_task a b c e f) = committed (create_task s now a b c e f)"
| "perform_task s now (Create_task_v1 a b c e) = committed (create_task_v1 s now a b c e)"
| "perform_task s now (Transition_task a b c) = committed (transition_task s now a b c)"
| "perform_task s now (Report_progress a b c e f) = committed (report_progress s now a b c e f)"
| "perform_task s now (Request_cancellation a b) = committed (request_cancellation s now a b)"
| "perform_task s now (Resolve_cancellation a b c e) = committed (resolve_cancellation s now a b c e)"
| "perform_task s now (Attach_task_result a b c) = committed (attach_task_result s now a b c)"
| "perform_task s now (Settle_items a) = committed (settle_items s now a)"
| "perform_task s now (Sync_item_progress a) = committed (sync_item_progress s now a)"

primrec perform_execution :: "session \<Rightarrow> int \<Rightarrow> execution_call \<Rightarrow> db \<Rightarrow> db" where
  "perform_execution s now (Create_execution a b c e f g) = committed (create_execution s now a b c e f g)"
| "perform_execution s now (Bind_execution a b c e f) = committed (bind_execution s now a b c e f)"
| "perform_execution s now (Transition_execution a b c e) = committed (transition_execution s now a b c e)"
| "perform_execution s now (Transition_execution_for_owner a b c e f g) =
    committed (transition_execution_for_owner s now a b c e f g)"
| "perform_execution s now (Attach_execution_result a b c) = committed (attach_execution_result s now a b c)"
| "perform_execution s now (Retry_execution a b c) = committed (retry_execution s now a b c)"
| "perform_execution s now (Claim_item_effect a b) = committed (claim_item_effect s now a b)"

primrec perform_waitpoint :: "session \<Rightarrow> int \<Rightarrow> waitpoint_call \<Rightarrow> db \<Rightarrow> db" where
  "perform_waitpoint s now (Create_waitpoint a b c e f g) = committed (create_waitpoint s now a b c e f g)"
| "perform_waitpoint s now (Resolve_waitpoint a b c e f g h i) = committed (resolve_waitpoint s now a b c e f g h i)"
| "perform_waitpoint s now (Expire_waitpoints a) = committed (expire_waitpoints s now a)"

primrec perform_evidence :: "session \<Rightarrow> int \<Rightarrow> evidence_call \<Rightarrow> db \<Rightarrow> db" where
  "perform_evidence s now (Record_verification a b c e f g h i j k l m) =
    committed (record_verification s now a b c e f g h i j k l m)"
| "perform_evidence s now (Register_artifact a b c e f g h i j k) = committed (register_artifact s now a b c e f g h i j k)"
| "perform_evidence s now (Refresh_artifact a b c e) = committed (refresh_artifact s now a b c e)"
| "perform_evidence s now (Retention_claim a b c e) = committed (retention_claim s now a b c e)"
| "perform_evidence s now (Retention_complete a b) = committed (retention_complete s now a b)"
| "perform_evidence s now (Retention_fail a b) = committed (retention_fail s now a b)"

primrec perform_outbox :: "session \<Rightarrow> int \<Rightarrow> outbox_call \<Rightarrow> db \<Rightarrow> db" where
  "perform_outbox s now (Queue_notification a b c e f g h i j) =
    committed (queueTaskNotification s now a b c e f g h i j)"
| "perform_outbox s now (Claim_notification a b) = committed (claimTaskNotification s now a b)"
| "perform_outbox s now (Complete_notification a b) = committed (completeTaskNotification s now a b)"
| "perform_outbox s now (Fail_notification a b c e) = committed (failTaskNotification s now a b c e)"

primrec perform_checkpoint :: "session \<Rightarrow> int \<Rightarrow> checkpoint_call \<Rightarrow> db \<Rightarrow> db" where
  "perform_checkpoint s now (Upsert_checkpoint a b c e f g h i j) = committed (upsert_checkpoint s now a b c e f g h i j)"
| "perform_checkpoint s now (Delete_execution_checkpoints a) = committed (delete_execution_checkpoints s a)"

primrec perform_step :: "session \<Rightarrow> int \<Rightarrow> step_call \<Rightarrow> db \<Rightarrow> db" where
  "perform_step s now (Acquire_durable_step a b c e f g h i j k) =
    committed (acquire_durable_step s now a b c e f g h i j k)"
| "perform_step s now (Renew_durable_step a b c e f) = committed (renew_durable_step s now a b c e f)"
| "perform_step s now (Complete_durable_step a b c e f g) = committed (complete_durable_step s now a b c e f g)"
| "perform_step s now (Fail_durable_step a b c e f) = committed (fail_durable_step s now a b c e f)"
| "perform_step s now (Cancel_durable_step a b c e f) = committed (cancel_durable_step s now a b c e f)"

primrec perform_lease :: "session \<Rightarrow> int \<Rightarrow> lease_call \<Rightarrow> db \<Rightarrow> db" where
  "perform_lease s now (Acquire_resource_lease a b c e f g h i) =
    committed (acquire_resource_lease s now a b c e f g h i)"
| "perform_lease s now (Renew_resource_lease a b c e) = committed (renew_resource_lease s now a b c e)"
| "perform_lease s now (Release_resource_lease a b c) = committed (release_resource_lease s now a b c)"

primrec perform :: "session \<Rightarrow> int \<Rightarrow> call \<Rightarrow> db \<Rightarrow> db" where
  "perform s now (Task_call c) = perform_task s now c"
| "perform s now (Execution_call c) = perform_execution s now c"
| "perform s now (Waitpoint_call c) = perform_waitpoint s now c"
| "perform s now (Evidence_call c) = perform_evidence s now c"
| "perform s now (Outbox_call c) = perform_outbox s now c"
| "perform s now (Checkpoint_call c) = perform_checkpoint s now c"
| "perform s now (Step_call c) = perform_step s now c"
| "perform s now (Lease_call c) = perform_lease s now c"

definition serve :: "request \<Rightarrow> db \<Rightarrow> db" where
  "serve r = (case r of (s, now, c) \<Rightarrow> perform s now c)"

section \<open>What every call keeps\<close>

definition full_inv :: "db \<Rightarrow> bool" where
  "full_inv d \<longleftrightarrow> inv d \<and> steps_inv d \<and> capacity_inv d"

definition advances :: "db \<Rightarrow> db \<Rightarrow> bool" where
  "advances d d' \<longleftrightarrow> evolves d d' \<and> children_evolve d d'"

definition holds_contract :: "session \<Rightarrow> db \<Rightarrow> db \<Rightarrow> bool" where
  "holds_contract s d d' \<longleftrightarrow> (full_inv d \<longrightarrow> full_inv d' \<and> advances d d' \<and> hidden_db s d' = hidden_db s d)"

lemma committed_cases: "committed c d = d \<or> (\<exists>x. c d = Inr (x, committed c d))"
  by (cases "c d") (auto simp: committed_def)

lemma contract_refl: "holds_contract s d d"
  by (simp add: holds_contract_def advances_def evolves_refl children_evolve_refl)

lemma contract_sound:
  assumes "sound s c"
  shows "holds_contract s d (committed c d)"
  using committed_cases [of c d]
proof
  assume "\<exists>x. c d = Inr (x, committed c d)"
  then have "good s d (committed c d)" using soundD [OF assms] by blast
  then show ?thesis
    by (auto simp: holds_contract_def full_inv_def advances_def good_def fair_def steps_inv_cong capacity_inv_cong)
qed (simp add: contract_refl)

lemma contract_sound_steps:
  assumes "sound_steps s c"
  shows "holds_contract s d (committed c d)"
  using committed_cases [of c d]
proof
  assume "\<exists>x. c d = Inr (x, committed c d)"
  then have "step_good s d (committed c d)" using assms unfolding sound_steps_def by blast
  then show ?thesis
    by (auto simp: holds_contract_def full_inv_def advances_def step_good_def fair_def capacity_inv_cong)
qed (simp add: contract_refl)

lemma contract_sound_leases:
  assumes "sound_leases s c"
  shows "holds_contract s d (committed c d)"
  using committed_cases [of c d]
proof
  assume "\<exists>x. c d = Inr (x, committed c d)"
  then have "lease_good s d (committed c d)" using assms unfolding sound_leases_def by blast
  then show ?thesis
    by (auto simp: holds_contract_def full_inv_def advances_def lease_good_def fair_def steps_inv_cong)
qed (simp add: contract_refl)

lemma perform_task_contract: "holds_contract s d (perform_task s now c d)"
  by (cases c) (simp_all add: contract_sound cmd_inv)

lemma perform_execution_contract: "holds_contract s d (perform_execution s now c d)"
  by (cases c) (simp_all add: contract_sound cmd_inv)

lemma perform_waitpoint_contract: "holds_contract s d (perform_waitpoint s now c d)"
  by (cases c) (simp_all add: contract_sound cmd_inv)

lemma perform_evidence_contract: "holds_contract s d (perform_evidence s now c d)"
  by (cases c) (simp_all add: contract_sound cmd_inv)

lemma perform_outbox_contract: "holds_contract s d (perform_outbox s now c d)"
  by (cases c) (simp_all add: contract_sound cmd_inv)

lemma perform_checkpoint_contract: "holds_contract s d (perform_checkpoint s now c d)"
  by (cases c) (simp_all add: contract_sound cmd_inv)

lemma perform_step_contract: "holds_contract s d (perform_step s now c d)"
  by (cases c) (simp_all add: contract_sound_steps cmd_inv)

lemma perform_lease_contract: "holds_contract s d (perform_lease s now c d)"
  by (cases c) (simp_all add: contract_sound_leases cmd_inv)

lemma perform_contract: "holds_contract s d (perform s now c d)"
  by (cases c) (simp_all add: perform_task_contract perform_execution_contract perform_waitpoint_contract perform_evidence_contract
      perform_outbox_contract perform_checkpoint_contract perform_step_contract perform_lease_contract)

lemma serve_contract: "holds_contract (fst r) d (serve r d)"
  by (cases r) (simp add: serve_def perform_contract)

section \<open>Runs\<close>

interpretation sys: stepwise serve full_inv advances
proof
  show "full_inv d \<Longrightarrow> full_inv (serve r d)" "full_inv d \<Longrightarrow> advances d (serve r d)" for r d
    using serve_contract [of r d] by (simp_all add: holds_contract_def)
  show "advances d d" for d by (simp add: advances_def evolves_refl children_evolve_refl)
  show "advances d d1 \<Longrightarrow> advances d1 d2 \<Longrightarrow> advances d d2" for d d1 d2
    unfolding advances_def using evolves_trans children_evolve_trans by blast
qed

text \<open>The rows of one tenant.\<close>

definition tenant_db :: "string \<Rightarrow> db \<Rightarrow> db" where
  "tenant_db x d = \<lparr>tasks = filter (\<lambda>t. t_tenant_id t = x) (tasks d),
    executions = filter (\<lambda>e. e_tenant_id e = x) (executions d),
    waitpoints = filter (\<lambda>w. w_tenant_id w = x) (waitpoints d),
    verifications = filter (\<lambda>v. v_tenant_id v = x) (verifications d),
    artifacts = filter (\<lambda>a. a_tenant_id a = x) (artifacts d),
    outbox = filter (\<lambda>n. n_tenant_id n = x) (outbox d),
    checkpoints = filter (\<lambda>k. k_tenant_id k = x) (checkpoints d),
    steps = filter (\<lambda>r. ds_tenant_id r = x) (steps d),
    step_attempts = filter (\<lambda>a. da_tenant_id a = x) (step_attempts d),
    pools = filter (\<lambda>p. rp_tenant_id p = x) (pools d),
    leases = filter (\<lambda>l. l_tenant_id l = x) (leases d), notices = []\<rparr>"

lemma filter_hidden:
  assumes "\<not> visible s x"
  shows "filter (\<lambda>r. tb_tenant T r = x) (hidden s T rows) = filter (\<lambda>r. tb_tenant T r = x) rows"
  using assms by (auto simp: hidden_def intro!: filter_cong)

lemma tenant_db_hidden:
  assumes "\<not> visible s x"
  shows "tenant_db x (hidden_db s d) = tenant_db x d"
  using filter_hidden [OF assms, of task_table] filter_hidden [OF assms, of execution_table]
    filter_hidden [OF assms, of waitpoint_table] filter_hidden [OF assms, of verification_table]
    filter_hidden [OF assms, of artifact_table] filter_hidden [OF assms, of outbox_table]
    filter_hidden [OF assms, of checkpoint_table] filter_hidden [OF assms, of step_table]
    filter_hidden [OF assms, of attempt_table] filter_hidden [OF assms, of pool_table]
    filter_hidden [OF assms, of lease_table]
  by (simp add: tenant_db_def hidden_db_def tables)

lemma serve_isolated:
  assumes "full_inv d" and "\<not> visible (fst r) x"
  shows "tenant_db x (serve r d) = tenant_db x d"
proof -
  have "hidden_db (fst r) (serve r d) = hidden_db (fst r) d"
    using serve_contract [of r d] assms(1) by (simp add: holds_contract_def)
  then show ?thesis using tenant_db_hidden [OF assms(2)] by metis
qed

lemma full_inv_empty [simp]: "full_inv empty_db"
  by (simp add: full_inv_def inv_def core_ok_def children_defs empty_db_def table_ok_def unique_by_def
      parents_ok_def counts_ok_def steps_inv_def capacity_inv_def)

section \<open>Facts about runs\<close>

abbreviation reached :: "request list \<Rightarrow> db" where
  "reached rs \<equiv> fold serve rs empty_db"

lemma reached_inv: "full_inv (reached rs)"
  by (rule sys.ok_run) simp

lemma full_invD:
  assumes "full_inv d"
  shows "inv d" "core_ok d" "steps_inv d" "capacity_inv d"
  using assms inv_parts(1) by (auto simp: full_inv_def)

lemmas reached_parts = full_invD [OF reached_inv]

lemma commit_reached:
  assumes "c (reached rs) = Inr (x, d1)" and "serve r (reached rs) = committed c (reached rs)"
  shows "d1 = reached (rs @ [r])"
  using assms by (simp add: committed_def)

lemma run_advances: "full_inv d \<Longrightarrow> advances d (fold serve rs d)"
  by (rule sys.le_run)

lemma advancesE:
  assumes "advances d d'"
  shows "t \<in> set (tasks d) \<Longrightarrow> \<exists>u \<in> set (tasks d'). task_evolves t u"
    and "e \<in> set (executions d) \<Longrightarrow> \<exists>f \<in> set (executions d'). exec_evolves e f"
    and "w \<in> set (waitpoints d) \<Longrightarrow> \<exists>u \<in> set (waitpoints d'). waitpoint_evolves w u"
    and "n \<in> set (outbox d) \<Longrightarrow> \<exists>m \<in> set (outbox d'). outbox_evolves n m"
    and "r \<in> set (steps d) \<Longrightarrow> \<exists>q \<in> set (steps d'). step_evolves r q"
    and "a \<in> set (step_attempts d) \<Longrightarrow> \<exists>b \<in> set (step_attempts d'). attempt_evolves a b"
    and "l \<in> set (leases d) \<Longrightarrow> \<exists>m \<in> set (leases d'). lease_evolves l m"
  using assms unfolding advances_def evolves_def children_evolve_def by (meson rows_evolveE)+

lemma select_task_later:
  assumes adv: "advances d d'" and ok: "core_ok d'" and t: "t \<in> set (tasks d)"
    and u: "select_task s (t_id t) d' = Some u"
  shows "task_evolves t u"
proof -
  obtain t' where t': "t' \<in> set (tasks d')" "task_evolves t t'" using advancesE(1) [OF adv t] by blast
  have "t' = u"
    using task_key.key_inj [OF wfD(1) [OF ok] t'(1) select_taskD(1) [OF u]] select_taskD(3) [OF u] t'(2)
    by (simp add: task_evolves_def)
  then show ?thesis using t'(2) by simp
qed

lemma select_execution_later:
  assumes adv: "advances d d'" and ok: "core_ok d'" and e: "e \<in> set (executions d)"
    and u: "select_execution s (e_id e) d' = Some f"
  shows "exec_evolves e f"
proof -
  obtain e' where e': "e' \<in> set (executions d')" "exec_evolves e e'" using advancesE(2) [OF adv e] by blast
  have "e' = f"
    using execution_key.key_inj [OF wfD(2) [OF ok] e'(1) select_executionD(1) [OF u]] select_executionD(3) [OF u] e'(2)
    by (simp add: exec_evolves_def)
  then show ?thesis using e'(2) by simp
qed

text \<open>Attempts of one Task carry its tenant.\<close>

lemma attempt_tenants:
  assumes "core_ok d" and "e \<in> set (executions d)" "f \<in> set (executions d)" "e_task_id f = e_task_id e"
  shows "e_tenant_id f = e_tenant_id e"
proof -
  obtain t where t: "t \<in> set (tasks d)" "t_id t = e_task_id e"
    using parent_exists [OF assms(1,2)] by (auto simp: task_key_exists_def list_ex_iff)
  show ?thesis
    using task_of_key [OF wfD(1) [OF assms(1)] parent_exists [OF assms(1,2)] t]
      task_of_key [OF wfD(1) [OF assms(1)] parent_exists [OF assms(1,3)] t(1)] t(2) assms(4) by simp
qed

lemma parent_selected:
  assumes "core_ok d" and "e \<in> set (executions d)" and "visible s (e_tenant_id e)"
  obtains t where "select_task s (e_task_id e) d = Some t"
proof -
  obtain t where t: "t \<in> set (tasks d)" "t_id t = e_task_id e" "t_tenant_id t = e_tenant_id e"
    using parent_exists [OF assms(1,2)] by (auto simp: task_key_exists_def list_ex_iff)
  then show thesis using select_task_iff [OF wfD(1) [OF assms(1)] t(1)] assms(3) that by simp
qed

lemma later_parts:
  assumes "d1 = reached rs1"
  shows "advances d1 (fold serve rs d1)" and "inv (fold serve rs d1)" and "core_ok (fold serve rs d1)"
  using run_advances [OF reached_inv] full_invD(1,2) [OF sys.ok_run [OF reached_inv]] unfolding assms by blast+

end
