(* ===== verification/Samples.thy ===== *)
theory Samples
  imports System
begin

text \<open>Sessions and requests on which the properties are instantiated.\<close>

definition acme :: session where
  "acme = \<lparr>s_tenant_id = Some ''acme'', s_maintenance = None, s_variable_conflict = Use_column\<rparr>"

definition globex :: session where
  "globex = \<lparr>s_tenant_id = Some ''globex'', s_maintenance = None, s_variable_conflict = Conflict_error\<rparr>"

definition sample_run :: "request list" where
  "sample_run = [
    (acme, 100, Task_call (Create_task ''t1'' ''video'' ''acme'' (Some ''ann'') 1)),
    (acme, 110, Execution_call (Create_execution ''e1'' ''t1'' (Some ''clip'') ''bullmq'' None None)),
    (acme, 120, Task_call (Transition_task ''t1'' 2 ''queued'')),
    (acme, 130, Task_call (Transition_task ''t1'' 3 ''running''))]"

definition other_run :: "request list" where
  "other_run = [
    (globex, 200, Task_call (Create_task ''g1'' ''video'' ''globex'' None 1)),
    (globex, 210, Task_call (Transition_task ''t1'' 4 ''failed'')),
    (globex, 220, Execution_call (Create_execution ''e9'' ''t1'' None ''bullmq'' None None))]"

definition sha :: string where
  "sha = replicate 64 CHR ''a''"

text \<open>The databases these requests lead to, written out.\<close>

named_theorems sample_runs \<open>where the sample runs lead\<close>

definition sample_db :: db where
  "sample_db = empty_db\<lparr>tasks := [\<lparr>t_id = ''t1'', t_type = ''video'', t_tenant_id = ''acme'', t_owner_id = Some ''ann'', t_definition_version = 1,
      t_state = T_running, t_progress_completed = 0, t_progress_total = None, t_progress_message = None, t_result_ref = None,
      t_cancellation_status = C_none, t_cancellation_reason = None,
      t_counts = \<lparr>c_total = 1, c_pending_dispatch = 1, c_dispatched = 0, c_running = 0, c_succeeded = 0, c_failed = 0,
        c_stalled = 0, c_cancelled = 0\<rparr>,
      t_items_settled_at = None, t_version = 4, t_created_at = 100, t_updated_at = 130\<rparr>],
    executions := [\<lparr>e_id = ''e1'', e_task_id = ''t1'', e_tenant_id = ''acme'', e_item_key = ''clip'', e_attempt = 1,
      e_runtime = ''bullmq'', e_runtime_scope = '''', e_external_id = None, e_state = E_pending_dispatch, e_result_ref = None,
      e_failure_reason = None, e_superseded_at = None, e_effect_keys = [], e_version = 1, e_created_at = 110,
      e_updated_at = 110\<rparr>],
    notices := map (\<lambda>v. \<lparr>nt_task_id = ''t1'', nt_version = v, nt_tenant_id = ''acme''\<rparr>) [1, 2, 3, 4]\<rparr>"

lemma sample_reached [sample_runs]: "fold serve sample_run empty_db = sample_db"
  by code_simp

text \<open>The attempt is bound to a job of a queue.\<close>

definition bound_run :: "request list" where
  "bound_run = sample_run @ [(acme, 140, Execution_call (Bind_execution ''e1'' 1 ''bullmq'' (Some ''media'') ''job-7''))]"

definition bound_db :: db where
  "bound_db = empty_db\<lparr>tasks := [\<lparr>t_id = ''t1'', t_type = ''video'', t_tenant_id = ''acme'', t_owner_id = Some ''ann'', t_definition_version = 1,
      t_state = T_running, t_progress_completed = 0, t_progress_total = None, t_progress_message = None, t_result_ref = None,
      t_cancellation_status = C_none, t_cancellation_reason = None,
      t_counts = \<lparr>c_total = 1, c_pending_dispatch = 0, c_dispatched = 1, c_running = 0, c_succeeded = 0, c_failed = 0,
        c_stalled = 0, c_cancelled = 0\<rparr>,
      t_items_settled_at = None, t_version = 5, t_created_at = 100, t_updated_at = 140\<rparr>],
    executions := [\<lparr>e_id = ''e1'', e_task_id = ''t1'', e_tenant_id = ''acme'', e_item_key = ''clip'', e_attempt = 1,
      e_runtime = ''bullmq'', e_runtime_scope = ''media'', e_external_id = Some ''job-7'', e_state = E_dispatched, e_result_ref = None,
      e_failure_reason = None, e_superseded_at = None, e_effect_keys = [], e_version = 2, e_created_at = 110,
      e_updated_at = 140\<rparr>],
    notices := map (\<lambda>v. \<lparr>nt_task_id = ''t1'', nt_version = v, nt_tenant_id = ''acme''\<rparr>) [1, 2, 3, 4, 5]\<rparr>"

lemma bound_reached [sample_runs]: "fold serve bound_run empty_db = bound_db"
  by code_simp

lemma sample_later [sample_runs]: "fold serve (sample_run @ rs) empty_db = fold serve rs sample_db"
  by (simp add: sample_reached)

lemma sample_length: "length sample_run = 4"
  by (simp add: sample_run_def)

text \<open>The attempt is cancelled.\<close>

definition settle_run :: "request list" where
  "settle_run = sample_run @ [(acme, 140, Execution_call (Transition_execution ''e1'' 1 ''cancelled'' None))]"

definition settle_db :: db where
  "settle_db = sample_db\<lparr>
    tasks := map (\<lambda>t. t\<lparr>t_counts := (t_counts t)\<lparr>c_pending_dispatch := 0, c_cancelled := 1\<rparr>, t_version := 5, t_updated_at := 140\<rparr>)
      (tasks sample_db),
    executions := map (\<lambda>e. e\<lparr>e_state := E_cancelled, e_version := 2, e_updated_at := 140\<rparr>) (executions sample_db),
    notices := notices sample_db @ [\<lparr>nt_task_id = ''t1'', nt_version = 5, nt_tenant_id = ''acme''\<rparr>]\<rparr>"

lemma settle_reached [sample_runs]: "fold serve settle_run empty_db = settle_db"
  unfolding settle_run_def sample_later by code_simp

end
