(* ===== verification/Lease_Runs.thy ===== *)
theory Lease_Runs
  imports Samples
begin

text \<open>
  What the leases of durable steps and resource pools, the resolutions of waitpoints and the
  notification outbox promise along every run.
\<close>

section \<open>Resource pools\<close>

lemma used_le_held:
  assumes "table_ok lease_table rows" and "dim \<in> dims"
  shows "used dim (rp_tenant_id p) (rp_pool_key p) (lease_live now) rows \<le> held dim p rows"
proof -
  have "0 \<le> dim (l_request l)" if "l \<in> set rows" for l
    using dims_nonneg [OF assms(2) lease_requests_nonneg [OF assms(1) that]] .
  then show ?thesis
    unfolding held_def used_def by (induction rows) (auto simp: lease_live_def add_increasing)
qed

text \<open>
  C9: a pool is never overcommitted. In every reachable database and at every time the leases of a
  pool that are active and not lapsed ask, in each of the four dimensions, for no more than the
  pool's capacity.
\<close>

theorem pool_never_overcommitted:
  "list_all (\<lambda>p.
      used r_cpu (rp_tenant_id p) (rp_pool_key p) (lease_live now) (leases (fold serve rs empty_db)) \<le> r_cpu (rp_capacity p) \<and>
      used r_memory (rp_tenant_id p) (rp_pool_key p) (lease_live now) (leases (fold serve rs empty_db)) \<le> r_memory (rp_capacity p) \<and>
      used r_disk (rp_tenant_id p) (rp_pool_key p) (lease_live now) (leases (fold serve rs empty_db)) \<le> r_disk (rp_capacity p) \<and>
      used r_network (rp_tenant_id p) (rp_pool_key p) (lease_live now) (leases (fold serve rs empty_db)) \<le> r_network (rp_capacity p))
    (pools (fold serve rs empty_db))"
proof -
  have le: "used dim (rp_tenant_id p) (rp_pool_key p) (lease_live now) (leases (reached rs)) \<le> dim (rp_capacity p)"
    if "p \<in> set (pools (reached rs))" "dim \<in> dims" for p dim
    using used_le_held [OF leases_okD(2) [OF reached_parts(1)] that(2), of p now rs] reached_parts(4) [of rs] that
    by (force simp: capacity_inv_def list_all_iff capacity_ok_iff)
  then show ?thesis by (simp add: list_all_iff dims_def)
qed

section \<open>Durable steps\<close>

lemma filter_unique: "distinct xs \<Longrightarrow> a \<in> set xs \<Longrightarrow> (\<And>x. x \<in> set xs \<Longrightarrow> q x \<longleftrightarrow> x = a) \<Longrightarrow> filter q xs = [a]"
proof (induction xs)
  case (Cons x xs)
  show ?case
  proof (cases "x = a")
    case True
    then have "filter q xs = []" using Cons.prems by (auto simp: filter_empty_conv)
    then show ?thesis using Cons.prems(3) [of x] True by simp
  next
    case False
    then show ?thesis using Cons by auto
  qed
qed simp

text \<open>
  C10: a durable step runs once at a time. In every reachable database a step in state running has
  exactly one running attempt, and a step in any other state has none.
\<close>

theorem one_running_attempt:
  "list_all (\<lambda>r. length (filter (\<lambda>a. da_state a = A_running)
      (attempts_of (ds_id r) (step_attempts (fold serve rs empty_db)))) = (if ds_state r = S_running then 1 else 0))
    (steps (fold serve rs empty_db))"
proof -
  let ?d = "reached rs"
  have "length (filter (\<lambda>a. da_state a = A_running) (attempts_of (ds_id r) (step_attempts ?d))) =
    (if ds_state r = S_running then 1 else 0)" if r: "r \<in> set (steps ?d)" for r
  proof -
    let ?as = "attempts_of (ds_id r) (step_attempts ?d)"
    note h = steps_invD [OF reached_parts(3) r]
    obtain a where a: "a \<in> set ?as" "da_attempt a = ds_attempt r" "states_match (ds_state r) (da_state a)"
      using h by (auto simp: step_history_def list_ex_iff)
    have last: "b = a" if "b \<in> set ?as" "da_attempt b = da_attempt a" for b
      using that a(1) attempt_unique [OF reached_parts(1), of b rs a] by (simp add: attempts_of_def)
    have closed: "da_state b \<noteq> A_running" if "b \<in> set ?as" "b \<noteq> a" for b
      using h that last [OF that(1)] a(2) by (fastforce simp: step_history_def list_all_iff)
    show ?thesis
    proof (cases "ds_state r = S_running")
      case True
      have "distinct ?as"
        using attempt_key.distinct_keys [OF steps_okD(2) [OF reached_parts(1)], of rs]
        by (simp add: attempts_of_def distinct_map)
      then have "filter (\<lambda>a. da_state a = A_running) ?as = [a]"
        by (rule filter_unique [OF _ a(1)]) (use closed a(3) True in auto)
      then show ?thesis using True by simp
    next
      case False
      then have "da_state a \<noteq> A_running" using a(3) by (cases "ds_state r") auto
      then have "filter (\<lambda>a. da_state a = A_running) ?as = []"
        using closed by (auto simp: filter_empty_conv)
      then show ?thesis using False by simp
    qed
  qed
  then show ?thesis by (simp add: list_all_iff)
qed

lemmas held_defs = renew_durable_step_def complete_durable_step_def fail_durable_step_def
  cancel_durable_step_def with_held_step_def fail_def committed_def Let_def

lemma closed_attempt_later:
  assumes "a \<in> set (step_attempts (reached rs))" and "da_state a \<noteq> A_running"
    and "select_attempt s (da_id a) sid (fold serve rs' (reached rs)) = Some b"
  shows "b = a"
proof -
  let ?d = "fold serve rs' (reached rs)"
  obtain c where c: "c \<in> set (step_attempts ?d)" "attempt_evolves a c"
    using advancesE(6) [OF run_advances [OF reached_inv] assms(1)] by blast
  then have "c = a" using assms(2) by (simp add: attempt_evolves_def)
  moreover have "inv ?d" using full_invD(1) [OF sys.ok_run [OF reached_inv]] .
  ultimately show ?thesis
    using attempt_key.key_inj [OF steps_okD(2), of ?d b a] select_attemptD [OF assms(3)] c(1) by simp
qed

text \<open>
  C8: a holder that lost its step stays fenced. Once an attempt is closed (completed, failed, cancelled or
  expired by a takeover), renewing it is refused forever, and completing, failing or cancelling
  through it changes nothing in any later database, whoever calls with whatever owner and epoch.
\<close>

theorem closed_attempt_fenced:
  assumes a: "a \<in> set (step_attempts (fold serve rs empty_db))" "da_state a \<noteq> A_running"
  shows "(\<exists>e. renew_durable_step s now sid (da_id a) owner epoch leaseMs (fold serve rs' (fold serve rs empty_db)) = Inl e) \<and>
    committed (complete_durable_step s now sid (da_id a) owner epoch res ref) (fold serve rs' (fold serve rs empty_db)) =
      fold serve rs' (fold serve rs empty_db) \<and>
    committed (fail_durable_step s now sid (da_id a) owner epoch reason) (fold serve rs' (fold serve rs empty_db)) =
      fold serve rs' (fold serve rs empty_db) \<and>
    committed (cancel_durable_step s now sid (da_id a) owner epoch reason) (fold serve rs' (fold serve rs empty_db)) =
      fold serve rs' (fold serve rs empty_db)"
proof -
  let ?d = "fold serve rs' (reached rs)"
  show ?thesis
  proof (cases "select_step s sid ?d")
    case None
    then show ?thesis by (simp add: held_defs)
  next
    case step: (Some r)
    show ?thesis
    proof (cases "select_attempt s (da_id a) sid ?d")
      case None
      with step show ?thesis by (simp add: held_defs)
    next
      case (Some b)
      have "da_state b \<noteq> A_running" using closed_attempt_later [OF a Some] a(2) by simp
      with step Some show ?thesis by (simp add: held_defs)
    qed
  qed
qed

definition step_run :: "request list" where
  "step_run = sample_run @ [
    (acme, 1000, Step_call (Acquire_durable_step ''s1'' ''t1'' ''e1'' (Some ''clip'') 1 ''render'' 1 ''w1'' 1000 3)),
    (acme, 3000, Step_call (Acquire_durable_step ''s1'' ''t1'' ''e1'' (Some ''clip'') 1 ''render'' 1 ''w2'' 1000 3))]"

lemma step_reached [sample_runs]: "fold serve step_run empty_db = fold serve (drop 4 step_run) sample_db"
  by (simp add: step_run_def sample_reached sample_length)

theorem closed_attempt_fenced_witness:
  "committed (complete_durable_step acme 3500 ''s1'' ''s1:attempt:1'' ''w1'' 1 ''{}'' None)
      (fold serve other_run (fold serve step_run empty_db)) = fold serve other_run (fold serve step_run empty_db)"
proof -
  let ?a = "hd (step_attempts (fold serve step_run empty_db))"
  have a: "?a \<in> set (step_attempts (fold serve step_run empty_db))" "da_state ?a \<noteq> A_running" "da_id ?a = ''s1:attempt:1''"
    by ((unfold sample_runs)?, code_simp+)
  show ?thesis using closed_attempt_fenced [OF a(1,2)] unfolding a(3) by blast
qed


interpretation step_slot: keyed_table step_table "\<lambda>r. (ds_task_id r, ds_item_key r, ds_step_key r)"
  by unfold_locales (simp add: tables)

lemma complete_durable_step_row:
  assumes c: "complete_durable_step s now sid aid owner epoch res ref d = Inr (r, d1)" and i: "inv d"
  shows "r \<in> set (steps d1) \<and> ds_state r = S_completed \<and> ds_result r = Some res \<and> ds_result_ref r = trimmed_ref ref"
proof -
  obtain v a where v: "select_step s sid d = Some v" and a: "select_attempt s aid sid d = Some a"
    and k: "r = v \<and> d1 = d \<and> ds_state v = S_completed \<and> ds_result v = Some res \<and> ds_result_ref v = trimmed_ref ref \<or>
      (\<exists>e1 e2. update_attempt s (da_id a) (attempt_closed now A_completed None) d = Inr e1 \<and>
        update_step s (ds_id v) (step_completed now res (trimmed_ref ref)) e1 = Inr e2 \<and>
        update_task s (ds_task_id v) (touch_task now) e2 = Inr d1 \<and> r = step_completed now res (trimmed_ref ref) v)"
    using c by (auto simp: complete_durable_step_def with_held_step_Inr split: if_split_asm)
  note V = select_stepD [OF v] and A = select_attemptD [OF a]
  from k show ?thesis
  proof
    assume "\<exists>e1 e2. update_attempt s (da_id a) (attempt_closed now A_completed None) d = Inr e1 \<and>
        update_step s (ds_id v) (step_completed now res (trimmed_ref ref)) e1 = Inr e2 \<and>
        update_task s (ds_task_id v) (touch_task now) e2 = Inr d1 \<and> r = step_completed now res (trimmed_ref ref) v"
    then obtain e1 e2 where e: "update_attempt s (da_id a) (attempt_closed now A_completed None) d = Inr e1"
        "update_step s (ds_id v) (step_completed now res (trimmed_ref ref)) e1 = Inr e2"
        "update_task s (ds_task_id v) (touch_task now) e2 = Inr d1" "r = step_completed now res (trimmed_ref ref) v"
      by blast
    have "steps e1 = steps d" by (rule update_attemptD(2) [OF e(1) i A(1,2)])
    moreover have "steps d1 = steps e2" using rest_fields(6) [OF update_tasksD(3) [OF e(3)]] .
    moreover obtain rows where rows: "update_rows s step_table (\<lambda>x. ds_id x = ds_id v)
        (step_completed now res (trimmed_ref ref)) (steps e1) = Inr rows" "e2 = e1\<lparr>steps := rows\<rparr>"
      using e(2) by (auto simp: update_step_def)
    ultimately have "steps d1 = upd_where (\<lambda>x. visible s (ds_tenant_id x) \<and> ds_id x = ds_id v)
        (step_completed now res (trimmed_ref ref)) (steps d)"
      using update_rows_ok(1) [OF rows(1)] by simp
    then have "r \<in> set (steps d1)" using V e(4) by (auto simp: set_upd_where)
    then show ?thesis using e(4) by (simp add: step_completed_def)
  qed (use V in simp)
qed

lemma completed_step_kept:
  assumes "full_inv d" and "r \<in> set (steps d)" and "ds_state r = S_completed"
  shows "r \<in> set (steps (fold serve rs d))"
proof -
  obtain q where "q \<in> set (steps (fold serve rs d))" "step_evolves r q"
    using advancesE(5) [OF run_advances [OF assms(1)]] assms(2) by blast
  then show ?thesis using assms(3) by (simp add: step_evolves_def)
qed

lemma acquire_completed:
  assumes ok: "full_inv d" and r: "r \<in> set (steps d)" "ds_state r = S_completed"
    and k: "btrim (coalesce item ''default'') = ds_item_key r" "btrim key = ds_step_key r"
    and acq: "acquire_durable_step s now p_id (ds_task_id r) eid item tv key sv owner leaseMs maxAttempts d = Inr (g, d2)"
  shows "g = Reused r \<and> d2 = d"
proof -
  note L = full_invD [OF ok]
  obtain t v where t: "select_task s (ds_task_id r) d = Some t"
    and v: "select_one s step_table (\<lambda>x. ds_task_id x = ds_task_id r \<and> ds_item_key x = ds_item_key r \<and>
        ds_step_key x = ds_step_key r) (steps d) = v"
    and run: "(case v of None \<Rightarrow> start_step s now t p_id eid (ds_item_key r) (ds_step_key r) tv sv owner leaseMs d
      | Some st \<Rightarrow> reacquire_step s now t st eid (ds_step_key r) tv sv owner leaseMs maxAttempts d) = Inr (g, d2)"
    using acq k unfolding acquire_durable_step_def Let_def
    by (auto dest!: on_unique_violation_InrD split: if_split_asm option.split_asm)
  note T = select_taskD [OF t]
  have "visible s (ds_tenant_id r)"
    using T task_of_key [OF wfD(1) [OF L(2)], of "ds_task_id r" "ds_tenant_id r" t] r(1) steps_okD(3) [OF L(1), of r]
    by (simp add: task_key_exists_keys)
  then have "v = Some r" using step_slot.select_key [OF steps_okD(1) [OF L(1)], of r s] r(1) v by simp
  then show ?thesis using run r(2) by (simp add: reacquire_step_def split: if_split_asm)
qed

text \<open>
  C7: a completed step is never run again. After a completion was accepted with a result, every later
  acquisition of the same step of the same item either fails or hands out exactly that recorded
  row, with the result, and changes nothing: no further attempt is started.
\<close>

theorem completed_step_reused:
  assumes c: "complete_durable_step s now sid aid owner epoch res ref (fold serve rs empty_db) = Inr (r, d1)"
    and k: "btrim (coalesce item ''default'') = ds_item_key r" "btrim key = ds_step_key r"
    and acq: "acquire_durable_step s' now' p_id (ds_task_id r) eid item tv key sv owner' leaseMs maxAttempts
      (fold serve rs' d1) = Inr (g, d2)"
  shows "g = Reused r \<and> d2 = fold serve rs' d1 \<and> ds_result r = Some res"
proof -
  have d1: "d1 = reached (rs @ [(s, now, Step_call (Complete_durable_step sid aid owner epoch res ref))])"
    by (rule commit_reached [of "complete_durable_step s now sid aid owner epoch res ref", OF c]) (simp add: serve_def)
  note R = complete_durable_step_row [OF c reached_parts(1)]
  have "r \<in> set (steps (fold serve rs' d1))" using completed_step_kept [of d1 r rs'] R reached_inv d1 by metis
  then show ?thesis using acquire_completed [OF _ _ _ k acq] R sys.ok_run [OF reached_inv] d1 by metis
qed

definition step_done :: "(step_row \<times> db) res" where
  "step_done = complete_durable_step acme 3500 ''s1'' ''s1:attempt:2'' ''w2'' 2 ''42'' None (fold serve step_run empty_db)"

lemmas step_done_code [code] = step_done_def [unfolded sample_runs]

definition step_again :: "(step_grant \<times> db) res" where
  "step_again = acquire_durable_step acme 9000 ''s9'' ''t1'' ''e1'' (Some ''clip'') 1 '' render'' 1 ''w3'' 1000 3
    (fold serve other_run (snd (projr step_done)))"

theorem completed_step_reused_witness:
  "fst (projr step_again) = Reused (fst (projr step_done)) \<and>
    snd (projr step_again) = fold serve other_run (snd (projr step_done)) \<and> ds_result (fst (projr step_done)) = Some ''42''"
proof (rule completed_step_reused)
  show "complete_durable_step acme 3500 ''s1'' ''s1:attempt:2'' ''w2'' 2 ''42'' None (fold serve step_run empty_db) =
    Inr (fst (projr step_done), snd (projr step_done))" by (unfold sample_runs) code_simp
  show "btrim (coalesce (Some ''clip'') ''default'') = ds_item_key (fst (projr step_done))" by code_simp
  show "btrim '' render'' = ds_step_key (fst (projr step_done))" by code_simp
  have "ds_task_id (fst (projr step_done)) = ''t1''" "step_again = Inr (fst (projr step_again), snd (projr step_again))"
    by ((unfold sample_runs)?, code_simp+)
  then show "acquire_durable_step acme 9000 ''s9'' (ds_task_id (fst (projr step_done))) ''e1'' (Some ''clip'') 1 '' render'' 1 ''w3'' 1000 3
    (fold serve other_run (snd (projr step_done))) = Inr (fst (projr step_again), snd (projr step_again))"
    by (simp add: step_again_def)
qed

section \<open>Waitpoints\<close>

lemma resolve_waitpoint_row:
  assumes c: "resolve_waitpoint s now wid tenant owner v rid actor res hash d = Inr ((), d1)"
  shows "\<exists>w \<in> set (waitpoints d1). w_id w = wid \<and> w_state w = W_resolved \<and> w_resolution_id w = Some rid \<and>
    w_resolution w = Some res \<and> w_resolution_hash w = Some hash"
proof -
  obtain w where w: "select_one s waitpoint_table (\<lambda>w. w_id w = wid \<and> owned_task s (w_task_id w) tenant owner d \<noteq> None)
      (waitpoints d) = Some w"
    and k: "d1 = d \<and> w_state w = W_resolved \<and> w_resolution_id w = Some rid \<and> w_resolution_hash w = Some hash \<and>
        w_resolution w = Some res \<or>
      (\<exists>rows. update_rows s waitpoint_table (\<lambda>w. w_id w = wid) (waitpoint_resolved now rid actor res hash) (waitpoints d) = Inr rows \<and>
        update_task s (w_task_id w) (touch_task now) (d\<lparr>waitpoints := rows\<rparr>) = Inr d1)"
    using c unfolding resolve_waitpoint_def by (auto split: if_split_asm option.split_asm)
  have W: "w \<in> set (waitpoints d)" "visible s (w_tenant_id w)" "w_id w = wid"
    using select_one_SomeD [OF w] by simp_all
  from k show ?thesis
  proof
    assume "\<exists>rows. update_rows s waitpoint_table (\<lambda>w. w_id w = wid) (waitpoint_resolved now rid actor res hash) (waitpoints d) = Inr rows \<and>
        update_task s (w_task_id w) (touch_task now) (d\<lparr>waitpoints := rows\<rparr>) = Inr d1"
    then obtain rows where r: "update_rows s waitpoint_table (\<lambda>w. w_id w = wid)
        (waitpoint_resolved now rid actor res hash) (waitpoints d) = Inr rows"
      and t: "update_task s (w_task_id w) (touch_task now) (d\<lparr>waitpoints := rows\<rparr>) = Inr d1" by blast
    have "waitpoints d1 = upd_where (\<lambda>x. visible s (w_tenant_id x) \<and> w_id x = wid) (waitpoint_resolved now rid actor res hash) (waitpoints d)"
      using rest_fields(1) [OF update_tasksD(3) [OF t]] update_rows_ok(1) [OF r] by simp
    then have "waitpoint_resolved now rid actor res hash w \<in> set (waitpoints d1)"
      using W by (auto simp: set_upd_where)
    then show ?thesis using W(3) by (intro bexI) (auto simp: waitpoint_resolved_def)
  qed (use W in blast)
qed

text \<open>
  C14: a waitpoint is resolved once. After a resolution was accepted, the only later call that returns
  for the same waitpoint is a replay of that very resolution (same id, value and hash), and it
  changes nothing. Any other resolution is refused, whatever happened in between.
\<close>

theorem waitpoint_resolved_once:
  assumes r1: "resolve_waitpoint s now wid tenant owner v rid actor res hash (fold serve rs empty_db) = Inr ((), d1)"
    and r2: "resolve_waitpoint s' now' wid tenant' owner' v' rid' actor' res' hash' (fold serve rs' d1) = Inr ((), d2)"
  shows "d2 = fold serve rs' d1 \<and> rid' = rid \<and> res' = res \<and> hash' = hash"
proof -
  let ?r = "(s, now, Waitpoint_call (Resolve_waitpoint wid tenant owner v rid actor res hash))"
  have d1: "d1 = reached (rs @ [?r])"
    by (rule commit_reached [of "resolve_waitpoint s now wid tenant owner v rid actor res hash", OF r1]) (simp add: serve_def)
  note L = later_parts [OF d1, of rs']
  obtain w where w: "w \<in> set (waitpoints d1)" "w_id w = wid" "w_state w = W_resolved" "w_resolution_id w = Some rid"
    "w_resolution w = Some res" "w_resolution_hash w = Some hash" using resolve_waitpoint_row [OF r1] by blast
  obtain u where "u \<in> set (waitpoints (fold serve rs' d1))" "waitpoint_evolves w u" using advancesE(3) [OF L(1) w(1)] by blast
  then have u: "w \<in> set (waitpoints (fold serve rs' d1))" using w(3) by (simp add: waitpoint_evolves_def)
  have ok: "table_ok waitpoint_table (waitpoints (fold serve rs' d1))"
    using inv_parts(2) [OF L(2)] by (simp add: waitpoints_ok_def)
  have "x = w" if "select_one s' waitpoint_table (\<lambda>w. w_id w = wid \<and> owned_task s' (w_task_id w) tenant' owner' (fold serve rs' d1) \<noteq> None)
      (waitpoints (fold serve rs' d1)) = Some x" for x
    using waitpoint_key.key_inj [OF ok _ u] select_one_SomeD [OF that] w(2) by simp
  then show ?thesis
    using r2 w(3-6) unfolding resolve_waitpoint_def by (fastforce split: if_split_asm option.split_asm)
qed

definition wait_run :: "request list" where
  "wait_run = sample_run @ [(acme, 200, Waitpoint_call (Create_waitpoint ''w1'' ''t1'' ''approve'' ''approval'' 1 (Some 900)))]"

lemma wait_reached [sample_runs]: "fold serve wait_run empty_db = fold serve (drop 4 wait_run) sample_db"
  by (simp add: wait_run_def sample_reached sample_length)

definition wait_done :: "(unit \<times> db) res" where
  "wait_done = resolve_waitpoint acme 300 ''w1'' ''acme'' ''ann'' 1 ''r1'' ''bob'' ''true'' ''h1'' (fold serve wait_run empty_db)"

lemmas wait_done_code [code] = wait_done_def [unfolded sample_runs]

definition wait_again :: "(unit \<times> db) res" where
  "wait_again = resolve_waitpoint acme 1000 ''w1'' ''acme'' ''ann'' 1 ''r1'' ''bob'' ''true'' ''h1''
    (fold serve other_run (snd (projr wait_done)))"

theorem waitpoint_resolved_once_witness:
  "snd (projr wait_again) = fold serve other_run (snd (projr wait_done)) \<and> ''r1'' = ''r1'' \<and> ''true'' = ''true'' \<and> ''h1'' = ''h1''"
proof (rule waitpoint_resolved_once)
  show "resolve_waitpoint acme 300 ''w1'' ''acme'' ''ann'' 1 ''r1'' ''bob'' ''true'' ''h1'' (fold serve wait_run empty_db) =
    Inr ((), snd (projr wait_done))" by (unfold sample_runs) code_simp
  show "resolve_waitpoint acme 1000 ''w1'' ''acme'' ''ann'' 1 ''r1'' ''bob'' ''true'' ''h1'' (fold serve other_run (snd (projr wait_done))) =
    Inr ((), snd (projr wait_again))" by code_simp
qed

section \<open>Notifications\<close>

lemma completeTaskNotification_row:
  assumes "completeTaskNotification s now nid owner d = Inr (n, d1)"
  shows "n \<in> set (outbox d1) \<and> n_id n = nid \<and> n_state n = N_sent"
proof -
  let ?f = "\<lambda>n. n\<lparr>n_state := N_sent, n_lease_owner := None, n_lease_until := None, n_updated_at := now\<rparr>"
  obtain m rows where m: "select_one s outbox_table (notification_held nid owner) (outbox d) = Some m"
    and r: "update_rows s outbox_table (notification_held nid owner) ?f (outbox d) = Inr rows"
    and n: "n = ?f m" "d1 = d\<lparr>outbox := rows\<rparr>"
    using assms unfolding completeTaskNotification_def Let_def by (auto split: option.split_asm)
  have "n \<in> set rows"
    unfolding update_rows_ok(1) [OF r] using select_one_SomeD [OF m] n(1) by (auto simp: set_upd_where)
  then show ?thesis using n select_one_SomeD [OF m] by (simp add: notification_held_def)
qed

text \<open>
  C21: a notification that was reported sent is never handed out again: every later claim, by any worker,
  returns another notification or none.
\<close>

theorem sent_notification_final:
  assumes c: "completeTaskNotification s now nid owner (fold serve rs empty_db) = Inr (n, d1)"
    and again: "claimTaskNotification s' now' owner' leaseMs (fold serve rs' d1) = Inr (Some m, d2)"
  shows "n_id m \<noteq> nid"
proof
  assume id: "n_id m = nid"
  let ?d = "fold serve rs' d1"
  have d1: "d1 = reached (rs @ [(s, now, Outbox_call (Complete_notification nid owner))])"
    by (rule commit_reached [of "completeTaskNotification s now nid owner", OF c]) (simp add: serve_def)
  note L = later_parts [OF d1, of rs']
  note N = completeTaskNotification_row [OF c]
  obtain u where u: "u \<in> set (outbox ?d)" "outbox_evolves n u" using advancesE(4) [OF L(1)] N by blast
  obtain x where x: "notification_candidate s' now' ?d = Some x" "m = notification_leased now' owner' leaseMs x"
    using again unfolding claimTaskNotification_def by (auto split: if_split_asm option.split_asm)
  note X = notification_candidateD(1,3) [OF x(1)]
  have "table_ok outbox_table (outbox ?d)" using inv_parts(4) [OF L(2)] by (simp add: outbox_ok_def)
  then have "x = u" using outbox_key.key_inj [OF _ X(1) u(1)] x(2) id N u(2)
    by (simp add: notification_leased_def outbox_evolves_def)
  then show False using u(2) N X(2) by (simp add: outbox_evolves_def notification_ready_def)
qed

definition mail_run :: "request list" where
  "mail_run = sample_run @ [
    (acme, 200, Evidence_call (Record_verification ''v1'' ''t1'' ''check'' ''verified'' None None None None None None None 190)),
    (acme, 210, Outbox_call (Queue_notification ''t1'' ''n1'' ''v1'' ''t1'' ''rule'' ''{}'' ''{}'' 4 None)),
    (acme, 215, Evidence_call (Record_verification ''v2'' ''t1'' ''check'' ''verified'' None None None None None None None 190)),
    (acme, 216, Outbox_call (Queue_notification ''t1'' ''n2'' ''v2'' ''t1'' ''rule'' ''{}'' ''{}'' 4 None)),
    (acme, 220, Outbox_call (Claim_notification ''mailer'' 1000))]"

lemma mail_reached [sample_runs]: "fold serve mail_run empty_db = fold serve (drop 4 mail_run) sample_db"
  by (simp add: mail_run_def sample_reached sample_length)

definition mail_sent :: "(outbox_row \<times> db) res" where
  "mail_sent = completeTaskNotification acme 300 ''n1'' ''mailer'' (fold serve mail_run empty_db)"

lemmas mail_sent_code [code] = mail_sent_def [unfolded sample_runs]

definition mail_next :: "(outbox_row option \<times> db) res" where
  "mail_next = claimTaskNotification acme 5000 ''mailer'' 1000 (fold serve other_run (snd (projr mail_sent)))"

theorem sent_notification_final_witness: "n_id (the (fst (projr mail_next))) \<noteq> ''n1''"
proof (rule sent_notification_final)
  show "completeTaskNotification acme 300 ''n1'' ''mailer'' (fold serve mail_run empty_db) =
    Inr (fst (projr mail_sent), snd (projr mail_sent))" by (unfold sample_runs) code_simp
  show "claimTaskNotification acme 5000 ''mailer'' 1000 (fold serve other_run (snd (projr mail_sent))) =
    Inr (Some (the (fst (projr mail_next))), snd (projr mail_next))" by code_simp
qed

end
