(* ===== verification/Command_Properties.thy ===== *)
theory Command_Properties
  imports Samples
begin

text \<open>
  What single commands do on every branch, stated for databases a run can reach: lifecycle
  transitions, progress, settling, retries, creation, checkpoints and waitpoint expiry.
\<close>

section \<open>Lifecycle\<close>

lemma announce_upd_one:
  assumes "distinct (map t_id rows)" and "t \<in> set rows" and "t_version (f t) \<noteq> t_version t"
  shows "announce_tasks rows (upd_where (\<lambda>x. t_id x = t_id t) f rows) = [notify_change (f t)]"
  using assms moved_upd_one [OF assms(1,2), of t_version f] by (simp add: announce_tasks_def case_prod_beta')

text \<open>
  C11: \<open>transition_task\<close> on a Task the session sees succeeds exactly when the version presented is the current
  one and the target is an allowed successor of the current state. Then it returns the next
  version, moves state, cancellation status, version and time of that Task alone, leaves every
  other row of every table, and announces the change once. With another version it fails with the
  version conflict, and otherwise with an invalid transition naming both states.
\<close>

theorem transition_task_iff:
  assumes "select_task s tid (fold serve rs empty_db) = Some t"
  shows "((\<exists>y. transition_task s now tid v target (fold serve rs empty_db) = Inr y) \<longleftrightarrow>
      v = t_version t \<and> (\<exists>g. task_state_of target = Some g \<and> task_transition_allowed (t_state t) g)) \<and>
    (case transition_task s now tid v target (fold serve rs empty_db) of
      Inr (v', d') \<Rightarrow> v' = v + 1 \<and>
        tasks d' = upd_where (\<lambda>u. t_id u = tid) (transitioned now (the (task_state_of target)))
          (tasks (fold serve rs empty_db)) \<and>
        executions d' = executions (fold serve rs empty_db) \<and> rest d' = rest (fold serve rs empty_db) \<and>
        notices d' = notices (fold serve rs empty_db) @
          [\<lparr>nt_task_id = tid, nt_version = v + 1, nt_tenant_id = t_tenant_id t\<rparr>]
    | Inl e \<Rightarrow> Inl e = (if v = t_version t
        then fail ''RHINOQ_INVALID_TASK_TRANSITION'' (task_state_name (t_state t) @ '' -> '' @ target) :: unit res
        else fail_version ''transitionTask'' tid v (t_version t) (Some ''Task'') None))"
proof (cases "v = t_version t \<and> (\<exists>g. task_state_of target = Some g \<and> task_transition_allowed (t_state t) g)")
  case False
  then show ?thesis
    using assms by (auto simp: transition_task_def fail_def fail_version_def split: option.split)
next
  case True
  let ?d = "reached rs"
  note ok = wfD(1) [OF reached_parts(2)] and T = select_taskD [OF assms]
  obtain g where R: "v = t_version t" "task_state_of target = Some g" "task_transition_allowed (t_state t) g"
    using True by blast
  have "task_check t" using ok T(1) by (auto simp: table_ok_def list_all_iff tables)
  then have "task_check (transitioned now g t)"
    by (cases "t_progress_total t") (simp_all add: task_check_def transitioned_def)
  then obtain d' where d': "update_task s (t_id t) (transitioned now g) ?d = Inr d'"
    "tasks d' = upd_where (\<lambda>u. t_id u = t_id t) (transitioned now g) (tasks ?d)"
    "executions d' = executions ?d" "rest d' = rest ?d"
    by (rule update_task_total [OF ok T(1,2)]) (simp add: transitioned_def)
  have "notices d' = notices ?d @ [notify_change (transitioned now g t)]"
    using update_tasksD(5) [OF d'(1)] announce_upd_one [OF task_key.distinct_keys [OF ok] T(1), of "transitioned now g"] d'(2)
    by (simp add: transitioned_def)
  then show ?thesis
    using R assms d' T(3)
    by (auto simp: transition_task_def update_returning_def transitioned_def notify_change_def)
qed

theorem transition_task_iff_witness:
  "\<exists>d'. transition_task acme 140 ''t1'' 4 ''succeeded'' (fold serve sample_run empty_db) = Inr (4 + 1, d') \<and>
      tasks d' = upd_where (\<lambda>u. t_id u = ''t1'') (transitioned 140 T_succeeded) (tasks (fold serve sample_run empty_db)) \<and>
      executions d' = executions (fold serve sample_run empty_db) \<and> rest d' = rest (fold serve sample_run empty_db) \<and>
      notices d' = notices (fold serve sample_run empty_db) @
        [\<lparr>nt_task_id = ''t1'', nt_version = 4 + 1,
          nt_tenant_id = t_tenant_id (the (select_task acme ''t1'' (fold serve sample_run empty_db)))\<rparr>]"
proof -
  let ?t = "the (select_task acme ''t1'' (fold serve sample_run empty_db))"
  have t: "select_task acme ''t1'' (fold serve sample_run empty_db) = Some ?t"
    by ((unfold sample_runs)?, code_simp)
  have g: "task_state_of ''succeeded'' = Some T_succeeded" by code_simp
  have "4 = t_version ?t" "task_transition_allowed (t_state ?t) T_succeeded" by ((unfold sample_runs)?, code_simp)+
  then show ?thesis
    using transition_task_iff [OF t, of 140 4 "''succeeded''"] g by fastforce
qed

section \<open>Progress\<close>

lemma update_returningD:
  assumes "update_returning s t f d = Inr (v, d')" and "core_ok d" and "select_task s tid d = Some t"
    and "\<And>u. t_id (f u) = t_id u" "\<And>u. t_tenant_id (f u) = t_tenant_id u"
  shows "v = t_version (f t)" and "select_task s tid d' = Some (f t)"
    and "tasks d' = upd_where (\<lambda>u. t_id u = tid) f (tasks d)" and "executions d' = executions d" and "rest d' = rest d"
proof -
  note T = select_taskD [OF assms(3)]
  have upd: "update_task s (t_id t) f d = Inr d'" and "v = t_version (f t)"
    using assms(1) by (auto simp: update_returning_def)
  note U = update_tasksD [OF upd] and ts = update_taskD [OF upd wfD(1) [OF assms(2)] T(1,2)]
  show "v = t_version (f t)" "executions d' = executions d" "rest d' = rest d"
    using U(2,3) \<open>v = t_version (f t)\<close> by simp_all
  show "tasks d' = upd_where (\<lambda>u. t_id u = tid) f (tasks d)" using ts T(3) by simp
  show "select_task s tid d' = Some (f t)"
    using select_task_upd_where [OF U(4) [OF wfD(1) [OF assms(2)]] ts T(1,2)] assms(4,5) T(3) by simp
qed

text \<open>
  C15: an accepted progress report is within bounds and never moves back: \<open>completed\<close> is not negative,
  not above a given total, and not below what was recorded; the Task then shows exactly the
  reported values; and sending the same report again, with whatever version and at whatever
  time, returns the same version and changes nothing.
\<close>

theorem report_progress_accepted:
  assumes c: "report_progress s now tid v completed p_total msg (fold serve rs empty_db) = Inr (v1, d1)"
    and t: "select_task s tid (fold serve rs empty_db) = Some t"
  shows "0 \<le> completed \<and> (case p_total of None \<Rightarrow> True | Some n \<Rightarrow> completed \<le> n) \<and>
    t_progress_completed t \<le> completed \<and>
    report_progress s now' tid v' completed p_total msg d1 = Inr (v1, d1) \<and>
    map_option (\<lambda>u. (t_progress_completed u, t_progress_total u, t_progress_message u, t_version u)) (select_task s tid d1) =
      Some (completed, p_total, nullif (coalesce msg '''') '''', v1)"
proof -
  let ?d = "reached rs" and ?m = "nullif (coalesce msg '''') ''''"
  let ?f = "\<lambda>t. t\<lparr>t_progress_completed := completed, t_progress_total := p_total, t_progress_message := ?m,
    t_version := t_version t + 1, t_updated_at := now\<rparr>"
  have st: "t_state t \<in> {T_running, T_cancel_requested}" and b: "0 \<le> completed"
    "case p_total of None \<Rightarrow> True | Some n \<Rightarrow> completed \<le> n" "case p_total of None \<Rightarrow> True | Some n \<Rightarrow> 0 \<le> n"
    using c t by (cases p_total; force simp: report_progress_def Let_def split: if_split_asm)+
  obtain u where u: "select_task s tid d1 = Some u" "t_version u = v1" "t_state u = t_state t"
      "t_progress_completed u = completed" "t_progress_total u = p_total" "t_progress_message u = ?m"
    and le: "t_progress_completed t \<le> completed"
  proof (cases "update_returning s t ?f ?d = Inr (v1, d1) \<and> t_progress_completed t \<le> completed")
    case True
    note U = update_returningD [OF conjunct1 [OF True] reached_parts(2) t]
    show thesis by (rule that [of "?f t"]) (use U(1,2) True in simp_all)
  next
    case False
    then show thesis
      using c t by (intro that [of t]) (auto simp: report_progress_def Let_def split: if_split_asm)
  qed
  then show ?thesis
    using st b by (cases p_total) (auto simp: report_progress_def Let_def)
qed

theorem report_progress_accepted_witness:
  "0 \<le> (3::int) \<and> (case Some (9::int) of None \<Rightarrow> True | Some n \<Rightarrow> 3 \<le> n) \<and>
    t_progress_completed (the (select_task acme ''t1'' (fold serve sample_run empty_db))) \<le> 3 \<and>
    report_progress acme 190 ''t1'' 77 3 (Some 9) None
      (snd (projr (report_progress acme 150 ''t1'' 4 3 (Some 9) None (fold serve sample_run empty_db)))) =
      Inr (5, snd (projr (report_progress acme 150 ''t1'' 4 3 (Some 9) None (fold serve sample_run empty_db)))) \<and>
    map_option (\<lambda>u. (t_progress_completed u, t_progress_total u, t_progress_message u, t_version u)) (select_task acme ''t1''
      (snd (projr (report_progress acme 150 ''t1'' 4 3 (Some 9) None (fold serve sample_run empty_db))))) =
      Some (3, Some 9, nullif (coalesce None '''') '''', 5)"
  by (rule report_progress_accepted [where now = 150 and v = 4 and rs = sample_run]) ((unfold sample_runs)?, code_simp+)

section \<open>Settling a fan-out\<close>

lemma settle_itemsD:
  assumes "settle_items s now tid d = Inr (True, d1)" and "core_ok d"
  shows "\<exists>u. select_task s tid d1 = Some u \<and> t_items_settled_at u = Some now"
proof -
  let ?f = "\<lambda>t. t\<lparr>t_items_settled_at := Some now, t_updated_at := now\<rparr>"
  obtain t where t: "select_task s tid d = Some t" and upd: "update_task s (t_id t) ?f d = Inr d1"
    using assms(1) by (auto simp: settle_items_def Let_def split: option.split_asm if_split_asm)
  have "update_returning s t ?f d = Inr (t_version (?f t), d1)" using upd by (simp add: update_returning_def)
  from update_returningD(2) [OF this assms(2) t] show ?thesis by simp
qed

text \<open>
  C12: a fan-out settles once. When \<open>settle_items\<close> answered true, every later call for that Task, by
  any session and after any calls in between, answers false and changes nothing, so work hung on
  the answer runs at most once.
\<close>

theorem settle_items_once:
  assumes c: "settle_items s now tid (fold serve rs empty_db) = Inr (True, d1)"
  shows "settle_items s' now' tid (fold serve rs' d1) = Inr (False, fold serve rs' d1)"
proof -
  have d1: "d1 = reached (rs @ [(s, now, Task_call (Settle_items tid))])"
    by (rule commit_reached [of "settle_items s now tid", OF c]) (simp add: serve_def)
  note L = later_parts [OF d1, of rs']
  obtain u where u: "select_task s tid d1 = Some u" "t_items_settled_at u = Some now"
    using settle_itemsD [OF c reached_parts(2)] by blast
  have "t_items_settled_at x \<noteq> None" if "select_task s' tid (fold serve rs' d1) = Some x" for x
    using select_task_later [OF L(1,3) select_taskD(1) [OF u(1)], of s' x] that select_taskD(3) [OF u(1)] u(2)
    by (simp add: task_evolves_def)
  then show ?thesis by (auto simp: settle_items_def Let_def split: option.split)
qed

theorem settle_items_once_witness:
  "settle_items globex 200 ''t1'' (fold serve other_run (snd (projr (settle_items acme 150 ''t1'' (fold serve settle_run empty_db))))) =
    Inr (False, fold serve other_run (snd (projr (settle_items acme 150 ''t1'' (fold serve settle_run empty_db)))))"
  by (rule settle_items_once [where s = acme and now = 150 and rs = settle_run]) ((unfold sample_runs)?, code_simp)

text \<open>All attempts of a Task the session can see are visible to it.\<close>

lemma visible_attempts:
  assumes "core_ok d" and "select_task s tid d = Some t" and "e \<in> set (executions d)" and "e_task_id e = tid"
  shows "visible s (e_tenant_id e)"
  using select_taskD [OF assms(2)] task_of_key [OF wfD(1) [OF assms(1)] parent_exists [OF assms(1,3)], of t] assms(4) by simp

lemma open_counts:
  "c_pending_dispatch (counts_of es) + c_dispatched (counts_of es) + c_running (counts_of es) + c_stalled (counts_of es) = 0 \<longleftrightarrow>
    list_all (\<lambda>e. exec_terminal (e_state e)) es"
proof -
  have "0 \<le> count_where p es" for p :: "execution_row \<Rightarrow> bool" by (simp add: count_where_def)
  moreover have "count_where p es = 0 \<longleftrightarrow> (\<forall>e \<in> set es. \<not> p e)" for p
    by (auto simp: count_where_def filter_empty_conv)
  ultimately show ?thesis
    by (auto simp: counts_of_def list_all_iff exec_terminal_def add_nonneg_eq_0_iff) (metis exec_state.exhaust)+
qed

text \<open>
  C19: when no attempt of a Task was superseded, the settle test of migration 005, which reads the stored
  aggregates, and the one of migration 007, which reads the attempts, agree in answer and effect.
\<close>

theorem settle_items_v5_agrees:
  assumes "list_all (\<lambda>e. e_task_id e \<noteq> tid \<or> e_superseded_at e = None) (executions (fold serve rs empty_db))"
  shows "settle_items_v5 s now tid (fold serve rs empty_db) = settle_items s now tid (fold serve rs empty_db)"
proof (cases "select_task s tid (reached rs)")
  case (Some t)
  let ?d = "reached rs"
  note T = select_taskD [OF Some]
  have live: "live_attempts s tid ?d = executions_of tid (executions ?d)"
    unfolding live_attempts_def executions_of_def select_rows_def
    by (rule filter_cong) (use assms visible_attempts [OF reached_parts(2) Some] in \<open>auto simp: list_all_iff\<close>)
  have cnt: "t_counts t = counts_of (executions_of tid (executions ?d))"
    using wfD(4) [OF reached_parts(2)] T(1,3) by (auto simp: counts_ok_def list_all_iff)
  have "c_total (counts_of es) > 0 \<longleftrightarrow> es \<noteq> []" for es by (simp add: counts_of_def)
  then show ?thesis
    using open_counts [of "executions_of tid (executions ?d)"]
    by (simp add: settle_items_v5_def settle_items_def Some live cnt T(3) Let_def)
qed (simp add: settle_items_v5_def settle_items_def)

theorem settle_items_v5_agrees_witness:
  "settle_items_v5 acme 150 ''t1'' (fold serve settle_run empty_db) = settle_items acme 150 ''t1'' (fold serve settle_run empty_db)"
  by (rule settle_items_v5_agrees) ((unfold sample_runs)?, code_simp)

section \<open>Retries\<close>

lemma max_attempt_le: "e \<in> set es \<Longrightarrow> e_attempt e \<le> max_attempt es"
  by (induction es) (auto simp: max_attempt_def)

text \<open>The tenant a new attempt gets is the one of its Task.\<close>

lemma insert_execution_tenant:
  assumes "insert_execution s now (new_execution now eid tid tenant item n runtime rscope ext st) d = Inr d'"
    and "core_ok d" and "e \<in> set (executions d)" and "e_task_id e = tid"
  shows "tenant = e_tenant_id e"
proof -
  have key: "task_key_exists tid tenant d"
    using insert_executionD(7) [OF assms(1,2)] by (simp add: new_execution_def)
  obtain t where t: "t \<in> set (tasks d)" "t_id t = tid"
    using key by (auto simp: task_key_exists_def list_ex_iff)
  show ?thesis
    using task_of_key [OF wfD(1) [OF assms(2)] key t] task_of_key [OF wfD(1) [OF assms(2)] parent_exists [OF assms(2,3)], of t]
      t assms(4) by simp
qed

text \<open>
  C13: a retry supersedes the attempt it is given and adds exactly one attempt: of the same Task, tenant
  and item, numbered above every attempt of that item, dispatched on the same runtime reference,
  at version one. No other attempt changes.
\<close>

theorem retry_execution_effect:
  assumes c: "retry_execution s now eid v nid (fold serve rs empty_db) = Inr (n, d1)"
    and e: "select_execution s eid (fold serve rs empty_db) = Some e"
  shows "executions d1 = upd_where (\<lambda>x. e_id x = eid) (superseded now) (executions (fold serve rs empty_db)) @
      [new_execution now nid (e_task_id e) (e_tenant_id e) (e_item_key e) n (e_runtime e) (e_runtime_scope e)
        (e_external_id e) E_dispatched] \<and>
    list_all (\<lambda>a. e_attempt a < n) (item_attempts s (e_task_id e) (e_item_key e) (fold serve rs empty_db)) \<and>
    e_superseded_at e = None \<and> e_state e \<in> {E_succeeded, E_failed, E_stalled, E_cancelled}"
proof -
  let ?d = "reached rs"
  note E = select_executionD [OF e]
  obtain d0 tenant where g: "e_superseded_at e = None" "e_state e \<in> {E_succeeded, E_failed, E_stalled, E_cancelled}"
    and u: "update_execution s now eid (superseded now) ?d = Inr d0"
    and n: "n = max_attempt (item_attempts s (e_task_id e) (e_item_key e) d0) + 1"
    and ins: "insert_execution s now (new_execution now nid (e_task_id e) tenant (e_item_key e) n (e_runtime e)
      (e_runtime_scope e) (e_external_id e) E_dispatched) d0 = Inr d1"
    using c e by (auto simp: retry_execution_def Let_def dest!: on_unique_violation_InrD split: if_split_asm)
  have keep: "\<And>x. e_task_id (superseded now x) = e_task_id x" by (simp add: superseded_def)
  note U = update_executionD [OF u [folded E(3)] reached_parts(2) E(1,2) keep]
  have fw: "forward_update s now e (superseded now) ?d d0"
    unfolding forward_update_def using u E g(1) by (simp add: superseded_def exec_evolves_def)
  note ok = forward_updateD(3) [OF fw reached_parts(2)]
  have ex: "executions d0 = upd_where (\<lambda>x. e_id x = eid) (superseded now) (executions ?d)" using U(1) E(3) by simp
  have e0: "superseded now e \<in> set (executions d0)" using ex E(1,3) by (auto simp: set_upd_where)
  have tn: "tenant = e_tenant_id e"
    using insert_execution_tenant [OF ins ok e0] by (simp add: superseded_def)
  have "e_attempt a < n" if a: "a \<in> set (item_attempts s (e_task_id e) (e_item_key e) ?d)" for a
  proof -
    let ?b = "if e_id a = eid then superseded now a else a"
    have "?b \<in> set (item_attempts s (e_task_id e) (e_item_key e) d0)"
      using a ex by (auto simp: item_attempts_def select_rows_def superseded_def set_upd_where)
    from max_attempt_le [OF this] show ?thesis unfolding n by (simp add: superseded_def split: if_split_asm)
  qed
  then show ?thesis
    using insert_executionD(1) [OF ins ok] ex tn g by (simp add: list_all_iff)
qed

definition retry_run :: "request list" where
  "retry_run = settle_run @ [(acme, 145, Execution_call (Retry_execution ''e1'' 2 ''e2''))]"

theorem retry_execution_effect_witness:
  "let d = fold serve settle_run empty_db; e = the (select_execution acme ''e1'' d);
      r = retry_execution acme 145 ''e1'' 2 ''e2'' d in
    executions (snd (projr r)) = upd_where (\<lambda>x. e_id x = ''e1'') (superseded 145) (executions d) @
      [new_execution 145 ''e2'' (e_task_id e) (e_tenant_id e) (e_item_key e) 2 (e_runtime e) (e_runtime_scope e)
        (e_external_id e) E_dispatched] \<and>
    list_all (\<lambda>a. e_attempt a < 2) (item_attempts acme (e_task_id e) (e_item_key e) d) \<and>
    e_superseded_at e = None \<and> e_state e \<in> {E_succeeded, E_failed, E_stalled, E_cancelled}"
  unfolding Let_def
  by (rule retry_execution_effect [where v = 2]) ((unfold sample_runs)?, code_simp+)

section \<open>Creation\<close>

text \<open>What a later session selects under the id of a Task that a run has created.\<close>

lemma created_task_later:
  assumes adv: "advances d d'" and ok: "core_ok d'" and t: "t \<in> set (tasks d)"
  obtains u where "u \<in> set (tasks d')" "task_evolves t u"
    and "\<forall>s'. select_task s' (t_id t) d' = (if visible s' (t_tenant_id t) then Some u else None)"
proof -
  obtain u where u: "u \<in> set (tasks d')" "task_evolves t u" using advancesE(1) [OF adv t] by blast
  have sel: "select_task s' (t_id t) d' = (if visible s' (t_tenant_id t) then Some u else None)" for s'
  proof (cases "visible s' (t_tenant_id t)")
    case True
    then show ?thesis using select_task_iff [OF wfD(1) [OF ok] u(1), of s'] u(2) by (simp add: task_evolves_def)
  next
    case False
    have "select_task s' (t_id t) d' \<noteq> Some w" for w
    proof
      assume w: "select_task s' (t_id t) d' = Some w"
      from select_task_later [OF adv ok t w] select_taskD(2) [OF w] False show False by (simp add: task_evolves_def)
    qed
    then show ?thesis using False by (cases "select_task s' (t_id t) d'") auto
  qed
  show thesis by (rule that [OF u]) (use sel in blast)
qed

text \<open>
  C17: creating a Task and reading it back gives the Task as created, pending at version one with no
  progress. Whatever requests follow, a creation under the same id by any session changes nothing
  and is answered exactly so: an invalid tenant, a tenant the session may not write or an invalid
  row is refused first; a session that sees the Task is told of a replay if type, tenant, owner
  and definition version are the stored ones and of a conflict otherwise; and a session that does
  not see the Task, since another tenant took the id, is told of a conflict if it gives an owner and
  of a replay if it gives none.
\<close>

theorem create_task_round_trip:
  assumes c: "create_task s now tid ty tenant owner defver (fold serve rs empty_db) = Inr (False, d1)"
  shows "select_task s tid d1 = Some (new_task now tid ty tenant owner defver) \<and>
    create_task s' now' tid ty' tenant' owner' defver' (fold serve rs' d1) =
      (if btrim tenant' = '''' then fail ''RHINOQ_INVALID_TENANT'' ''''
       else if \<not> visible s' tenant' then Inl row_security_violation
       else if \<not> task_check (new_task now' tid ty' tenant' owner' defver') then Inl check_violation
       else if visible s' tenant \<and> (ty', tenant', owner', defver') = (ty, tenant, owner, defver) \<or>
         \<not> visible s' tenant \<and> owner' = None then Inr (True, fold serve rs' d1)
       else fail ''RHINOQ_TASK_CONFLICT'' tid)"
proof -
  let ?t = "new_task now tid ty tenant owner defver" and ?D = "fold serve rs' d1"
  let ?n = "new_task now' tid ty' tenant' owner' defver'"
  have d1: "d1 = reached (rs @ [(s, now, Task_call (Create_task tid ty tenant owner defver))])"
    by (rule commit_reached [of "create_task s now tid ty tenant owner defver", OF c]) (simp add: serve_def)
  note L = later_parts [OF d1, of rs']
  have ins: "insert_task_or_nothing s ?t (reached rs) = Inr (True, d1)"
    using c by (auto simp: create_task_def split: if_split_asm option.split_asm)
  obtain rows where rows: "insert_row_or_nothing s task_table ?t (tasks (reached rs)) = Inr (True, rows)" "tasks d1 = rows"
    using ins by (auto simp: insert_task_or_nothing_def)
  have t: "?t \<in> set (tasks d1)" "visible s tenant"
    using insert_row_or_nothing_ok(1,2) [OF rows(1)] rows(2) by (simp_all add: new_task_def)
  have ok: "table_ok task_table (tasks d1)" using wfD(1) [OF reached_parts(2)] unfolding d1 .
  have sel: "select_task s tid d1 = Some ?t"
    using select_task_iff [OF ok t(1), of s] t(2) by (simp add: new_task_def)
  obtain u where u: "u \<in> set (tasks ?D)" "task_evolves ?t u"
    and sel': "\<forall>s'. select_task s' (t_id ?t) ?D = (if visible s' (t_tenant_id ?t) then Some u else None)"
    by (rule created_task_later [OF L(1,3) t(1)])
  have "\<not> list_all (\<lambda>x. \<not> tb_conflict task_table x ?n) (tasks ?D)"
    using u by (auto simp: list_all_iff tables new_task_def task_evolves_def intro!: bexI [of _ u])
  then have "insert_task_or_nothing s' ?n ?D = (if \<not> visible s' tenant' then Inl row_security_violation
     else if \<not> task_check ?n then Inl check_violation else Inr (False, ?D))"
    by (simp add: insert_task_or_nothing_def insert_row_or_nothing_def bind_res_def tables new_task_def)
  moreover have "select_task s' tid ?D = (if visible s' tenant then Some u else None)"
    using sel' [rule_format, of s'] by (simp add: new_task_def)
  ultimately show ?thesis
    using sel u(2) by (auto simp: create_task_def bind_res_def new_task_def task_evolves_def)
qed

definition acme_pdf :: request where
  "acme_pdf = (acme, 300, Task_call (Create_task ''t2'' ''pdf'' ''acme'' None 1))"

theorem create_task_round_trip_witness:
  "let d1 = snd (projr (create_task acme 300 ''t2'' ''pdf'' ''acme'' None 1 (fold serve sample_run empty_db)));
      other = acme\<lparr>s_tenant_id := Some ''globex''\<rparr> in
    select_task acme ''t2'' d1 = Some (new_task 300 ''t2'' ''pdf'' ''acme'' None 1) \<and>
    create_task acme 400 ''t2'' ''pdf'' ''acme'' None 1 (fold serve [acme_pdf] d1) = Inr (True, fold serve [acme_pdf] d1) \<and>
    create_task other 400 ''t2'' ''zip'' ''globex'' None 7 (fold serve [acme_pdf] d1) = Inr (True, fold serve [acme_pdf] d1) \<and>
    create_task other 400 ''t2'' ''zip'' ''globex'' (Some ''bob'') 7 (fold serve [acme_pdf] d1) = fail ''RHINOQ_TASK_CONFLICT'' ''t2''"
proof -
  let ?d1 = "snd (projr (create_task acme 300 ''t2'' ''pdf'' ''acme'' None 1 (fold serve sample_run empty_db)))"
  let ?other = "acme\<lparr>s_tenant_id := Some ''globex''\<rparr>"
  have c: "create_task acme 300 ''t2'' ''pdf'' ''acme'' None 1 (fold serve sample_run empty_db) = Inr (False, ?d1)"
    by ((unfold sample_runs)?, code_simp)
  note R = create_task_round_trip [OF c, where rs' = "[acme_pdf]"]
  have v: "visible acme ''acme''" "\<not> visible ?other ''acme''" "visible ?other ''globex''" by code_simp+
  have b: "btrim ''acme'' \<noteq> ''''" "btrim ''globex'' \<noteq> ''''" by code_simp+
  have k: "task_check (new_task 400 ''t2'' ''pdf'' ''acme'' None 1)" "task_check (new_task 400 ''t2'' ''zip'' ''globex'' None 7)"
    "task_check (new_task 400 ''t2'' ''zip'' ''globex'' (Some ''bob'') 7)" by code_simp+
  show ?thesis
    unfolding Let_def
    using R [of acme 400 "''pdf''" "''acme''" None 1] R [of ?other 400 "''zip''" "''globex''" None 7]
      R [of ?other 400 "''zip''" "''globex''" "Some ''bob''" 7] v b k
    by simp
qed

section \<open>Version scopes\<close>

lemma owned_task_selected:
  assumes "inv d" and t: "select_task s tid d = Some t"
  shows "owned_task s tid tenant owner d = (if t_tenant_id t = tenant \<and> t_owner_id t = Some owner then Some t else None)"
proof -
  note T = select_taskD [OF t]
  have one: "u = t" if "u \<in> set (tasks d)" "t_id u = tid" for u
    using task_key.key_inj [OF wfD(1) [OF inv_parts(1) [OF assms(1)]] that(1) T(1)] that(2) T(3) by simp
  show ?thesis
  proof (cases "owned_task s tid tenant owner d")
    case None
    then show ?thesis using T by (auto simp: owned_task_def select_one_None_iff tables)
  next
    case (Some u)
    then show ?thesis using select_one_SomeD [OF Some [unfolded owned_task_def]] one [of u] by simp
  qed
qed

text \<open>
  C20: what an execution command does with a version that is not the attempt's. A replay is recognised
  first: a transition to the state the attempt is in, by the worker or by the owner, and the
  attachment of the result it has, return the attempt's version and change nothing. A blank id or
  reference, an owner or tenant that does not match and the retry of a superseded attempt have
  errors of their own. In every other case the command fails: if the version is the one of the
  parent Task it is told so by the code for a wrong version scope, and otherwise of a version
  conflict.
\<close>

theorem wrong_version_scope_named:
  assumes i: "inv d" and e: "select_execution s eid d = Some e" and t: "select_task s (e_task_id e) d = Some t"
    and v: "v \<noteq> e_version e"
    and code: "code = (if v = t_version t then ''RHINOQ_WRONG_VERSION_SCOPE'' else ''RHINOQ_VERSION_CONFLICT'')"
  shows "(if exec_state_name (e_state e) = target
      then transition_execution s now eid v target reason d = Inr (e_version e, d)
      else \<exists>m. transition_execution s now eid v target reason d = Inl (Rhinoq code m)) \<and>
    (if btrim tenant = '''' then transition_execution_for_owner s now eid tenant owner v target reason d = fail ''RHINOQ_INVALID_TENANT'' eid
      else if (t_tenant_id t, t_owner_id t) \<noteq> (tenant, Some owner)
      then transition_execution_for_owner s now eid tenant owner v target reason d = fail ''RHINOQ_EXECUTION_NOT_FOUND'' eid
      else if exec_state_name (e_state e) = target
      then transition_execution_for_owner s now eid tenant owner v target reason d = Inr (e_version e, d)
      else \<exists>m. transition_execution_for_owner s now eid tenant owner v target reason d = Inl (Rhinoq code m)) \<and>
    (\<exists>m. bind_execution s now eid v runtime rscope ext d = Inl (Rhinoq code m)) \<and>
    (if btrim nid = '''' then retry_execution s now eid v nid d = fail ''RHINOQ_INVALID_EXECUTION'' ''''
      else if e_superseded_at e \<noteq> None then retry_execution s now eid v nid d = fail ''RHINOQ_EXECUTION_SUPERSEDED'' eid
      else \<exists>m. retry_execution s now eid v nid d = Inl (Rhinoq code m)) \<and>
    (if btrim reference = '''' then attach_execution_result s now eid v reference d = fail ''RHINOQ_INVALID_RESULT'' ''''
      else if e_result_ref e = Some (btrim reference)
      then attach_execution_result s now eid v reference d = Inr (e_version e, d)
      else \<exists>m. attach_execution_result s now eid v reference d = Inl (Rhinoq code m))"
proof -
  have f: "\<exists>m. fail_version op eid v (e_version e) sc (version_hint s e v d) = (Inl (Rhinoq code m) :: 'a res)" for op sc
    using t code by (simp add: fail_version_def version_hint_def)
  have h: "version_hint s e v d = (if t_version t = v then Some ''Task'' else None)"
    using t by (simp add: version_hint_def)
  show ?thesis
    using e v owned_task_selected [OF i t, of tenant owner]
    by (auto simp: transition_execution_def transition_execution_for_owner_def bind_execution_def retry_execution_def
        attach_execution_result_def Let_def f simp flip: h)
qed

theorem wrong_version_scope_named_witness:
  "let d = fold serve sample_run empty_db; t = the (select_task acme ''t1'' d) in
    (\<exists>m. transition_execution acme 150 ''e1'' (t_version t) ''running'' None d = Inl (Rhinoq ''RHINOQ_WRONG_VERSION_SCOPE'' m)) \<and>
    (\<exists>m. transition_execution_for_owner acme 150 ''e1'' ''acme'' ''ann'' (t_version t) ''running'' None d =
      Inl (Rhinoq ''RHINOQ_WRONG_VERSION_SCOPE'' m)) \<and>
    (\<exists>m. bind_execution acme 150 ''e1'' (t_version t) ''bullmq'' None ''job'' d = Inl (Rhinoq ''RHINOQ_WRONG_VERSION_SCOPE'' m)) \<and>
    (\<exists>m. retry_execution acme 150 ''e1'' (t_version t) ''e2'' d = Inl (Rhinoq ''RHINOQ_WRONG_VERSION_SCOPE'' m)) \<and>
    (\<exists>m. attach_execution_result acme 150 ''e1'' (t_version t) ''s3://x'' d = Inl (Rhinoq ''RHINOQ_WRONG_VERSION_SCOPE'' m))"
proof -
  let ?d = "fold serve sample_run empty_db"
  let ?e = "the (select_execution acme ''e1'' ?d)" and ?t = "the (select_task acme ''t1'' ?d)"
  have e: "select_execution acme ''e1'' ?d = Some ?e" and t: "select_task acme (e_task_id ?e) ?d = Some ?t"
    and v: "t_version ?t \<noteq> e_version ?e" and st: "exec_state_name (e_state ?e) \<noteq> ''running''"
    and o: "(t_tenant_id ?t, t_owner_id ?t) = (''acme'', Some ''ann'')" and su: "e_superseded_at ?e = None" "e_result_ref ?e = None"
    by ((unfold sample_runs)?, code_simp)+
  have b: "btrim ''acme'' \<noteq> ''''" "btrim ''e2'' \<noteq> ''''" "btrim ''s3://x'' \<noteq> ''''" by code_simp+
  show ?thesis
    unfolding Let_def
    using wrong_version_scope_named [OF reached_parts(1) e t v refl, of "''running''" 150 None "''acme''" "''ann''" "''bullmq''" None "''job''"
        "''e2''" "''s3://x''"] st o su b
    by simp
qed

section \<open>Checkpoints\<close>

text \<open>A session that sees the attempt sees the checkpoints of the attempt.\<close>

lemma checkpoint_selected:
  assumes i: "inv d" and k: "k \<in> set (checkpoints d)" and e: "select_execution s (k_execution_id k) d = Some e"
  shows "visible s (k_tenant_id k)" and "select_one s checkpoint_table
    (\<lambda>x. k_execution_id x = k_execution_id k \<and> k_checkpoint_key x = k_checkpoint_key k) (checkpoints d) = Some k"
proof -
  note E = select_executionD [OF e]
  have ok: "table_ok checkpoint_table (checkpoints d)" and "(k_execution_id k, k_tenant_id k) \<in> set (exec_keys d)"
    using inv_parts(5) [OF i] k by (simp_all add: checkpoints_ok_def list_all_iff)
  then obtain f where f: "f \<in> set (executions d)" "e_id f = k_execution_id k" "e_tenant_id f = k_tenant_id k"
    by (auto simp: exec_keys_def)
  have "f = e" using execution_key.key_inj [OF wfD(2) [OF inv_parts(1) [OF i]] f(1) E(1)] f(2) E(3) by simp
  then show v: "visible s (k_tenant_id k)" using f(3) E(2) by simp
  show "select_one s checkpoint_table
    (\<lambda>x. k_execution_id x = k_execution_id k \<and> k_checkpoint_key x = k_checkpoint_key k) (checkpoints d) = Some k"
    using checkpoint_slot.select_key [OF ok k, of s] v by simp
qed

lemma update_checkpoint_total:
  assumes ok: "table_ok checkpoint_table (checkpoints d)" and k: "k \<in> set (checkpoints d)" "visible s (k_tenant_id k)"
    and "checkpoint_check (f k)"
    and keep: "\<And>x. k_id (f x) = k_id x" "\<And>x. k_execution_id (f x) = k_execution_id x" "\<And>x. k_checkpoint_key (f x) = k_checkpoint_key x"
  shows "update_rows s checkpoint_table (\<lambda>x. k_id x = k_id k) f (checkpoints d) =
    Inr (upd_where (\<lambda>x. k_id x = k_id k) f (checkpoints d))"
proof -
  let ?q = "\<lambda>x. visible s (k_tenant_id x) \<and> k_id x = k_id k"
  have one: "x = k" if "x \<in> set (checkpoints d)" "k_id x = k_id k" for x
    using checkpoint_key.key_inj [OF ok that(1) k(1)] that(2) by simp
  have "list_all (\<lambda>x. ?q x \<longrightarrow> checkpoint_check (f x)) (checkpoints d)"
    using assms(4) one by (auto simp: list_all_iff)
  moreover have "unique_by (tb_conflict checkpoint_table) (upd_where ?q f (checkpoints d))"
    by (rule unique_by_upd_where) (use ok keep in \<open>auto simp: table_ok_def tables split: if_splits\<close>)
  moreover have "upd_where ?q f (checkpoints d) = upd_where (\<lambda>x. k_id x = k_id k) f (checkpoints d)"
    using one k(2) by (auto simp: upd_where_def)
  ultimately show ?thesis by (simp add: update_rows_def tables)
qed

text \<open>
  C18: a checkpoint that was saved under a key without surrounding blanks is what every later save
  finds, by any session that sees the attempt, whatever requests other than writes to checkpoints
  were served in between. A later save under the key is answered exactly so: invalid arguments are
  refused; another id, handler version or checksum is incompatible; the same state and completion
  flag returns the version that was saved and changes nothing, under any expected version; another
  state under another expected version is a conflict; and under the version that was saved it
  replaces state and flag of that checkpoint alone and returns the next version.
\<close>

theorem checkpoint_round_trip:
  assumes c: "upsert_checkpoint s now kid tid eid key hv cs st fin v (fold serve rs empty_db) = Inr (n, d1)"
    and key: "btrim key = key"
    and quiet: "checkpoints (fold serve rs' d1) = checkpoints d1"
    and e: "select_execution s' eid (fold serve rs' d1) = Some e"
  shows "upsert_checkpoint s' now' kid' tid eid key hv' cs' st' fin' v' (fold serve rs' d1) =
    (if btrim kid' = '''' \<or> hv' \<le> 0 \<or> \<not> sha256_text cs' \<or> len st' > 65536 then fail ''RHINOQ_INVALID_CHECKPOINT'' ''''
     else if (kid', hv', cs') \<noteq> (kid, hv, cs) then fail ''RHINOQ_CHECKPOINT_INCOMPATIBLE'' ''''
     else if st' = st \<and> coalesce fin' False = coalesce fin False then Inr (n, fold serve rs' d1)
     else if v' \<noteq> Some n then fail ''RHINOQ_CHECKPOINT_VERSION_CONFLICT'' ''''
     else Inr (n + 1, (fold serve rs' d1)\<lparr>checkpoints := upd_where (\<lambda>k. k_id k = kid)
       (\<lambda>k. k\<lparr>k_state := st', k_completed := coalesce fin' False, k_version := k_version k + 1, k_updated_at := now'\<rparr>)
       (checkpoints d1)\<rparr>))"
proof -
  let ?D = "fold serve rs' d1"
  let ?f = "\<lambda>k. k\<lparr>k_state := st', k_completed := coalesce fin' False, k_version := k_version k + 1, k_updated_at := now'\<rparr>"
  have d1: "d1 = reached (rs @ [(s, now, Checkpoint_call (Upsert_checkpoint kid tid eid key hv cs st fin v))])"
    by (rule commit_reached [of "upsert_checkpoint s now kid tid eid key hv cs st fin v", OF c]) (simp add: serve_def)
  note L = later_parts [OF d1, of rs']
  have ok: "table_ok checkpoint_table (checkpoints ?D)" using inv_parts(5) [OF L(2)] by (simp add: checkpoints_ok_def)
  obtain k where k: "select_one s checkpoint_table (\<lambda>k. k_execution_id k = eid \<and> k_checkpoint_key k = key) (checkpoints d1) = Some k"
    and K: "k_id k = kid" "k_task_id k = tid" "k_handler_version k = hv" "k_input_checksum k = cs" "k_state k = st"
      "k_completed k = coalesce fin False" "k_version k = n"
    using upsert_checkpoint_saved [OF c reached_parts(1) key] by blast
  have slot: "k \<in> set (checkpoints ?D)" "k_execution_id k = eid" "k_checkpoint_key k = key"
    using select_one_SomeD [OF k] by (simp_all add: quiet)
  note seen = checkpoint_selected [OF L(2) slot(1), of s' e, unfolded slot(2,3), OF e]
  have valid: "btrim tid \<noteq> ''''" "btrim eid \<noteq> ''''" "btrim key \<noteq> ''''"
    and ex: "select_one s execution_table (\<lambda>e. e_id e = eid \<and> e_task_id e = tid) (executions (reached rs)) \<noteq> None"
    using c by (auto simp: upsert_checkpoint_def split: if_split_asm)
  have "executions d1 = executions (reached rs)"
    using c by (auto simp: upsert_checkpoint_def dest!: on_unique_violation_InrD split: if_split_asm option.split_asm)
  then obtain e0 where e0: "e0 \<in> set (executions d1)" "e_id e0 = eid" "e_task_id e0 = tid"
    using ex select_one_SomeD by (auto dest!: select_one_SomeD)
  have "exec_evolves e0 e" using select_execution_later [OF L(1,3) e0(1)] e e0(2) by simp
  then have "select_one s' execution_table (\<lambda>e. e_id e = eid \<and> e_task_id e = tid) (executions ?D) \<noteq> None"
    using select_executionD [OF e] e0(2,3) by (auto simp: select_one_None_iff tables exec_evolves_def)
  moreover have "update_rows s' checkpoint_table (\<lambda>x. k_id x = k_id k) ?f (checkpoints ?D) =
      Inr (upd_where (\<lambda>x. k_id x = k_id k) ?f (checkpoints ?D))" if "len st' \<le> 65536"
  proof (rule update_checkpoint_total [OF ok slot(1) seen(1)])
    have "checkpoint_check k" using ok slot(1) by (auto simp: table_ok_def list_all_iff tables)
    then show "checkpoint_check (?f k)" using that by (simp add: checkpoint_check_def)
  qed simp_all
  ultimately show ?thesis using seen(2) K valid by (auto simp: upsert_checkpoint_def quiet bind_res_def)
qed

theorem checkpoint_round_trip_witness:
  "let d1 = snd (projr (upsert_checkpoint acme 200 ''k1'' ''t1'' ''e1'' ''page'' 1 sha ''{}'' None None (fold serve sample_run empty_db)));
      d2 = fold serve [(acme, 250, Task_call (Create_task ''t2'' ''pdf'' ''acme'' None 1))] d1 in
    upsert_checkpoint acme 300 ''k1'' ''t1'' ''e1'' ''page'' 1 sha ''{}'' None (Some 9) d2 = Inr (1, d2) \<and>
    upsert_checkpoint acme 300 ''k1'' ''t1'' ''e1'' ''page'' 1 sha ''{2}'' None (Some 9) d2 =
      fail ''RHINOQ_CHECKPOINT_VERSION_CONFLICT'' ''''"
proof -
  let ?d = "fold serve sample_run empty_db"
  let ?d1 = "snd (projr (upsert_checkpoint acme 200 ''k1'' ''t1'' ''e1'' ''page'' 1 sha ''{}'' None None ?d))"
  let ?rs = "[(acme, 250, Task_call (Create_task ''t2'' ''pdf'' ''acme'' None 1))]"
  have c: "upsert_checkpoint acme 200 ''k1'' ''t1'' ''e1'' ''page'' 1 sha ''{}'' None None ?d = Inr (1, ?d1)"
    and q: "checkpoints (fold serve ?rs ?d1) = checkpoints ?d1"
    and e: "select_execution acme ''e1'' (fold serve ?rs ?d1) = Some (the (select_execution acme ''e1'' (fold serve ?rs ?d1)))"
    by ((unfold sample_runs)?, code_simp)+
  have key: "btrim ''page'' = ''page''" and a: "btrim ''k1'' \<noteq> ''''" "sha256_text sha" "len ''{}'' \<le> 65536" "len ''{2}'' \<le> 65536"
    by code_simp+
  show ?thesis
    unfolding Let_def
    using checkpoint_round_trip [OF c key q e, of 300 "''k1''" 1 sha "''{}''" None "Some 9"]
      checkpoint_round_trip [OF c key q e, of 300 "''k1''" 1 sha "''{2}''" None "Some 9"] a
    by simp
qed

section \<open>Expiry\<close>

lemma due_after_expiry:
  "filter (\<lambda>w. visible s (w_tenant_id w) \<and> waitpoint_due now w) (upd_where (\<lambda>w. w_id w \<in> ids) (waitpoint_expired now) rows) =
    filter (\<lambda>w. w_id w \<notin> ids) (filter (\<lambda>w. visible s (w_tenant_id w) \<and> waitpoint_due now w) rows)"
  by (induction rows) (auto simp: upd_where_def waitpoint_due_def waitpoint_expired_def)

text \<open>
  C16: expiry terminates and drains in order. For every permitted limit \<open>expire_waitpoints\<close> returns. Of the
  waitpoints of the session that are due, taken by deadline and then by id, it expires the first
  \<open>limit\<close> and leaves every other waitpoint row as it is; it raises the version of a Task once for each
  of its waitpoints among them and touches no other Task; it returns their number; and what is due
  afterwards is the rest of the list in the same order.
\<close>

theorem expire_waitpoints_drains:
  assumes "inv d" and "1 \<le> limit" "limit \<le> 500"
  shows "let due = \<lambda>d. sort_key (\<lambda>w. (coalesce (w_deadline w) 0, w_id w))
        (select_rows s waitpoint_table (waitpoint_due now) (waitpoints d)); first = take (nat limit) (due d) in
    \<exists>d1. expire_waitpoints s now limit d = Inr (min limit (len (due d)), d1) \<and>
      waitpoints d1 = upd_where (\<lambda>w. w_id w \<in> w_id ` set first) (waitpoint_expired now) (waitpoints d) \<and>
      tasks d1 = map (\<lambda>t. (touch_task now ^^ length (filter (\<lambda>w. w_task_id w = t_id t) first)) t) (tasks d) \<and>
      due d1 = drop (nat limit) (due d)"
proof -
  let ?due = "\<lambda>w. visible s (w_tenant_id w) \<and> waitpoint_due now w"
  let ?f = "\<lambda>w. (coalesce (w_deadline w) 0, w_id w)"
  let ?D = "filter ?due (waitpoints d)" and ?n = "nat limit"
  let ?vs = "take ?n (sort_key ?f ?D)"
  have ok: "table_ok waitpoint_table (waitpoints d)" using inv_parts(2) [OF assms(1)] by (simp add: waitpoints_ok_def)
  have vs: "due_waitpoints s now limit d = ?vs" by (simp add: due_waitpoints_def select_rows_def)
  have dist: "distinct (map w_id (sort_key ?f ?D))"
    using waitpoint_key.distinct_keys [OF ok] by (auto simp: distinct_map inj_on_def)
  have pre: "v \<in> set (waitpoints d) \<and> visible s (w_tenant_id v) \<and> w_state v = W_waiting"
    if "v \<in> set (due_waitpoints s now limit d)" for v
    using due_waitpointsD [OF that] by (simp add: waitpoint_due_def)
  obtain d1 where d1: "expire_loop s now ?vs 0 d = Inr (0 + len ?vs, d1)"
    "waitpoints d1 = upd_where (\<lambda>w. w_id w \<in> w_id ` set ?vs) (waitpoint_expired now) (waitpoints d)"
    "tasks d1 = map (\<lambda>t. (touch_task now ^^ length (filter (\<lambda>w. w_task_id w = t_id t) ?vs)) t) (tasks d)"
    using expire_loop_total [where vs = "due_waitpoints s now limit d" and s = s and now = now and n = 0,
        OF assms(1) distinct_due_waitpoints [OF ok] pre] unfolding vs by blast
  have "sort_key ?f (filter ?due (waitpoints d1)) = filter (\<lambda>w. w_id w \<notin> w_id ` set ?vs) (sort_key ?f ?D)"
    unfolding d1(2) due_after_expiry by (simp add: filter_sort)
  also have "\<dots> = drop ?n (sort_key ?f ?D)" by (rule filter_not_taken [OF dist])
  finally have rest: "sort_key ?f (filter ?due (waitpoints d1)) = drop ?n (sort_key ?f ?D)" .
  have "expire_waitpoints s now limit d = Inr (min limit (len (sort_key ?f ?D)), d1)"
    using d1(1) assms(2,3) vs by (auto simp: expire_waitpoints_def len_def)
  then show ?thesis using d1(2,3) rest unfolding Let_def by (auto simp: select_rows_def)
qed

theorem expire_waitpoints_drains_witness:
  "let d = fold serve (sample_run @ [(acme, 200, Waitpoint_call (Create_waitpoint ''w1'' ''t1'' ''approve'' ''approval'' 1 (Some 900)))]) empty_db;
      due = \<lambda>d. sort_key (\<lambda>w. (coalesce (w_deadline w) 0, w_id w)) (select_rows acme waitpoint_table (waitpoint_due 1000) (waitpoints d)) in
    map w_id (due d) = [''w1''] \<and>
    (\<exists>d1. expire_waitpoints acme 1000 10 d = Inr (min 10 (len (due d)), d1) \<and>
      waitpoints d1 = upd_where (\<lambda>w. w_id w \<in> w_id ` set (take (nat 10) (due d))) (waitpoint_expired 1000) (waitpoints d) \<and>
      tasks d1 = map (\<lambda>t. (touch_task 1000 ^^ length (filter (\<lambda>w. w_task_id w = t_id t) (take (nat 10) (due d)))) t) (tasks d) \<and>
      due d1 = drop (nat 10) (due d))"
  unfolding Let_def
proof (rule conjI)
  show "map w_id (sort_key (\<lambda>w. (coalesce (w_deadline w) 0, w_id w)) (select_rows acme waitpoint_table (waitpoint_due 1000)
    (waitpoints (fold serve (sample_run @ [(acme, 200, Waitpoint_call (Create_waitpoint ''w1'' ''t1'' ''approve'' ''approval'' 1 (Some 900)))]) empty_db)))) =
    [''w1'']" by ((unfold sample_runs)?, code_simp)
qed (rule expire_waitpoints_drains [OF reached_parts(1), unfolded Let_def], simp_all)

end
