(* ===== verification/Findings.thy ===== *)
theory Findings
  imports Samples
begin

text \<open>
  Behaviours of the schema that its comments and documents do not describe, each with the theorem
  that shows it.
\<close>

section \<open>Superseded attempts\<close>

definition stalled_run :: "request list" where
  "stalled_run = sample_run @ map (\<lambda>c. (acme, 200, Execution_call c)) [
    Bind_execution ''e1'' 1 ''bullmq'' None ''job-1'',
    Transition_execution ''e1'' 2 ''stalled'' None,
    Retry_execution ''e1'' 3 ''e2'',
    Transition_execution ''e2'' 1 ''running'' None,
    Transition_execution ''e1'' 4 ''dispatched'' None,
    Transition_execution ''e1'' 5 ''running'' None]"

lemma stalled_reached [sample_runs]: "fold serve stalled_run empty_db = fold serve (drop 4 stalled_run) sample_db"
  by (simp add: stalled_run_def sample_reached sample_length)

text \<open>
  An attempt that was superseded while stalled is not retired: it can still be moved to dispatched and
  running, so that it and its replacement run the same item at the same time.
\<close>

lemma superseded_attempt_runs:
  "map (\<lambda>e. (e_id e, e_item_key e, e_state e, e_superseded_at e \<noteq> None)) (executions (fold serve stalled_run empty_db)) =
    [(''e1'', ''clip'', E_running, True), (''e2'', ''clip'', E_running, False)]"
  by ((unfold sample_runs)?, code_simp)

section \<open>Double version bump\<close>

text \<open>
  The owner's transition of an attempt raises the version of the Task by two, once by the count
  trigger and once by its own update, and announces two changes, where the plain transition
  raises it by one.
\<close>

lemma owner_transition_bumps_twice:
  "task_version_of ''t1'' (committed (transition_execution_for_owner acme 200 ''e1'' ''acme'' ''ann'' 1 ''cancelled'' None)
      (fold serve sample_run empty_db)) = map_option ((+) 2) (task_version_of ''t1'' (fold serve sample_run empty_db)) \<and>
    task_version_of ''t1'' (committed (transition_execution acme 200 ''e1'' 1 ''cancelled'' None)
      (fold serve sample_run empty_db)) = map_option ((+) 1) (task_version_of ''t1'' (fold serve sample_run empty_db))"
  by ((unfold sample_runs)?, code_simp)

section \<open>Checkpoint keys with blanks\<close>

text \<open>
  C22: a checkpoint saved under a key with surrounding blanks is stored under the trimmed key but looked up
  under the key as given, so that every repetition of the same save fails as already existing.
\<close>

theorem padded_checkpoint_not_replayed:
  assumes c: "upsert_checkpoint s now kid tid eid key hv cs st fin None d = Inr (n, d1)" and i: "inv d" and key: "btrim key \<noteq> key"
    and new: "select_one s checkpoint_table (\<lambda>k. k_execution_id k = eid \<and> k_checkpoint_key k = key) (checkpoints d) = None"
  shows "upsert_checkpoint s now' kid tid eid key hv cs st fin None d1 =
    fail ''RHINOQ_CHECKPOINT_ALREADY_EXISTS'' (eid @ '':'' @ key)"
proof -
  obtain tenant rows where t: "default_tenant s = Inr tenant"
    and ins: "insert_row s checkpoint_table (new_checkpoint now kid tid tenant eid (btrim key) hv cs st
        (coalesce fin False)) (checkpoints d) = Inr rows" and d1: "d1 = d\<lparr>checkpoints := rows\<rparr>"
    using c new by (auto simp: upsert_checkpoint_def dest!: on_unique_violation_InrD split: if_split_asm)
  note I = insert_row_ok [OF ins]
  let ?k = "new_checkpoint now' kid tid tenant eid (btrim key) hv cs st (coalesce fin False)"
  have chk: "checkpoint_check ?k" "visible s tenant"
    using ins by (auto simp: insert_row_def tables checkpoint_check_def new_checkpoint_def split: if_split_asm)
  have none: "select_one s checkpoint_table (\<lambda>k. k_execution_id k = eid \<and> k_checkpoint_key k = key) (checkpoints d1) = None"
    using new key by (auto simp: d1 I(1) select_one_None_iff new_checkpoint_def)
  have "insert_row s checkpoint_table ?k (checkpoints d1) = Inl unique_violation"
    using chk by (simp add: insert_row_def tables d1 I(1) new_checkpoint_def)
  then show ?thesis
    using c none t d1 by (auto simp: upsert_checkpoint_def on_unique_violation_def bind_res_def split: if_split_asm)
qed

theorem padded_checkpoint_not_replayed_witness:
  "upsert_checkpoint acme 300 ''k1'' ''t1'' ''e1'' '' page'' 1 sha ''{}'' None None
      (snd (projr (upsert_checkpoint acme 200 ''k1'' ''t1'' ''e1'' '' page'' 1 sha ''{}'' None None (fold serve sample_run empty_db)))) =
    fail ''RHINOQ_CHECKPOINT_ALREADY_EXISTS'' (''e1'' @ '':'' @ '' page'')"
proof (rule padded_checkpoint_not_replayed [where now = 200])
  show "inv (fold serve sample_run empty_db)" by (rule reached_parts(1))
  show "upsert_checkpoint acme 200 ''k1'' ''t1'' ''e1'' '' page'' 1 sha ''{}'' None None (fold serve sample_run empty_db) =
    Inr (1, snd (projr (upsert_checkpoint acme 200 ''k1'' ''t1'' ''e1'' '' page'' 1 sha ''{}'' None None (fold serve sample_run empty_db))))"
    by ((unfold sample_runs)?, code_simp)
  show "btrim '' page'' \<noteq> '' page''" by code_simp
  show "select_one acme checkpoint_table (\<lambda>k. k_execution_id k = ''e1'' \<and> k_checkpoint_key k = '' page'')
    (checkpoints (fold serve sample_run empty_db)) = None" by ((unfold sample_runs)?, code_simp)
qed

end
