(* ===== verification/Json.thy ===== *)
theory Json
  imports Prelude
begin

text \<open>
  JavaScript values as the SDK hands them to \<open>JSON.stringify\<close> and gets them from \<open>JSON.parse\<close>, with the
  printer and the parser. Numbers are integers; an object is the list of its own
  properties in order, each name once. A property whose value is undefined is left out by the printer, and an
  undefined element of an array is printed as null. \<open>normal\<close> is what a value becomes by that; the
  parser reads back exactly this from the printed text.
\<close>

section \<open>Values\<close>

datatype js_value =
    Undefined
  | Null
  | Bool bool
  | Num int
  | Str string
  | Arr "js_value list"
  | Obj "(string \<times> js_value) list"

fun normal :: "js_value \<Rightarrow> js_value" and normal_elems :: "js_value list \<Rightarrow> js_value list"
  and normal_members :: "(string \<times> js_value) list \<Rightarrow> (string \<times> js_value) list" where
  "normal (Arr vs) = Arr (normal_elems vs)"
| "normal (Obj ps) = Obj (normal_members ps)"
| "normal v = v"
| "normal_elems [] = []"
| "normal_elems (v # vs) = (if v = Undefined then Null else normal v) # normal_elems vs"
| "normal_members [] = []"
| "normal_members ((k, v) # ps) = (if v = Undefined then normal_members ps else (k, normal v) # normal_members ps)"

text \<open>The own property of a name; of a repeated name the last one counts.\<close>

definition own_property :: "string \<Rightarrow> js_value \<Rightarrow> js_value option" where
  "own_property k v = (case v of Obj ps \<Rightarrow> map_of (rev ps) k | _ \<Rightarrow> None)"

section \<open>Printing\<close>

abbreviation "quote_mark \<equiv> CHR 0x22"
abbreviation "backslash \<equiv> CHR 0x5C"

definition hex_digit :: "nat \<Rightarrow> char" where
  "hex_digit n = char_of (if n < 10 then 48 + n else 87 + n)"

definition escape_char :: "char \<Rightarrow> string" where
  "escape_char c = (let n = of_char c :: nat in
    if c = quote_mark \<or> c = backslash then [backslash, c]
    else if n = 8 then [backslash, CHR ''b'']
    else if n = 9 then [backslash, CHR ''t'']
    else if n = 10 then [backslash, CHR ''n'']
    else if n = 12 then [backslash, CHR ''f'']
    else if n = 13 then [backslash, CHR ''r'']
    else if n < 32 then [backslash, CHR ''u'', CHR ''0'', CHR ''0'', hex_digit (n div 16), hex_digit (n mod 16)]
    else [c])"

definition quoted :: "string \<Rightarrow> string" where
  "quoted x = [quote_mark] @ concat (map escape_char x) @ [quote_mark]"

fun comma_list :: "string list \<Rightarrow> string" where
  "comma_list [] = []"
| "comma_list [x] = x"
| "comma_list (x # y # ys) = x @ '','' @ comma_list (y # ys)"

fun print_value :: "js_value \<Rightarrow> string" and print_elems :: "js_value list \<Rightarrow> string list"
  and print_members :: "(string \<times> js_value) list \<Rightarrow> string list" where
  "print_value Undefined = ''null''"
| "print_value Null = ''null''"
| "print_value (Bool b) = (if b then ''true'' else ''false'')"
| "print_value (Num i) = int_text i"
| "print_value (Str x) = quoted x"
| "print_value (Arr vs) = ''['' @ comma_list (print_elems vs) @ '']''"
| "print_value (Obj ps) = ''{'' @ comma_list (print_members ps) @ ''}''"
| "print_elems [] = []"
| "print_elems (v # vs) = print_value v # print_elems vs"
| "print_members [] = []"
| "print_members ((k, v) # ps) =
    (if v = Undefined then print_members ps else (quoted k @ '':'' @ print_value v) # print_members ps)"

definition stringify :: "js_value \<Rightarrow> string option" where
  "stringify v = (if v = Undefined then None else Some (print_value v))"

text \<open>The length of a text in UTF-8, as \<open>TextEncoder\<close> counts it, for the characters up to 255.\<close>

definition byteLength :: "string \<Rightarrow> int" where
  "byteLength x = len x + count_where (\<lambda>c. (of_char c :: nat) \<ge> 128) x"

section \<open>Parsing\<close>

definition json_space :: "char \<Rightarrow> bool" where
  "json_space c \<longleftrightarrow> of_char c \<in> {9, 10, 13, 32 :: nat}"

definition digit :: "char \<Rightarrow> bool" where
  "digit c \<longleftrightarrow> (let n = of_char c :: nat in 48 \<le> n \<and> n \<le> 57)"

definition digits_value :: "string \<Rightarrow> nat" where
  "digits_value ds = foldl (\<lambda>n c. 10 * n + (of_char c - 48)) 0 ds"

definition hex_value :: "char \<Rightarrow> nat option" where
  "hex_value c = (let n = of_char c :: nat in
    if 48 \<le> n \<and> n \<le> 57 then Some (n - 48)
    else if 97 \<le> n \<and> n \<le> 102 then Some (n - 87)
    else if 65 \<le> n \<and> n \<le> 70 then Some (n - 55) else None)"

definition unescape_char :: "char \<Rightarrow> char option" where
  "unescape_char c = (
    if c = quote_mark \<or> c = backslash \<or> c = CHR ''/'' then Some c
    else if c = CHR ''b'' then Some (char_of (8::nat))
    else if c = CHR ''t'' then Some (char_of (9::nat))
    else if c = CHR ''n'' then Some (char_of (10::nat))
    else if c = CHR ''f'' then Some (char_of (12::nat))
    else if c = CHR ''r'' then Some (char_of (13::nat)) else None)"

definition unicode_char :: "char \<Rightarrow> char \<Rightarrow> char \<Rightarrow> char \<Rightarrow> char option" where
  "unicode_char a b c d = (case (hex_value a, hex_value b, hex_value c, hex_value d) of
      (Some i, Some j, Some k, Some l) \<Rightarrow> if i = 0 \<and> j = 0 then Some (char_of (16 * k + l)) else None
    | _ \<Rightarrow> None)"

text \<open>The rest of a string literal after its opening mark.\<close>

fun parse_string :: "string \<Rightarrow> (string \<times> string) option" where
  "parse_string [] = None"
| "parse_string (c # cs) = (
    if c = quote_mark then Some ([], cs)
    else if c = backslash then (case cs of
        [] \<Rightarrow> None
      | e # r \<Rightarrow>
          if e = CHR ''u'' then (case r of
              i # j # k # l # r' \<Rightarrow> (case unicode_char i j k l of
                  None \<Rightarrow> None
                | Some u \<Rightarrow> map_option (apfst (Cons u)) (parse_string r'))
            | _ \<Rightarrow> None)
          else (case unescape_char e of
              None \<Rightarrow> None
            | Some u \<Rightarrow> map_option (apfst (Cons u)) (parse_string r)))
    else if (of_char c :: nat) < 32 then None
    else map_option (apfst (Cons c)) (parse_string cs))"

definition parse_number :: "string \<Rightarrow> (js_value \<times> string) option" where
  "parse_number x = (
    let negative = (x \<noteq> [] \<and> hd x = CHR ''-''); y = (if negative then tl x else x); ds = takeWhile digit y in
    if ds = [] \<or> (length ds > 1 \<and> hd ds = CHR ''0'') then None
    else Some (Num (if negative then - int (digits_value ds) else int (digits_value ds)), dropWhile digit y))"

definition parse_literal :: "string \<Rightarrow> (js_value \<times> string) option" where
  "parse_literal x =
    (if prefix ''null'' x then Some (Null, drop 4 x)
     else if prefix ''true'' x then Some (Bool True, drop 4 x)
     else if prefix ''false'' x then Some (Bool False, drop 5 x)
     else None)"

text \<open>The given character, after white space.\<close>

definition expect :: "char \<Rightarrow> string \<Rightarrow> string option" where
  "expect ch x = (case dropWhile json_space x of [] \<Rightarrow> None | c # r \<Rightarrow> if c = ch then Some r else None)"

text \<open>Elements and members are parsed from after the opening bracket to after the closing one.\<close>

fun parse_value :: "nat \<Rightarrow> string \<Rightarrow> (js_value \<times> string) option"
  and parse_elems :: "nat \<Rightarrow> string \<Rightarrow> (js_value list \<times> string) option"
  and parse_members :: "nat \<Rightarrow> string \<Rightarrow> ((string \<times> js_value) list \<times> string) option" where
  "parse_value 0 x = None"
| "parse_value (Suc n) x = (case dropWhile json_space x of
      [] \<Rightarrow> None
    | c # cs \<Rightarrow>
        if c = quote_mark then map_option (apfst Str) (parse_string cs)
        else if c = CHR ''['' then (case expect CHR '']'' cs of
            Some r \<Rightarrow> Some (Arr [], r)
          | None \<Rightarrow> map_option (apfst Arr) (parse_elems n cs))
        else if c = CHR ''{'' then (case expect CHR ''}'' cs of
            Some r \<Rightarrow> Some (Obj [], r)
          | None \<Rightarrow> map_option (apfst Obj) (parse_members n cs))
        else if c = CHR ''-'' \<or> digit c then parse_number (c # cs)
        else parse_literal (c # cs))"
| "parse_elems 0 x = None"
| "parse_elems (Suc n) x = (case parse_value n x of
      None \<Rightarrow> None
    | Some (v, r) \<Rightarrow> (case expect CHR '','' r of
        Some r' \<Rightarrow> map_option (apfst (Cons v)) (parse_elems n r')
      | None \<Rightarrow> map_option (\<lambda>r'. ([v], r')) (expect CHR '']'' r)))"
| "parse_members 0 x = None"
| "parse_members (Suc n) x = (case expect quote_mark x of
      None \<Rightarrow> None
    | Some cs \<Rightarrow> (case parse_string cs of
        None \<Rightarrow> None
      | Some (k, r) \<Rightarrow> (case expect CHR '':'' r of
          None \<Rightarrow> None
        | Some r1 \<Rightarrow> (case parse_value n r1 of
            None \<Rightarrow> None
          | Some (v, r2) \<Rightarrow> (case expect CHR '','' r2 of
              Some r3 \<Rightarrow> map_option (apfst (Cons (k, v))) (parse_members n r3)
            | None \<Rightarrow> map_option (\<lambda>r3. ([(k, v)], r3)) (expect CHR ''}'' r2))))))"

definition parse_json :: "string \<Rightarrow> js_value option" where
  "parse_json x = (case parse_value (2 * length x + 2) x of
      None \<Rightarrow> None
    | Some (v, r) \<Rightarrow> if dropWhile json_space r = [] then Some v else None)"

section \<open>Round trip\<close>

lemma digits_nat_text: "list_all digit (nat_text n)" "nat_text n \<noteq> []"
proof (induction n rule: nat_text.induct)
  case (1 n)
  have d: "digit (char_of (48 + k))" if "k < 10" for k :: nat
    using that by (simp add: digit_def Let_def of_char_of)
  show "list_all digit (nat_text n)" "nat_text n \<noteq> []"
    using 1 d [of n] d [of "n mod 10"] by (simp_all add: nat_text.simps [of n])
qed

lemma digits_value_snoc: "digits_value (ds @ [c]) = 10 * digits_value ds + (of_char c - 48)"
  by (simp add: digits_value_def)

lemma digits_value_nat_text: "digits_value (nat_text n) = n"
proof (induction n rule: nat_text.induct)
  case (1 n)
  show ?case
    using 1 by (cases "n < 10")
      (simp_all add: nat_text.simps [of n] digits_value_snoc of_char_of, simp add: digits_value_def of_char_of)
qed

lemma nat_text_lead: "n \<ge> 10 \<Longrightarrow> hd (nat_text n) \<noteq> CHR ''0''"
proof (induction n rule: nat_text.induct)
  case (1 n)
  show ?case
  proof (cases "n div 10 < 10")
    case True
    have "hd (nat_text n) = char_of (48 + n div 10)"
      using 1 True by (simp add: nat_text.simps [of n] nat_text.simps [of "n div 10"])
    moreover have "of_char (char_of (48 + n div 10) :: char) = 48 + n div 10"
      using True by (simp add: of_char_of)
    moreover have "n div 10 > 0" using 1 by simp
    ultimately have "of_char (hd (nat_text n)) \<noteq> (of_char CHR ''0'' :: nat)" by simp
    then show ?thesis by metis
  next
    case False
    then show ?thesis using 1 digits_nat_text(2) [of "n div 10"] by (simp add: nat_text.simps [of n])
  qed
qed

definition stops :: "string \<Rightarrow> bool" where
  "stops r \<longleftrightarrow> r = [] \<or> \<not> digit (hd r)"

lemma stops_simps [simp]:
  "stops []" "stops (CHR '','' # r)" "stops (CHR '']'' # r)" "stops (CHR ''}'' # r)"
  by (simp_all add: stops_def digit_def Let_def)

lemma digits_taken:
  assumes "stops r"
  shows "takeWhile digit (nat_text n @ r) = nat_text n" "dropWhile digit (nat_text n @ r) = r"
proof -
  have "takeWhile digit r = []" "dropWhile digit r = r"
    using assms by (cases r; simp add: stops_def)+
  then show "takeWhile digit (nat_text n @ r) = nat_text n" "dropWhile digit (nat_text n @ r) = r"
    using digits_nat_text(1) [of n] by (auto simp: list_all_iff)
qed

lemma nat_text_short: "length (nat_text n) > 1 \<Longrightarrow> hd (nat_text n) \<noteq> CHR ''0''"
  using nat_text_lead [of n] by (cases "n < 10") (simp_all add: nat_text.simps [of n])

lemma nat_text_Cons:
  obtains c cs where "nat_text n = c # cs" "digit c" "c \<noteq> CHR ''-''"
proof -
  obtain c cs where c: "nat_text n = c # cs" using digits_nat_text(2) [of n] by (cases "nat_text n") auto
  have "digit c" using digits_nat_text(1) [of n] c by simp
  moreover have "\<not> digit CHR ''-''" by (simp add: digit_def)
  ultimately show thesis using c that by metis
qed

lemma parse_number_text: "stops r \<Longrightarrow> parse_number (int_text i @ r) = Some (Num i, r)"
proof (cases "i < 0")
  case True
  assume "stops r"
  with True show ?thesis
    using digits_taken [of r "nat (- i)"] digits_nat_text(2) [of "nat (- i)"] nat_text_short [of "nat (- i)"]
    by (simp add: parse_number_def int_text_def Let_def digits_value_nat_text)
next
  case False
  assume "stops r"
  moreover obtain c cs where "nat_text (nat i) = c # cs" "c \<noteq> CHR ''-''" using nat_text_Cons [of "nat i"] by metis
  ultimately show ?thesis
    using False digits_taken [of r "nat i"] nat_text_short [of "nat i"] digits_value_nat_text [of "nat i"]
    by (auto simp: parse_number_def int_text_def Let_def split: if_splits)
qed

lemma hex_value_digit: "k < 16 \<Longrightarrow> hex_value (hex_digit k) = Some k"
  by (simp add: hex_value_def hex_digit_def Let_def of_char_of)

lemma unicode_char_escape:
  assumes "(of_char c :: nat) < 32"
  shows "unicode_char CHR ''0'' CHR ''0'' (hex_digit (of_char c div 16)) (hex_digit (of_char c mod 16)) = Some c"
proof -
  have "hex_value CHR ''0'' = Some 0" by (simp add: hex_value_def)
  moreover have "16 * (of_char c div 16) + of_char c mod 16 = (of_char c :: nat)" by simp
  ultimately show ?thesis
    using assms by (simp add: unicode_char_def hex_value_digit char_of_char)
qed

lemma char_of_code: "(of_char c :: nat) = k \<Longrightarrow> char_of k = c"
  by (metis char_of_char)

lemma parse_escaped: "parse_string (escape_char c @ r) = map_option (apfst (Cons c)) (parse_string r)"
  using unicode_char_escape [of c]
  by (auto simp: escape_char_def Let_def unescape_char_def char_of_code)

lemma parse_string_quoted: "parse_string (concat (map escape_char x) @ quote_mark # r) = Some (x, r)"
  by (induction x) (simp_all add: parse_escaped)

lemma expect_here: "\<not> json_space c \<Longrightarrow> expect ch (c # r) = (if c = ch then Some r else None)"
  by (simp add: expect_def)

lemma marks [simp]:
  "\<not> json_space CHR '',''" "\<not> json_space CHR '']''" "\<not> json_space CHR ''}''" "\<not> json_space CHR '':''"
  "\<not> json_space CHR ''[''" "\<not> json_space CHR ''{''" "\<not> json_space quote_mark" "\<not> digit CHR ''[''" "\<not> digit CHR ''{''"
  "\<not> digit quote_mark" "\<not> digit CHR ''n''" "\<not> digit CHR ''t''" "\<not> digit CHR ''f''" "\<not> json_space CHR ''n''"
  "\<not> json_space CHR ''t''" "\<not> json_space CHR ''f''" "\<not> json_space CHR ''-''"
  by (simp_all add: json_space_def digit_def)

lemma digit_mark:
  assumes "digit c"
  shows "\<not> json_space c" "c \<noteq> quote_mark" "c \<noteq> CHR ''[''" "c \<noteq> CHR ''{''" "c \<noteq> CHR '']''" "c \<noteq> CHR ''}''"
  using assms by (auto simp: json_space_def digit_def Let_def)

lemma int_text_Cons:
  obtains c cs where "int_text i = c # cs" "c = CHR ''-'' \<or> digit c"
proof (cases "i < 0")
  case True
  then show ?thesis using that by (simp add: int_text_def)
next
  case False
  moreover obtain c cs where "nat_text (nat i) = c # cs" "digit c" using nat_text_Cons [of "nat i"] by metis
  ultimately show ?thesis using that by (simp add: int_text_def)
qed

text \<open>A printed value starts with no white space and no closing bracket.\<close>

lemma print_value_Cons:
  obtains c cs where "print_value v = c # cs" "\<not> json_space c" "c \<noteq> CHR '']''" "c \<noteq> CHR ''}''"
proof (cases v)
  case (Num i)
  obtain c cs where c: "int_text i = c # cs" "c = CHR ''-'' \<or> digit c" by (rule int_text_Cons)
  then show ?thesis using Num that digit_mark(1,5,6) [of c] by auto
next
  case (Bool b)
  then show ?thesis using that by (cases b) auto
qed (use that in \<open>auto simp: quoted_def\<close>)

lemma parse_number_value:
  assumes "stops r"
  shows "parse_value (Suc n) (int_text i @ r) = Some (Num i, r)"
proof -
  obtain c cs where c: "int_text i = c # cs" "c = CHR ''-'' \<or> digit c" by (rule int_text_Cons)
  show ?thesis using parse_number_text [OF assms, of i] c digit_mark [of c] by auto
qed

lemma comma_list_Cons: "comma_list (x # xs) = x @ (if xs = [] then [] else CHR '','' # comma_list xs)"
  by (cases xs) auto

lemma print_elems_Nil [simp]: "print_elems vs = [] \<longleftrightarrow> vs = []"
  by (cases vs) auto

lemma normal_members_none: "print_members ps = [] \<Longrightarrow> normal_members ps = []"
  by (induction ps) (auto simp: split_paired_all split: if_splits)

lemma comma_list_elems_Cons:
  assumes "vs \<noteq> []"
  obtains c cs where "comma_list (print_elems vs) = c # cs" "\<not> json_space c" "c \<noteq> CHR '']''"
proof (cases vs)
  case (Cons v ws)
  obtain c cs where "print_value v = c # cs" "\<not> json_space c" "c \<noteq> CHR '']''" by (rule print_value_Cons)
  then show ?thesis using Cons that by (auto simp: comma_list_Cons)
qed (use assms in simp)

lemma comma_list_members_Cons:
  assumes "print_members ps \<noteq> []"
  obtains cs where "comma_list (print_members ps) = quote_mark # cs"
proof -
  have "\<forall>x \<in> set (print_members ps). \<exists>cs. x = quote_mark # cs"
    by (induction ps) (auto simp: split_paired_all quoted_def)
  then show ?thesis using assms that by (cases "print_members ps") (auto simp: comma_list_Cons)
qed

definition element :: "js_value \<Rightarrow> js_value" where
  "element v = (if v = Undefined then Null else normal v)"

lemma parse_printed:
  "stops r \<Longrightarrow> 2 * length (print_value v) \<le> n \<Longrightarrow> parse_value n (print_value v @ r) = Some (element v, r)"
  "vs \<noteq> [] \<Longrightarrow> 2 * length (comma_list (print_elems vs)) < n \<Longrightarrow>
    parse_elems n (comma_list (print_elems vs) @ CHR '']'' # r) = Some (normal_elems vs, r)"
  "print_members ps \<noteq> [] \<Longrightarrow> 2 * length (comma_list (print_members ps)) < n \<Longrightarrow>
    parse_members n (comma_list (print_members ps) @ CHR ''}'' # r) = Some (normal_members ps, r)"
proof (induction v and vs and ps arbitrary: n r and n r and n r rule: print_value_print_elems_print_members.induct)
  case 1
  then show ?case by (cases n) (simp_all add: element_def parse_literal_def)
next
  case 2
  then show ?case by (cases n) (simp_all add: element_def parse_literal_def)
next
  case (3 b)
  then show ?case by (cases n; cases b) (simp_all add: element_def parse_literal_def)
next
  case (4 i)
  then have "n \<noteq> 0" using int_text_Cons [of i] by fastforce
  then show ?case using 4 parse_number_value by (cases n) (auto simp: element_def)
next
  case (5 x)
  then show ?case by (cases n) (simp_all add: element_def quoted_def parse_string_quoted)
next
  case (6 vs)
  show ?case
  proof (cases "vs = []")
    case True
    then show ?thesis using 6 by (cases n) (simp_all add: element_def expect_here)
  next
    case False
    obtain c cs where c: "comma_list (print_elems vs) = c # cs" "\<not> json_space c" "c \<noteq> CHR '']''"
      by (rule comma_list_elems_Cons [OF False])
    obtain m where m: "n = Suc m" using 6 by (cases n) auto
    have "parse_elems m (comma_list (print_elems vs) @ CHR '']'' # r) = Some (normal_elems vs, r)"
      using 6(1) [OF False, of m r] 6(3) m by simp
    then show ?thesis using m c by (simp add: element_def expect_here)
  qed
next
  case (7 ps)
  show ?case
  proof (cases "print_members ps = []")
    case True
    then show ?thesis using 7 by (cases n) (simp_all add: element_def expect_here normal_members_none)
  next
    case False
    obtain cs where c: "comma_list (print_members ps) = quote_mark # cs" by (rule comma_list_members_Cons [OF False])
    obtain m where m: "n = Suc m" using 7 by (cases n) auto
    have "parse_members m (comma_list (print_members ps) @ CHR ''}'' # r) = Some (normal_members ps, r)"
      using 7(1) [OF False, of m r] 7(3) m by simp
    then show ?thesis using m c by (simp add: element_def expect_here)
  qed
next
  case 8
  then show ?case by simp
next
  case (9 v vs)
  obtain m where m: "n = Suc m" using 9 by (cases n) auto
  let ?r = "(if vs = [] then CHR '']'' # r else CHR '','' # comma_list (print_elems vs) @ CHR '']'' # r)"
  have "parse_value m (print_value v @ ?r) = Some (element v, ?r)"
    using 9(1) [of ?r m] 9(4) m by (simp add: comma_list_Cons split: if_splits)
  then show ?case
    using 9(2) [of m r] 9(4) m by (auto simp: comma_list_Cons expect_here element_def)
next
  case 10
  then show ?case by simp
next
  case (11 k v ps)
  show ?case
  proof (cases "v = Undefined")
    case True
    then show ?thesis using 11 by simp
  next
    case False
    obtain m where m: "n = Suc m" using 11 by (cases n) auto
    let ?r = "(if print_members ps = [] then CHR ''}'' # r else CHR '','' # comma_list (print_members ps) @ CHR ''}'' # r)"
    have "parse_value m (print_value v @ ?r) = Some (element v, ?r)"
      using 11(2) [OF False, of ?r m] 11(5) m False by (simp add: comma_list_Cons split: if_splits)
    then show ?thesis
      using 11(3) [OF False, of m r] 11(5) m False
      by (auto simp: comma_list_Cons expect_here element_def quoted_def parse_string_quoted normal_members_none)
  qed
qed

lemma parse_stringify: "stringify v = Some x \<Longrightarrow> parse_json x = Some (normal v)"
  using parse_printed(1) [of "[]" v "2 * length x + 2"]
  by (auto simp: stringify_def parse_json_def element_def split: if_splits)

section \<open>What the parser returns is normal\<close>

lemma parse_normal:
  "parse_value n x = Some (v, r) \<Longrightarrow> v \<noteq> Undefined \<and> normal v = v"
  "parse_elems n x = Some (vs, r) \<Longrightarrow> normal_elems vs = vs"
  "parse_members n x = Some (ps, r) \<Longrightarrow> normal_members ps = ps"
proof (induction n x and n x and n x arbitrary: v r and vs r and ps r rule: parse_value_parse_elems_parse_members.induct)
  case (2 n x)
  obtain c cs where c: "dropWhile json_space x = c # cs" using 2(3) by (cases "dropWhile json_space x") simp_all
  note IH = 2(1,2) [OF c] and P = 2(3) [unfolded parse_value.simps(2) c list.case]
  consider (str) "c = quote_mark" | (arr) "c = CHR ''[''" | (obj) "c = CHR ''{''"
    | (num) "c \<noteq> quote_mark" "c \<noteq> CHR ''[''" "c \<noteq> CHR ''{''" "c = CHR ''-'' \<or> digit c"
    | (lit) "c \<noteq> quote_mark" "c \<noteq> CHR ''[''" "c \<noteq> CHR ''{''" "\<not> (c = CHR ''-'' \<or> digit c)" by blast
  then show ?case
  proof cases
    case str
    then show ?thesis using P by auto
  next
    case arr
    then show ?thesis using P IH(1) by (auto split: option.split_asm)
  next
    case obj
    then show ?thesis using P IH(2) by (auto split: option.split_asm)
  next
    case num
    then have "parse_number (c # cs) = Some (v, r)" using P by (simp only: if_False if_True)
    then show ?thesis by (auto simp: parse_number_def Let_def split: if_split_asm)
  next
    case lit
    then have "parse_literal (c # cs) = Some (v, r)" using P by (simp only: if_False)
    then show ?thesis by (auto simp: parse_literal_def split: if_split_asm)
  qed
next
  case (4 n x)
  obtain v r' where v: "parse_value n x = Some (v, r')" using 4(3) by (cases "parse_value n x") auto
  have "v \<noteq> Undefined \<and> normal v = v" using 4(1) [OF v] .
  then show ?case using 4(2) [OF v] 4(3) v by (cases "expect CHR '','' r'") auto
next
  case (6 n x)
  then show ?case by (fastforce split: option.split_asm)
qed simp_all

lemma length_normal_members: "length (normal_members ps) \<le> length ps"
  by (induction ps) (auto simp: split_paired_all)

lemma normal_member:
  "normal_members ps = ps \<Longrightarrow> (k, v) \<in> set ps \<Longrightarrow> v \<noteq> Undefined \<and> normal v = v"
proof (induction ps)
  case (Cons p ps)
  obtain k' v' where p: "p = (k', v')" by (cases p)
  have "v' \<noteq> Undefined" using Cons.prems(1) length_normal_members [of ps] unfolding p by auto
  then show ?case using Cons p by auto
qed simp

lemma parsed_property:
  assumes "parse_json x = Some j" and "own_property k j = Some v"
  shows "v \<noteq> Undefined \<and> normal v = v"
proof -
  obtain ps where ps: "j = Obj ps" "map_of (rev ps) k = Some v"
    using assms(2) by (auto simp: own_property_def split: js_value.splits)
  obtain r where "parse_value (2 * length x + 2) x = Some (j, r)"
    using assms(1) by (auto simp: parse_json_def split: option.split_asm if_split_asm)
  then have "normal j = j" using parse_normal(1) by blast
  then have "normal_members ps = ps" using ps(1) by simp
  moreover have "(k, v) \<in> set ps" using map_of_SomeD [OF ps(2)] by simp
  ultimately show ?thesis by (rule normal_member)
qed

end
