(* ===== verification/Client.thy ===== *)
theory Client
  imports System Json
begin

text \<open>
  How a client method of \<open>postgres/task-client.ts\<close> runs: a sequence of statements, each a
  transaction of its own, between which other clients may act. The \<open>world\<close> holds the database and
  a plan: for every statement still to come, the requests of others that are served before it
  and the time at which it runs. A method is a function on worlds that returns or throws. The errors
  a caller sees are those of \<open>mapDatabaseError\<close>.
\<close>

section \<open>Errors\<close>

record rhinoq_error =
  re_code :: string
  re_message :: string
  re_retryable :: bool
  re_status :: "int option"
  re_next_action :: "string option"

text \<open>
  \<open>Js_error\<close> is a plain \<open>Error\<close> with its message, \<open>Named_error\<close> one of a class of its own, with the
  name of the class; \<open>Resource_unavailable\<close> is the error class of
  \<open>tasks/resource-lease.ts\<close> with its pool, request and retry hint.
\<close>

datatype client_error =
    Type_error string
  | Range_error string
  | Js_error string
  | Named_error string string
  | Rhinoq_error rhinoq_error
  | Resource_unavailable string resources int

fun includes_text :: "string \<Rightarrow> string \<Rightarrow> bool" where
  "includes_text [] p = (p = [])"
| "includes_text (c # cs) p = (prefix p (c # cs) \<or> includes_text cs p)"

definition TASK_ERROR_NEXT_ACTION :: "string \<Rightarrow> string option" where
  "TASK_ERROR_NEXT_ACTION code =
    (if code = ''RHINOQ_PROGRESS_STATE'' then Some ''Transition the task to 'running' before reporting progress.''
     else if code = ''RHINOQ_TASK_SCHEMA_MISSING'' then Some ''Run npx rhinoq-task against the same database, then retry.''
     else None)"

definition taskError :: "string \<Rightarrow> string \<Rightarrow> client_error" where
  "taskError code detail = Rhinoq_error \<lparr>re_code = code, re_message = detail, re_retryable = False,
    re_status = Some (if includes_text code ''NOT_FOUND'' then 404
      else if includes_text code ''CONFLICT'' \<or> includes_text code ''ALREADY'' then 409 else 400),
    re_next_action = TASK_ERROR_NEXT_ACTION code\<rparr>"

text \<open>
  The message PostgreSQL attaches to a condition of its own is represented by the SQLSTATE.
\<close>

definition mapDatabaseError :: "db_error \<Rightarrow> client_error" where
  "mapDatabaseError e = (case e of
      Rhinoq message detail \<Rightarrow>
        if prefix ''RHINOQ_'' message then taskError message (coalesce detail message)
        else Rhinoq_error \<lparr>re_code = ''RHINOQ_POSTGRES_UNREACHABLE'', re_message = message,
          re_retryable = True, re_status = None, re_next_action = None\<rparr>
    | Sql_state code \<Rightarrow>
        if code = ''42P01'' \<or> code = ''3F000'' then taskError ''RHINOQ_TASK_SCHEMA_MISSING''
          ''RhinoQ Task schema is not installed or is incomplete. Run npx rhinoq-task against the same database, then retry.''
        else Rhinoq_error \<lparr>re_code = ''RHINOQ_POSTGRES_UNREACHABLE'', re_message = code,
          re_retryable = True, re_status = None, re_next_action = None\<rparr>)"

definition hasCode :: "client_error \<Rightarrow> string \<Rightarrow> bool" where
  "hasCode e code = (case e of Rhinoq_error r \<Rightarrow> re_code r = code | _ \<Rightarrow> False)"

text \<open>\<open>name\<close> and \<open>message\<close> of an error.\<close>

definition error_name :: "client_error \<Rightarrow> string" where
  "error_name e = (case e of Type_error _ \<Rightarrow> ''TypeError'' | Range_error _ \<Rightarrow> ''RangeError'' | Js_error _ \<Rightarrow> ''Error''
    | Named_error nm _ \<Rightarrow> nm | Rhinoq_error _ \<Rightarrow> ''RhinoQError''
    | Resource_unavailable _ _ _ \<Rightarrow> ''RhinoQResourceUnavailableError'')"

text \<open>The text of an error, as the classes build it.\<close>

definition error_message :: "client_error \<Rightarrow> string" where
  "error_message e = (case e of Type_error m \<Rightarrow> m | Range_error m \<Rightarrow> m | Js_error m \<Rightarrow> m | Named_error _ m \<Rightarrow> m
    | Rhinoq_error r \<Rightarrow> re_message r
    | Resource_unavailable pool _ _ \<Rightarrow> ''Resource pool '' @ quoted pool @
        '' cannot currently admit the requested work. The handler was not started.'')"

section \<open>Worlds and methods\<close>

record world =
  at_db :: db
  at_now :: int
  at_plan :: "(request list \<times> int) list"

type_synonym 'a io = "world \<Rightarrow> (client_error + 'a) \<times> world"

definition return :: "'a \<Rightarrow> 'a io" where
  "return x w = (Inr x, w)"

definition throw :: "client_error \<Rightarrow> 'a io" where
  "throw e w = (Inl e, w)"

definition await :: "'a io \<Rightarrow> ('a \<Rightarrow> 'b io) \<Rightarrow> 'b io" where
  "await m f w = (case m w of (Inl e, w') \<Rightarrow> (Inl e, w') | (Inr x, w') \<Rightarrow> f x w')"

definition try_catch :: "'a io \<Rightarrow> (client_error \<Rightarrow> 'a io) \<Rightarrow> 'a io" where
  "try_catch m h w = (case m w of (Inl e, w') \<Rightarrow> h e w' | (Inr x, w') \<Rightarrow> (Inr x, w'))"

text \<open>A computation that needs no statement.\<close>

definition of_sum :: "client_error + 'a \<Rightarrow> 'a io" where
  "of_sum r = (case r of Inl e \<Rightarrow> throw e | Inr x \<Rightarrow> return x)"

definition guarded :: "bool \<Rightarrow> client_error \<Rightarrow> 'a io \<Rightarrow> 'a io" where
  "guarded bad e m = (if bad then throw e else m)"

text \<open>The others act, then the statement runs.\<close>

definition turn :: "world \<Rightarrow> world" where
  "turn w = (case at_plan w of [] \<Rightarrow> w
    | (rs, now) # plan \<Rightarrow> \<lparr>at_db = fold serve rs (at_db w), at_now = now, at_plan = plan\<rparr>)"

definition execute :: "(int \<Rightarrow> 'a command) \<Rightarrow> 'a io" where
  "execute f w = (let w' = turn w in case f (at_now w') (at_db w') of
      Inl e \<Rightarrow> (Inl (mapDatabaseError e), w')
    | Inr (x, d) \<Rightarrow> (Inr x, w'\<lparr>at_db := d\<rparr>))"

definition query :: "(int \<Rightarrow> db \<Rightarrow> 'a) \<Rightarrow> 'a io" where
  "query f = execute (\<lambda>now d. Inr (f now d, d))"

text \<open>An optional text that JavaScript treats as present.\<close>

definition truthy :: "string option \<Rightarrow> string option" where
  "truthy x = (case x of None \<Rightarrow> None | Some y \<Rightarrow> nullif y '''')"

abbreviation blank_text :: "string \<Rightarrow> bool" where
  "blank_text x \<equiv> js_trim x = ''''"

section \<open>Every method is a run\<close>

text \<open>
  \<open>runs m\<close>: whatever the others do, the database a method leaves is one that a sequence of requests
  leads to, so that everything proved of runs holds while clients are at work.
\<close>

definition runs :: "'a io \<Rightarrow> bool" where
  "runs m \<longleftrightarrow> (\<forall>w. \<exists>rs. at_db (snd (m w)) = fold serve rs (at_db w))"

named_theorems client_runs \<open>methods whose effect is a run of requests\<close>

lemma runs_return [client_runs]: "runs (return x)"
  unfolding runs_def return_def by (auto intro: exI [of _ "[]"])

lemma runs_throw [client_runs]: "runs (throw e)"
  unfolding runs_def throw_def by (auto intro: exI [of _ "[]"])

lemma runs_of_sum [client_runs]: "runs (of_sum r)"
  by (cases r) (simp_all add: of_sum_def runs_return runs_throw)

lemma runs_seq:
  assumes "\<exists>rs. d1 = fold serve rs d" and "\<exists>rs. d2 = fold serve rs d1"
  shows "\<exists>rs. d2 = fold serve rs d"
  using assms by (metis fold_append comp_apply)

lemma runs_await [client_runs]:
  assumes "runs m" and "\<And>x. runs (f x)"
  shows "runs (await m f)"
  unfolding runs_def
proof
  fix w
  obtain r w' where w': "m w = (r, w')" by fastforce
  have "\<exists>rs. at_db w' = fold serve rs (at_db w)"
    using assms(1) w' unfolding runs_def by (metis snd_conv)
  moreover have "\<exists>rs. at_db (snd (f x w')) = fold serve rs (at_db w')" for x
    using assms(2) unfolding runs_def by blast
  ultimately show "\<exists>rs. at_db (snd (await m f w)) = fold serve rs (at_db w)"
    using w' by (cases r) (auto simp: await_def intro: runs_seq)
qed

lemma runs_try_catch [client_runs]:
  assumes "runs m" and "\<And>e. runs (h e)"
  shows "runs (try_catch m h)"
  unfolding runs_def
proof
  fix w
  obtain r w' where w': "m w = (r, w')" by fastforce
  have "\<exists>rs. at_db w' = fold serve rs (at_db w)"
    using assms(1) w' unfolding runs_def by (metis snd_conv)
  moreover have "\<exists>rs. at_db (snd (h e w')) = fold serve rs (at_db w')" for e
    using assms(2) unfolding runs_def by blast
  ultimately show "\<exists>rs. at_db (snd (try_catch m h w)) = fold serve rs (at_db w)"
    using w' by (cases r) (auto simp: try_catch_def intro: runs_seq)
qed

lemma runs_guarded [client_runs]: "runs m \<Longrightarrow> runs (guarded bad e m)"
  by (simp add: guarded_def runs_throw)

lemma runs_if [client_runs]: "runs m \<Longrightarrow> runs m' \<Longrightarrow> runs (if b then m else m')"
  by simp

lemma runs_case_option [client_runs]:
  "runs m \<Longrightarrow> (\<And>x. runs (f x)) \<Longrightarrow> runs (case v of None \<Rightarrow> m | Some x \<Rightarrow> f x)"
  by (cases v) simp_all

lemma runs_execute:
  assumes "\<And>now d. \<exists>rs. committed (f now) d = fold serve rs d"
  shows "runs (execute f)"
  unfolding runs_def
proof
  fix w
  have "\<exists>rs. at_db (turn w) = fold serve rs (at_db w)"
    by (cases "at_plan w") (auto simp: turn_def intro: exI [of _ "[]"])
  moreover have "at_db (snd (execute f w)) = committed (f (at_now (turn w))) (at_db (turn w))"
    by (auto simp: execute_def committed_def Let_def split: sum.split)
  ultimately show "\<exists>rs. at_db (snd (execute f w)) = fold serve rs (at_db w)"
    using assms by (metis runs_seq)
qed

lemma runs_call:
  assumes "\<And>now d. committed (f now) d = serve (s, now, c) d"
  shows "runs (execute f)"
proof (rule runs_execute)
  show "\<exists>rs. committed (f now) d = fold serve rs d" for now d
    using assms [of now d] by (intro exI [of _ "[(s, now, c)]"]) simp
qed

lemma runs_query [client_runs]: "runs (query f)"
  unfolding query_def by (rule runs_execute) (auto simp: committed_def intro: exI [of _ "[]"])

section \<open>Methods while nobody else acts\<close>

lemma await_simps:
  "m w = (Inl e, w') \<Longrightarrow> await m f w = (Inl e, w')"
  "m w = (Inr x, w') \<Longrightarrow> await m f w = f x w'"
  by (simp_all add: await_def)

lemma quiet_turn [simp]: "at_plan w = [] \<Longrightarrow> turn w = w"
  by (simp add: turn_def)

lemma quiet_execute:
  assumes "at_plan w = []"
  shows "f (at_now w) (at_db w) = Inr (x, d) \<Longrightarrow> execute f w = (Inr x, w\<lparr>at_db := d\<rparr>)"
    and "f (at_now w) (at_db w) = Inl e \<Longrightarrow> execute f w = (Inl (mapDatabaseError e), w)"
  using assms by (simp_all add: execute_def)

lemma quiet_query: "at_plan w = [] \<Longrightarrow> query f w = (Inr (f (at_now w) (at_db w)), w)"
  by (simp add: query_def execute_def)

lemma quiet_world: "at_plan w = [] \<Longrightarrow> w\<lparr>at_db := at_db w\<rparr> = w"
  by simp

end
