(* ===== verification/Task_Client.thy ===== *)
theory Task_Client
  imports Client
begin

text \<open>
  The Task and Execution methods of \<open>PostgresTaskClient\<close> (\<open>postgres/task-client.ts\<close>): the reads with
  their row mappers, and the writes, each an argument check, one or more statements, and a read
  back. Timestamps stay integers where the code prints ISO text, and a state is its constructor where
  the code has its name. Text is compared by character code, as under collation \<open>C\<close>.
\<close>

section \<open>Public shapes\<close>

record task_progress =
  p_completed :: int
  p_total :: "int option"
  p_message :: "string option"

record execution_summary =
  x_id :: string
  x_item_key :: string
  x_attempt :: int
  x_runtime :: string
  x_runtime_scope :: "string option"
  x_state :: exec_state
  x_version :: int
  x_has_result :: bool
  x_failure_reason :: "string option"

text \<open>What \<open>TaskSnapshot\<close> and \<open>TaskSummary\<close> share.\<close>

record task_fields =
  sn_entity_version :: int
  sn_id :: string
  sn_type :: string
  sn_owner_id :: "string option"
  sn_state :: task_state
  sn_cancellation_status :: cancellation_status
  sn_cancellation_reason :: "string option"
  sn_progress :: task_progress
  sn_has_result :: bool
  sn_created_at :: int
  sn_updated_at :: int

record task_snapshot = task_fields +
  sn_executions :: "execution_summary list"

record item_counts =
  ic_counts :: exec_counts
  ic_retries :: int

record task_summary = task_fields +
  su_execution_counts :: exec_counts
  su_item_counts :: "item_counts option"

record task_execution =
  te_id :: string
  te_task_id :: string
  te_item_key :: string
  te_attempt :: int
  te_runtime :: string
  te_runtime_scope :: "string option"
  te_external_id :: "string option"
  te_state :: exec_state
  te_version :: int

section \<open>Row mappers\<close>

definition mapExecutionSummaryRow :: "execution_row \<Rightarrow> execution_summary" where
  "mapExecutionSummaryRow e = \<lparr>x_id = e_id e, x_item_key = e_item_key e, x_attempt = e_attempt e,
    x_runtime = e_runtime e, x_runtime_scope = nullif (e_runtime_scope e) '''', x_state = e_state e,
    x_version = e_version e, x_has_result = (e_result_ref e \<noteq> None),
    x_failure_reason = truthy (e_failure_reason e)\<rparr>"

definition mapSnapshot :: "task_row \<Rightarrow> execution_summary list \<Rightarrow> task_snapshot" where
  "mapSnapshot t es = \<lparr>sn_entity_version = t_version t, sn_id = t_id t, sn_type = t_type t,
    sn_owner_id = truthy (t_owner_id t), sn_state = t_state t,
    sn_cancellation_status = t_cancellation_status t,
    sn_cancellation_reason = truthy (t_cancellation_reason t),
    sn_progress = \<lparr>p_completed = t_progress_completed t, p_total = t_progress_total t,
      p_message = truthy (t_progress_message t)\<rparr>,
    sn_has_result = (t_result_ref t \<noteq> None), sn_created_at = t_created_at t,
    sn_updated_at = t_updated_at t, sn_executions = es\<rparr>"

text \<open>\<open>items\<close> are the counts of the live attempts, present on a summary read only.\<close>

definition mapSummary :: "task_row \<Rightarrow> exec_counts option \<Rightarrow> task_summary" where
  "mapSummary t items = (let r = mapSnapshot t [] in
    \<lparr>sn_entity_version = sn_entity_version r, sn_id = sn_id r, sn_type = sn_type r,
      sn_owner_id = sn_owner_id r, sn_state = sn_state r,
      sn_cancellation_status = sn_cancellation_status r,
      sn_cancellation_reason = sn_cancellation_reason r, sn_progress = sn_progress r,
      sn_has_result = sn_has_result r, sn_created_at = sn_created_at r, sn_updated_at = sn_updated_at r,
      su_execution_counts = t_counts t,
      su_item_counts = (case items of None \<Rightarrow> None | Some c \<Rightarrow>
        Some \<lparr>ic_counts = c, ic_retries = max 0 (c_total (t_counts t) - c_total c)\<rparr>)\<rparr>)"

definition mapExecution :: "execution_row \<Rightarrow> task_execution" where
  "mapExecution e = \<lparr>te_id = e_id e, te_task_id = e_task_id e, te_item_key = e_item_key e,
    te_attempt = e_attempt e, te_runtime = e_runtime e, te_runtime_scope = nullif (e_runtime_scope e) '''',
    te_external_id = truthy (e_external_id e), te_state = e_state e, te_version = e_version e\<rparr>"

section \<open>Statements that read\<close>

text \<open>\<open>$2 IS NULL OR owner_id = $2\<close> and \<open>$3 IS NULL OR tenant_id = $3\<close>.\<close>

definition task_scope :: "string option \<Rightarrow> string option \<Rightarrow> task_row \<Rightarrow> bool" where
  "task_scope ownerId tenantId t \<longleftrightarrow> (ownerId = None \<or> t_owner_id t = ownerId) \<and>
    (tenantId = None \<or> tenantId = Some (t_tenant_id t))"

definition task_executions :: "session \<Rightarrow> string \<Rightarrow> db \<Rightarrow> execution_row list" where
  "task_executions s taskId d = sort_key (\<lambda>e. (e_item_key e, e_attempt e, e_id e))
    (select_rows s execution_table (\<lambda>e. e_task_id e = taskId) (executions d))"

definition SNAPSHOT_SQL :: "session \<Rightarrow> string \<Rightarrow> string option \<Rightarrow> string option \<Rightarrow> db \<Rightarrow> (task_row \<times> execution_summary list) option" where
  "SNAPSHOT_SQL s taskId ownerId tenantId d = (case
      select_one s task_table (\<lambda>t. t_id t = taskId \<and> task_scope ownerId tenantId t) (tasks d) of
      None \<Rightarrow> None
    | Some t \<Rightarrow> Some (t, map mapExecutionSummaryRow (task_executions s taskId d)))"

definition SUMMARY_SQL :: "session \<Rightarrow> string \<Rightarrow> string option \<Rightarrow> string option \<Rightarrow> db \<Rightarrow> (task_row \<times> exec_counts) option" where
  "SUMMARY_SQL s taskId ownerId tenantId d = (case
      select_one s task_table (\<lambda>t. t_id t = taskId \<and> task_scope ownerId tenantId t) (tasks d) of
      None \<Rightarrow> None
    | Some t \<Rightarrow> Some (t, counts_of (live_attempts s taskId d)))"

definition readTask :: "session \<Rightarrow> string \<Rightarrow> string option \<Rightarrow> string option \<Rightarrow> task_snapshot io" where
  "readTask s taskId ownerId tenantId =
    guarded (blank_text taskId) (Type_error ''task id is required'')
    (await (query (\<lambda>now. SNAPSHOT_SQL s taskId ownerId tenantId)) (\<lambda>row. case row of
        None \<Rightarrow> throw (taskError ''RHINOQ_TASK_NOT_FOUND'' taskId)
      | Some (t, es) \<Rightarrow> return (mapSnapshot t es)))"

definition getTask :: "session \<Rightarrow> string \<Rightarrow> task_snapshot io" where
  "getTask s taskId = readTask s taskId None None"

definition getTaskForOwner :: "session \<Rightarrow> string \<Rightarrow> string \<Rightarrow> string \<Rightarrow> task_snapshot io" where
  "getTaskForOwner s taskId ownerId tenantId = readTask s taskId (Some ownerId) (Some tenantId)"

definition readTaskSummary :: "session \<Rightarrow> string \<Rightarrow> string option \<Rightarrow> string option \<Rightarrow> task_summary io" where
  "readTaskSummary s taskId ownerId tenantId =
    guarded (blank_text taskId) (Type_error ''task id is required'')
    (await (query (\<lambda>now. SUMMARY_SQL s taskId ownerId tenantId)) (\<lambda>row. case row of
        None \<Rightarrow> throw (taskError ''RHINOQ_TASK_NOT_FOUND'' taskId)
      | Some (t, items) \<Rightarrow> return (mapSummary t (Some items))))"

definition getTaskSummary :: "session \<Rightarrow> string \<Rightarrow> task_summary io" where
  "getTaskSummary s taskId = readTaskSummary s taskId None None"

definition getTaskSummaryForOwner :: "session \<Rightarrow> string \<Rightarrow> string \<Rightarrow> string \<Rightarrow> task_summary io" where
  "getTaskSummaryForOwner s taskId ownerId tenantId = readTaskSummary s taskId (Some ownerId) (Some tenantId)"

definition readTaskIfNewer ::
  "session \<Rightarrow> string \<Rightarrow> int \<Rightarrow> string option \<Rightarrow> string option \<Rightarrow> task_snapshot option io" where
  "readTaskIfNewer s taskId sinceVersion ownerId tenantId =
    guarded (blank_text taskId) (Type_error ''task id is required'')
    (guarded (sinceVersion < 0) (Range_error ''sinceVersion must be a non-negative integer'')
    (await (query (\<lambda>now d. select_one s task_table (\<lambda>t. t_id t = taskId \<and> task_scope ownerId tenantId t) (tasks d)))
      (\<lambda>probe. case probe of
          None \<Rightarrow> throw (taskError ''RHINOQ_TASK_NOT_FOUND'' taskId)
        | Some row \<Rightarrow> if t_version row \<le> sinceVersion then return None
            else await (readTask s taskId ownerId tenantId) (\<lambda>sn. return (Some sn)))))"

definition getTaskIfNewerThan :: "session \<Rightarrow> string \<Rightarrow> int \<Rightarrow> task_snapshot option io" where
  "getTaskIfNewerThan s taskId sinceVersion = readTaskIfNewer s taskId sinceVersion None None"

definition getTaskForOwnerIfNewerThan :: "session \<Rightarrow> string \<Rightarrow> int \<Rightarrow> string \<Rightarrow> string \<Rightarrow> task_snapshot option io" where
  "getTaskForOwnerIfNewerThan s taskId sinceVersion ownerId tenantId =
    guarded (blank_text ownerId) (Type_error ''owner id is required'')
    (readTaskIfNewer s taskId sinceVersion (Some ownerId) (Some tenantId))"

section \<open>Lists\<close>

definition mapRow :: "session \<Rightarrow> db \<Rightarrow> task_row \<Rightarrow> task_snapshot" where
  "mapRow s d t = mapSnapshot t (map mapExecutionSummaryRow (task_executions s (t_id t) d))"

definition owner_tasks :: "session \<Rightarrow> string \<Rightarrow> string \<Rightarrow> db \<Rightarrow> task_row list" where
  "owner_tasks s ownerId tenantId d =
    select_rows s task_table (\<lambda>t. t_owner_id t = Some ownerId \<and> t_tenant_id t = tenantId) (tasks d)"

text \<open>\<open>ORDER BY updated_at DESC, id LIMIT $3 OFFSET $4\<close>.\<close>

definition LIST_SNAPSHOTS_SQL :: "session \<Rightarrow> string \<Rightarrow> string \<Rightarrow> int \<Rightarrow> int \<Rightarrow> db \<Rightarrow> task_row list" where
  "LIST_SNAPSHOTS_SQL s ownerId tenantId limit offset d =
    left_text limit (drop (nat offset) (sort_key (\<lambda>t. (- t_updated_at t, t_id t)) (owner_tasks s ownerId tenantId d)))"

definition listTasks :: "session \<Rightarrow> string \<Rightarrow> int \<Rightarrow> int \<Rightarrow> string \<Rightarrow> task_snapshot list io" where
  "listTasks s ownerId limit offset tenantId =
    guarded (blank_text ownerId) (Type_error ''owner id is required'')
    (guarded (limit \<le> 0 \<or> limit > 200 \<or> offset < 0) (Range_error ''limit must be 1..200 and offset must be non-negative'')
    (query (\<lambda>now d. map (mapRow s d) (LIST_SNAPSHOTS_SQL s ownerId tenantId limit offset d))))"

text \<open>
  A cursor is base64url text of a JSON object; it is represented by the fields it carries: no text, an
  object with the time its first field parses to (none when it does not) and the id, or
  anything else. \<open>shown\<close> is what the driver makes of a \<open>timestamptz\<close>: a driver that
  answers with text keeps the value, one that answers with a \<open>Date\<close> rounds it to a millisecond.
\<close>

datatype cursor_token = No_cursor | Cursor "int option" string | Garbled_cursor

definition encodeTaskCursor :: "(int \<Rightarrow> int) \<Rightarrow> task_row \<Rightarrow> cursor_token" where
  "encodeTaskCursor shown t = Cursor (Some (shown (t_updated_at t))) (t_id t)"

definition decodeTaskCursor :: "cursor_token \<Rightarrow> client_error + (int \<times> string) option" where
  "decodeTaskCursor c = (case c of
      No_cursor \<Rightarrow> Inr None
    | Cursor (Some at) tid \<Rightarrow> if tid = '''' then Inl (Type_error ''invalid task cursor'') else Inr (Some (at, tid))
    | _ \<Rightarrow> Inl (Type_error ''invalid task cursor''))"

text \<open>\<open>(updated_at, id) < ($4, $5) ORDER BY updated_at DESC, id DESC LIMIT $3\<close>.\<close>

definition LIST_SNAPSHOTS_KEYSET_SQL ::
  "session \<Rightarrow> string \<Rightarrow> string \<Rightarrow> int \<Rightarrow> (int \<times> string) option \<Rightarrow> db \<Rightarrow> task_row list" where
  "LIST_SNAPSHOTS_KEYSET_SQL s ownerId tenantId limit after d =
    left_text limit (rev (sort_key (\<lambda>t. (t_updated_at t, t_id t)) (filter
      (\<lambda>t. case after of None \<Rightarrow> True | Some c \<Rightarrow> (t_updated_at t, t_id t) < c)
      (owner_tasks s ownerId tenantId d))))"

record task_page =
  pg_tasks :: "task_snapshot list"
  pg_next_cursor :: "cursor_token option"

definition listTasksPage ::
  "(int \<Rightarrow> int) \<Rightarrow> session \<Rightarrow> string \<Rightarrow> cursor_token \<Rightarrow> int \<Rightarrow> string \<Rightarrow> task_page io" where
  "listTasksPage shown s ownerId cursor limit tenantId =
    guarded (blank_text ownerId) (Type_error ''owner id is required'')
    (guarded (limit \<le> 0 \<or> limit > 200) (Range_error ''limit must be 1..200'')
    (case decodeTaskCursor cursor of
      Inl e \<Rightarrow> throw e
    | Inr after \<Rightarrow> query (\<lambda>now d.
        let found = LIST_SNAPSHOTS_KEYSET_SQL s ownerId tenantId (limit + 1) after d;
          more = len found > limit;
          rows = (if more then left_text limit found else found) in
        \<lparr>pg_tasks = map (mapRow s d) rows,
          pg_next_cursor = (if more \<and> rows \<noteq> [] then Some (encodeTaskCursor shown (last rows)) else None)\<rparr>)))"

definition decodeExecutionCursor :: "cursor_token \<Rightarrow> client_error + string option" where
  "decodeExecutionCursor c = (case c of
      No_cursor \<Rightarrow> Inr None
    | Cursor _ eid \<Rightarrow> if eid = '''' then Inl (Type_error ''invalid execution cursor'') else Inr (Some eid)
    | Garbled_cursor \<Rightarrow> Inl (Type_error ''invalid execution cursor''))"

definition encodeExecutionCursor :: "execution_row \<Rightarrow> cursor_token" where
  "encodeExecutionCursor e = Cursor None (e_id e)"

record execution_page =
  xp_entity_version :: int
  xp_executions :: "execution_summary list"
  xp_next_cursor :: "cursor_token option"

text \<open>
  \<open>(created_at, id) > (SELECT created_at, id ...)\<close>; the row of the cursor is read again by the
  statement, and a comparison with a row that is gone is NULL.
\<close>

definition executions_after :: "session \<Rightarrow> string \<Rightarrow> string option \<Rightarrow> int \<Rightarrow> db \<Rightarrow> execution_row list" where
  "executions_after s taskId after limit d = (
    let own = select_rows s execution_table (\<lambda>e. e_task_id e = taskId) (executions d) in
    left_text limit (sort_key (\<lambda>e. (e_created_at e, e_id e)) (case after of
        None \<Rightarrow> own
      | Some eid \<Rightarrow> (case find (\<lambda>e. e_id e = eid) own of
          None \<Rightarrow> []
        | Some c \<Rightarrow> filter (\<lambda>e. (e_created_at c, e_id c) < (e_created_at e, e_id e)) own))))"

definition listTaskExecutions :: "session \<Rightarrow> string \<Rightarrow> cursor_token \<Rightarrow> int \<Rightarrow> execution_page io" where
  "listTaskExecutions s taskId cursor limit =
    guarded (limit \<le> 0 \<or> limit > 500) (Range_error ''execution page limit must be between 1 and 500'')
    (await (getTaskSummary s taskId) (\<lambda>task. case decodeExecutionCursor cursor of
        Inl e \<Rightarrow> throw e
      | Inr after \<Rightarrow>
          await (case after of
              None \<Rightarrow> return True
            | Some eid \<Rightarrow> query (\<lambda>now d. select_one s execution_table (\<lambda>e. e_task_id e = taskId \<and> e_id e = eid)
                (executions d) \<noteq> None)) (\<lambda>known.
          guarded (\<not> known) (Type_error ''invalid execution cursor'')
          (query (\<lambda>now d.
            let found = executions_after s taskId after (limit + 1) d;
              more = len found > limit;
              rows = (if more then left_text limit found else found) in
            \<lparr>xp_entity_version = sn_entity_version task, xp_executions = map mapExecutionSummaryRow rows,
              xp_next_cursor = (if more \<and> rows \<noteq> [] then Some (encodeExecutionCursor (last rows)) else None)\<rparr>)))))"

definition listTaskExecutionsForOwner ::
  "session \<Rightarrow> string \<Rightarrow> string \<Rightarrow> cursor_token \<Rightarrow> int \<Rightarrow> string \<Rightarrow> execution_page io" where
  "listTaskExecutionsForOwner s taskId ownerId cursor limit tenantId =
    await (getTaskSummaryForOwner s taskId ownerId tenantId) (\<lambda>_. listTaskExecutions s taskId cursor limit)"

record task_state_query =
  q_states :: "task_state list"
  q_idle_for :: int
  q_items_settled :: "bool option"
  q_owner_id :: string
  q_tenant_id :: string
  q_limit :: int

definition listTasksByState :: "session \<Rightarrow> task_state_query \<Rightarrow> task_summary list io" where
  "listTasksByState s q =
    guarded (q_states q = [] \<or> len (q_states q) > 8) (Range_error ''between 1 and 8 states are required'')
    (guarded (q_limit q \<le> 0 \<or> q_limit q > 500) (Range_error ''limit must be between 1 and 500'')
    (guarded (q_idle_for q < 0) (Range_error ''idleForMs must be a non-negative number'')
    (query (\<lambda>now d. map (\<lambda>t. mapSummary t None) (left_text (q_limit q)
      (sort_key (\<lambda>t. (t_updated_at t, t_id t)) (select_rows s task_table (\<lambda>t.
        t_state t \<in> set (q_states q) \<and> t_updated_at t \<le> now - q_idle_for q \<and>
        (case q_items_settled q of None \<Rightarrow> True | Some b \<Rightarrow> (t_items_settled_at t \<noteq> None) = b) \<and>
        (q_owner_id q = '''' \<or> t_owner_id t = Some (q_owner_id q)) \<and>
        (q_tenant_id q = '''' \<or> t_tenant_id t = q_tenant_id q)) (tasks d))))))))"

section \<open>Task commands\<close>

definition validateVersion :: "string \<Rightarrow> int \<Rightarrow> 'a io \<Rightarrow> 'a io" where
  "validateVersion label version = guarded (version \<le> 0) (Range_error (label @ '' must be a positive integer''))"

definition validateProgress :: "task_progress \<Rightarrow> 'a io \<Rightarrow> 'a io" where
  "validateProgress p m =
    guarded (p_completed p < 0) (Range_error ''task progress completed must be a non-negative integer'')
    (guarded (case p_total p of None \<Rightarrow> False | Some n \<Rightarrow> n < p_completed p)
      (Range_error ''task progress total must be at least completed'') m)"

definition createTask ::
  "session \<Rightarrow> string \<Rightarrow> string \<Rightarrow> string option \<Rightarrow> string option \<Rightarrow> int option \<Rightarrow> task_snapshot io" where
  "createTask s taskId ttype tenantId ownerId definitionVersion = (
    let version = coalesce definitionVersion 1; tenant = js_trim (coalesce tenantId '''') in
    guarded (taskId = '''' \<or> ttype = '''') (Type_error ''task id and type are required'')
    (guarded (version \<le> 0) (Range_error ''task definitionVersion must be a positive integer'')
    (await (execute (\<lambda>now. create_task s now taskId ttype (if tenant = '''' then ''default'' else tenant) ownerId version))
      (\<lambda>_. getTask s taskId))))"

definition transitionTask :: "session \<Rightarrow> string \<Rightarrow> int \<Rightarrow> task_state \<Rightarrow> task_snapshot io" where
  "transitionTask s taskId expectedVersion state = (
    let direct = await (execute (\<lambda>now. transition_task s now taskId expectedVersion (task_state_name state)))
      (\<lambda>_. getTask s taskId) in
    validateVersion ''expectedTaskVersion'' expectedVersion
    (if state = T_running then await (getTask s taskId) (\<lambda>current.
        if sn_state current = T_pending \<and> sn_entity_version current = expectedVersion
        then await (execute (\<lambda>now. transition_task s now taskId expectedVersion ''queued'')) (\<lambda>_.
          await (execute (\<lambda>now. transition_task s now taskId (expectedVersion + 1) (task_state_name state)))
            (\<lambda>_. getTask s taskId))
        else direct)
     else direct))"

definition reportTaskProgress :: "session \<Rightarrow> string \<Rightarrow> int \<Rightarrow> task_progress \<Rightarrow> task_snapshot io" where
  "reportTaskProgress s taskId expectedVersion p =
    validateVersion ''expectedTaskVersion'' expectedVersion (validateProgress p
    (await (execute (\<lambda>now. report_progress s now taskId expectedVersion (p_completed p) (p_total p) (p_message p)))
      (\<lambda>_. getTask s taskId)))"

definition requestTaskCancellation :: "session \<Rightarrow> string \<Rightarrow> int \<Rightarrow> task_snapshot io" where
  "requestTaskCancellation s taskId expectedVersion =
    validateVersion ''expectedTaskVersion'' expectedVersion
    (await (execute (\<lambda>now. request_cancellation s now taskId expectedVersion)) (\<lambda>_. getTask s taskId))"

definition requestTaskCancellationForOwner :: "session \<Rightarrow> string \<Rightarrow> string \<Rightarrow> int \<Rightarrow> string \<Rightarrow> task_snapshot io" where
  "requestTaskCancellationForOwner s taskId ownerId expectedVersion tenantId =
    await (getTaskForOwner s taskId ownerId tenantId) (\<lambda>_. requestTaskCancellation s taskId expectedVersion)"

definition resolveTaskCancellation :: "session \<Rightarrow> string \<Rightarrow> int \<Rightarrow> cancellation_status \<Rightarrow> string option \<Rightarrow> task_snapshot io" where
  "resolveTaskCancellation s taskId expectedVersion status reason =
    validateVersion ''expectedTaskVersion'' expectedVersion
    (await (execute (\<lambda>now. resolve_cancellation s now taskId expectedVersion (cancellation_status_name status) reason))
      (\<lambda>_. getTask s taskId))"

record task_result =
  rs_entity_version :: int
  rs_reference :: string
  rs_updated_at :: int

definition getTaskResult :: "session \<Rightarrow> string \<Rightarrow> task_result io" where
  "getTaskResult s taskId = await (getTask s taskId) (\<lambda>task.
    await (query (\<lambda>now d. select_task s taskId d)) (\<lambda>row. case row of
        None \<Rightarrow> throw (taskError ''RHINOQ_TASK_RESULT_NOT_FOUND'' taskId)
      | Some t \<Rightarrow> (case truthy (t_result_ref t) of
          None \<Rightarrow> throw (taskError ''RHINOQ_TASK_RESULT_NOT_FOUND'' taskId)
        | Some ref \<Rightarrow> return \<lparr>rs_entity_version = sn_entity_version task, rs_reference = ref, rs_updated_at = t_updated_at t\<rparr>)))"

definition getTaskResultForOwner :: "session \<Rightarrow> string \<Rightarrow> string \<Rightarrow> string \<Rightarrow> task_result io" where
  "getTaskResultForOwner s taskId ownerId tenantId =
    await (getTaskForOwner s taskId ownerId tenantId) (\<lambda>_. getTaskResult s taskId)"

definition attachTaskResult :: "session \<Rightarrow> string \<Rightarrow> int \<Rightarrow> string \<Rightarrow> task_result io" where
  "attachTaskResult s taskId expectedVersion reference =
    validateVersion ''expectedTaskVersion'' expectedVersion
    (guarded (blank_text reference) (Type_error ''task result reference is required'')
    (await (execute (\<lambda>now. attach_task_result s now taskId expectedVersion reference)) (\<lambda>_. getTaskResult s taskId)))"

definition syncTaskItemProgress :: "session \<Rightarrow> string \<Rightarrow> int io" where
  "syncTaskItemProgress s taskId = guarded (blank_text taskId) (Type_error ''task id is required'')
    (execute (\<lambda>now. sync_item_progress s now taskId))"

definition settleTaskItems :: "session \<Rightarrow> string \<Rightarrow> bool io" where
  "settleTaskItems s taskId = guarded (blank_text taskId) (Type_error ''task id is required'')
    (execute (\<lambda>now. settle_items s now taskId))"

section \<open>Execution commands\<close>

definition getTaskExecution :: "session \<Rightarrow> string \<Rightarrow> task_execution io" where
  "getTaskExecution s executionId = await (query (\<lambda>now d. select_execution s executionId d)) (\<lambda>row. case row of
      None \<Rightarrow> throw (taskError ''RHINOQ_EXECUTION_NOT_FOUND'' executionId)
    | Some e \<Rightarrow> return (mapExecution e))"

definition getTaskExecutionForOwner :: "session \<Rightarrow> string \<Rightarrow> string \<Rightarrow> string \<Rightarrow> task_execution io" where
  "getTaskExecutionForOwner s executionId ownerId tenantId =
    guarded (blank_text executionId \<or> blank_text ownerId \<or> blank_text tenantId)
      (Type_error ''execution, owner and tenant identity are required'')
    (await (query (\<lambda>now d. select_one s execution_table (\<lambda>e. e_id e = executionId \<and>
        select_one s task_table (\<lambda>t. t_id t = e_task_id e \<and> t_owner_id t = Some ownerId \<and> t_tenant_id t = tenantId)
          (tasks d) \<noteq> None) (executions d))) (\<lambda>row. case row of
      None \<Rightarrow> throw (taskError ''RHINOQ_EXECUTION_NOT_FOUND'' executionId)
    | Some e \<Rightarrow> return (mapExecution e)))"

definition lookupTaskExecution :: "session \<Rightarrow> string \<Rightarrow> string \<Rightarrow> string \<Rightarrow> task_execution io" where
  "lookupTaskExecution s runtime externalId runtimeScope =
    await (query (\<lambda>now d. select_one s execution_table (\<lambda>e. e_runtime e = runtime \<and>
        e_runtime_scope e = runtimeScope \<and> e_external_id e = Some externalId \<and> e_superseded_at e = None)
        (executions d))) (\<lambda>row. case row of
      None \<Rightarrow> throw (taskError ''RHINOQ_EXECUTION_NOT_FOUND'' externalId)
    | Some e \<Rightarrow> return (mapExecution e))"

definition createTaskExecution ::
  "session \<Rightarrow> string \<Rightarrow> string \<Rightarrow> string option \<Rightarrow> string \<Rightarrow> string option \<Rightarrow> string option \<Rightarrow> task_snapshot io" where
  "createTaskExecution s taskId eid itemKey runtime runtimeScope externalId =
    guarded (taskId = '''' \<or> eid = '''' \<or> runtime = '''') (Type_error ''task id, execution id and runtime are required'')
    (await (execute (\<lambda>now. create_execution s now eid taskId (Some (coalesce itemKey ''default'')) runtime
        (Some (coalesce runtimeScope '''')) externalId)) (\<lambda>_. getTask s taskId))"

definition createTaskExecutionAck ::
  "session \<Rightarrow> string \<Rightarrow> string \<Rightarrow> string option \<Rightarrow> string \<Rightarrow> string option \<Rightarrow> string option \<Rightarrow> int io" where
  "createTaskExecutionAck s taskId eid itemKey runtime runtimeScope externalId =
    guarded (blank_text taskId \<or> blank_text eid \<or> blank_text runtime) (Type_error ''task id, execution id and runtime are required'')
    (execute (\<lambda>now. create_execution s now eid taskId (Some (coalesce itemKey ''default'')) runtime
        (Some (coalesce runtimeScope '''')) externalId))"

text \<open>\<open>externalId\<close> is \<open>binding.externalId ?? binding.jobId\<close>.\<close>

definition bindTaskExecution :: "session \<Rightarrow> string \<Rightarrow> string \<Rightarrow> string option \<Rightarrow> string option \<Rightarrow> task_snapshot io" where
  "bindTaskExecution s executionId runtime runtimeScope externalId = await (getTaskExecution s executionId) (\<lambda>execution.
    case truthy externalId of
      None \<Rightarrow> throw (Type_error ''execution runtime and external id are required'')
    | Some ext \<Rightarrow> guarded (runtime = '''') (Type_error ''execution runtime and external id are required'')
        (await (execute (\<lambda>now. bind_execution s now executionId (te_version execution) runtime
            (Some (coalesce runtimeScope '''')) ext)) (\<lambda>_. getTask s (te_task_id execution))))"

definition bindTaskExecutionAck :: "session \<Rightarrow> string \<Rightarrow> string \<Rightarrow> string option \<Rightarrow> string option \<Rightarrow> int io" where
  "bindTaskExecutionAck s executionId runtime runtimeScope externalId = (case truthy externalId of
      None \<Rightarrow> throw (Type_error ''execution runtime and external id are required'')
    | Some ext \<Rightarrow> guarded (runtime = '''') (Type_error ''execution runtime and external id are required'')
        (await (getTaskExecution s executionId) (\<lambda>execution.
          execute (\<lambda>now. bind_execution s now executionId (te_version execution) runtime
            (Some (coalesce runtimeScope '''')) ext))))"

definition transitionTaskExecution :: "session \<Rightarrow> string \<Rightarrow> int \<Rightarrow> exec_state \<Rightarrow> string option \<Rightarrow> task_snapshot io" where
  "transitionTaskExecution s executionId expectedExecutionVersion state reason =
    validateVersion ''expectedExecutionVersion'' expectedExecutionVersion
    (await (getTaskExecution s executionId) (\<lambda>execution.
    await (execute (\<lambda>now. transition_execution s now executionId expectedExecutionVersion (exec_state_name state) reason))
      (\<lambda>_. getTask s (te_task_id execution))))"

definition transitionTaskExecutionAck :: "session \<Rightarrow> string \<Rightarrow> int \<Rightarrow> exec_state \<Rightarrow> string option \<Rightarrow> int io" where
  "transitionTaskExecutionAck s executionId expectedExecutionVersion state reason =
    validateVersion ''expectedExecutionVersion'' expectedExecutionVersion
    (execute (\<lambda>now. transition_execution s now executionId expectedExecutionVersion (exec_state_name state) reason))"

definition transitionTaskExecutionForOwner ::
  "session \<Rightarrow> string \<Rightarrow> string \<Rightarrow> string \<Rightarrow> int \<Rightarrow> exec_state \<Rightarrow> string option \<Rightarrow> task_snapshot io" where
  "transitionTaskExecutionForOwner s executionId ownerId tenantId expectedExecutionVersion state reason =
    validateVersion ''expectedExecutionVersion'' expectedExecutionVersion
    (guarded (blank_text executionId \<or> blank_text ownerId \<or> blank_text tenantId)
      (Type_error ''execution, owner and tenant identity are required'')
    (await (getTaskExecutionForOwner s executionId ownerId tenantId) (\<lambda>execution.
    await (execute (\<lambda>now. transition_execution_for_owner s now executionId tenantId ownerId expectedExecutionVersion
        (exec_state_name state) reason))
      (\<lambda>_. getTaskForOwner s (te_task_id execution) ownerId tenantId))))"

definition attachTaskExecutionResult :: "session \<Rightarrow> string \<Rightarrow> int \<Rightarrow> string \<Rightarrow> task_snapshot io" where
  "attachTaskExecutionResult s executionId expectedExecutionVersion reference =
    validateVersion ''expectedExecutionVersion'' expectedExecutionVersion
    (guarded (blank_text reference) (Type_error ''execution result reference is required'')
    (await (getTaskExecution s executionId) (\<lambda>execution.
    await (execute (\<lambda>now. attach_execution_result s now executionId expectedExecutionVersion reference))
      (\<lambda>_. getTask s (te_task_id execution)))))"

definition attachTaskExecutionResultAck :: "session \<Rightarrow> string \<Rightarrow> int \<Rightarrow> string \<Rightarrow> int io" where
  "attachTaskExecutionResultAck s executionId expectedExecutionVersion reference =
    validateVersion ''expectedExecutionVersion'' expectedExecutionVersion
    (guarded (blank_text reference) (Type_error ''execution result reference is required'')
    (execute (\<lambda>now. attach_execution_result s now executionId expectedExecutionVersion reference)))"

definition retryTaskExecution :: "session \<Rightarrow> string \<Rightarrow> int \<Rightarrow> string \<Rightarrow> task_snapshot io" where
  "retryTaskExecution s executionId expectedExecutionVersion nextExecutionId =
    await (getTaskExecution s executionId) (\<lambda>execution.
    await (execute (\<lambda>now. retry_execution s now executionId expectedExecutionVersion nextExecutionId))
      (\<lambda>_. getTask s (te_task_id execution)))"

record execution_result =
  xr_execution_id :: string
  xr_item_key :: string
  xr_attempt :: int
  xr_state :: exec_state
  xr_reference :: "string option"
  xr_failure_reason :: "string option"
  xr_updated_at :: int

definition mapExecutionResult :: "execution_row \<Rightarrow> execution_result" where
  "mapExecutionResult e = \<lparr>xr_execution_id = e_id e, xr_item_key = e_item_key e, xr_attempt = e_attempt e,
    xr_state = e_state e, xr_reference = truthy (e_result_ref e),
    xr_failure_reason = truthy (e_failure_reason e), xr_updated_at = e_updated_at e\<rparr>"

definition getTaskExecutionResults :: "session \<Rightarrow> string \<Rightarrow> (int \<times> execution_result list) io" where
  "getTaskExecutionResults s taskId = await (getTask s taskId) (\<lambda>task.
    query (\<lambda>now d. (sn_entity_version task, map mapExecutionResult (task_executions s taskId d))))"

definition getTaskExecutionResultsForOwner ::
  "session \<Rightarrow> string \<Rightarrow> string \<Rightarrow> string \<Rightarrow> (int \<times> execution_result list) io" where
  "getTaskExecutionResultsForOwner s taskId ownerId tenantId =
    await (getTaskForOwner s taskId ownerId tenantId) (\<lambda>_. getTaskExecutionResults s taskId)"

record execution_runtime_ref =
  rr_execution_id :: string
  rr_item_key :: string
  rr_attempt :: int
  rr_runtime :: string
  rr_runtime_scope :: "string option"
  rr_external_id :: "string option"
  rr_state :: exec_state

definition listTaskExecutionRuntimeRefs :: "session \<Rightarrow> string \<Rightarrow> (int \<times> execution_runtime_ref list) io" where
  "listTaskExecutionRuntimeRefs s taskId = await (getTask s taskId) (\<lambda>task.
    query (\<lambda>now d. (sn_entity_version task, map (\<lambda>e. \<lparr>rr_execution_id = e_id e, rr_item_key = e_item_key e,
      rr_attempt = e_attempt e, rr_runtime = e_runtime e, rr_runtime_scope = nullif (e_runtime_scope e) '''',
      rr_external_id = truthy (e_external_id e), rr_state = e_state e\<rparr>) (task_executions s taskId d))))"

section \<open>Application work in the transaction of a claim\<close>

text \<open>
  \<open>onceForItem\<close> runs the application's callback between the claim and the commit, on the same
  connection. The callback works on the application's own rows \<open>app\<close>; \<open>commit\<close> is the error the final
  \<open>COMMIT\<close> raises, if any. The answer is the callback's value when it was executed. What is not
  committed is rolled back, the claim and the application's rows alike.
\<close>

definition onceForItem ::
  "session \<Rightarrow> int \<Rightarrow> db_error option \<Rightarrow> string \<Rightarrow> string \<Rightarrow> ('x \<Rightarrow> client_error + 'a \<times> 'x) \<Rightarrow>
    db \<times> 'x \<Rightarrow> (client_error + 'a option) \<times> db \<times> 'x" where
  "onceForItem s now commit executionId effectKey operation st = (case st of (d, app) \<Rightarrow>
    if blank_text executionId \<or> blank_text effectKey
    then (Inl (Type_error ''executionId and effectKey are required''), d, app)
    else (case claim_item_effect s now executionId effectKey d of
        Inl e \<Rightarrow> (Inl (mapDatabaseError e), d, app)
      | Inr (claimed, d') \<Rightarrow>
          if \<not> claimed then (case commit of
              Some e \<Rightarrow> (Inl (Js_error (case e of Rhinoq m _ \<Rightarrow> m | Sql_state c \<Rightarrow> c)), d, app)
            | None \<Rightarrow> (Inr None, d', app))
          else (case operation app of
              Inl e \<Rightarrow> (Inl e, d, app)
            | Inr (v, app') \<Rightarrow> (case commit of
                Some e \<Rightarrow> (Inl (mapDatabaseError e), d, app)
              | None \<Rightarrow> (Inr (Some v), d', app')))))"

section \<open>Every method is a run\<close>

lemma runs_prod [client_runs]: "(\<And>x y. runs (f x y)) \<Longrightarrow> runs (case v of (x, y) \<Rightarrow> f x y)"
  by (cases v) simp

lemma runs_sum [client_runs]:
  "(\<And>x. runs (f x)) \<Longrightarrow> (\<And>y. runs (g y)) \<Longrightarrow> runs (case v of Inl x \<Rightarrow> f x | Inr y \<Rightarrow> g y)"
  by (cases v) simp_all

lemma runs_validate [client_runs]:
  "runs m \<Longrightarrow> runs (validateVersion label version m)" "runs m \<Longrightarrow> runs (validateProgress p m)"
  by (simp_all add: validateVersion_def validateProgress_def runs_guarded)

lemma serve_calls:
  "serve (s, now, Task_call (Create_task a b c e f)) = committed (create_task s now a b c e f)"
  "serve (s, now, Task_call (Transition_task a1 b1 c1)) = committed (transition_task s now a1 b1 c1)"
  "serve (s, now, Task_call (Report_progress a b1 b2 e1 e)) = committed (report_progress s now a b1 b2 e1 e)"
  "serve (s, now, Task_call (Request_cancellation a b1)) = committed (request_cancellation s now a b1)"
  "serve (s, now, Task_call (Resolve_cancellation a b1 c e)) = committed (resolve_cancellation s now a b1 c e)"
  "serve (s, now, Task_call (Attach_task_result a b1 c)) = committed (attach_task_result s now a b1 c)"
  "serve (s, now, Task_call (Settle_items a)) = committed (settle_items s now a)"
  "serve (s, now, Task_call (Sync_item_progress a)) = committed (sync_item_progress s now a)"
  "serve (s, now, Execution_call (Create_execution a b e c e2 e3)) = committed (create_execution s now a b e c e2 e3)"
  "serve (s, now, Execution_call (Bind_execution a b1 b e c)) = committed (bind_execution s now a b1 b e c)"
  "serve (s, now, Execution_call (Transition_execution a b1 c e)) = committed (transition_execution s now a b1 c e)"
  "serve (s, now, Execution_call (Transition_execution_for_owner a b c b1 c2 e)) =
    committed (transition_execution_for_owner s now a b c b1 c2 e)"
  "serve (s, now, Execution_call (Attach_execution_result a b1 c)) = committed (attach_execution_result s now a b1 c)"
  "serve (s, now, Execution_call (Retry_execution a b1 c)) = committed (retry_execution s now a b1 c)"
  by (simp_all add: serve_def fun_eq_iff)

lemmas runs_task_statements [client_runs] =
  serve_calls [THEN sym, THEN fun_cong, THEN runs_call]

lemma runs_reads [client_runs]:
  "runs (readTask s a o1 o2)" "runs (readTaskSummary s a o1 o2)" "runs (readTaskIfNewer s a v o1 o2)"
  unfolding readTask_def readTaskSummary_def readTaskIfNewer_def
  by (auto intro!: client_runs split: option.split)

lemma runs_task_methods [client_runs]:
  "runs (createTask s a b o1 o2 o3)" "runs (transitionTask s a v st)" "runs (reportTaskProgress s a v p)"
  "runs (requestTaskCancellation s a v)" "runs (resolveTaskCancellation s a v cs o1)"
  "runs (attachTaskResult s a v b)" "runs (getTask s a)" "runs (getTaskResult s a)"
  "runs (syncTaskItemProgress s a)" "runs (settleTaskItems s a)"
  unfolding createTask_def transitionTask_def reportTaskProgress_def requestTaskCancellation_def
    resolveTaskCancellation_def attachTaskResult_def getTaskResult_def getTask_def Let_def
    syncTaskItemProgress_def settleTaskItems_def
  by (intro client_runs)+

lemma runs_execution_methods [client_runs]:
  "runs (getTaskExecution s a)" "runs (lookupTaskExecution s a b c)"
  "runs (createTaskExecution s a b o1 c o2 o3)" "runs (bindTaskExecution s a b o1 o2)"
  "runs (transitionTaskExecution s a v est o1)" "runs (attachTaskExecutionResult s a v b)"
  "runs (retryTaskExecution s a v b)"
  unfolding getTaskExecution_def lookupTaskExecution_def createTaskExecution_def bindTaskExecution_def
    transitionTaskExecution_def attachTaskExecutionResult_def retryTaskExecution_def
  by (intro client_runs)+

end
