(* ===== verification/Projector.thy ===== *)
theory Projector
  imports Task_Client
begin

text \<open>
  \<open>RuntimeTaskProjector\<close> (\<open>runtime/projector.ts\<close>): it turns the events of a queue runtime into
  commands of the Task client, and repeats a command that lost a race. The client is
  \<open>PostgresTaskClient\<close> (theory Task_Client). \<open>onUnbound\<close> is the application's hook for an event whose
  runtime reference is not bound; the mutation hook only observes and is left out. Two loops of
  the code have no bound of their own, the nested repair of an invalid transition and the opening
  of missed attempts: they carry fuel, and running out of it is an error of its own.
\<close>

section \<open>Runtime events\<close>

record runtime_ref =
  ref_runtime :: string
  ref_scope :: string
  ref_external_id :: string

datatype attempt_outcome = Outcome_failed | Outcome_cancelled | Outcome_unknown

datatype event_kind =
    Accepted
  | Started
  | Progressed task_progress
  | Attempt_ended attempt_outcome "string option"
  | Succeeded "string option"
  | Failed bool "string option"
  | Cancelled
  | Uncertain string

text \<open>\<open>ev_occurred_at\<close> is the text of the event's time and what it parses to, none when it does not.\<close>

record runtime_event =
  ev_ref :: runtime_ref
  ev_occurred_at :: "string \<times> int option"
  ev_attempt :: "int option"
  ev_kind :: event_kind

definition requireText :: "string \<Rightarrow> string \<Rightarrow> 'a io \<Rightarrow> 'a io" where
  "requireText x label = guarded (blank_text x) (Type_error (label @ '' must be a non-empty string''))"

definition validateRuntimeRef :: "runtime_ref \<Rightarrow> 'a io \<Rightarrow> 'a io" where
  "validateRuntimeRef r m = requireText (ref_runtime r) ''ref.runtime''
    (requireText (ref_scope r) ''ref.scope'' (requireText (ref_external_id r) ''ref.externalId'' m))"

definition validateRuntimeEvent :: "runtime_event \<Rightarrow> 'a io \<Rightarrow> 'a io" where
  "validateRuntimeEvent ev m = validateRuntimeRef (ev_ref ev)
    (requireText (fst (ev_occurred_at ev)) ''event.occurredAt''
    (guarded (snd (ev_occurred_at ev) = None) (Type_error ''event.occurredAt must be an ISO-8601 timestamp'')
    (guarded (case ev_attempt ev of None \<Rightarrow> False | Some n \<Rightarrow> n < 1) (Range_error ''event.attempt must be a positive integer'')
    (case ev_kind ev of
        Progressed p \<Rightarrow> guarded (p_completed p < 0) (Range_error ''progress.completed must be a non-negative integer'')
          (guarded (case p_total p of None \<Rightarrow> False | Some n \<Rightarrow> n < p_completed p)
            (Range_error ''progress.total must be an integer greater than or equal to completed'') m)
      | Uncertain reason \<Rightarrow> requireText reason ''uncertain event.reason'' m
      | _ \<Rightarrow> m))))"

section \<open>Convergence\<close>

fun converge_loop :: "nat \<Rightarrow> client_error \<Rightarrow> 'a io \<Rightarrow> 'a io" where
  "converge_loop 0 conflict operation = throw conflict"
| "converge_loop (Suc n) conflict operation = try_catch operation (\<lambda>e.
    if hasCode e ''RHINOQ_VERSION_CONFLICT'' then converge_loop n e operation else throw e)"

definition MAX_CONVERGENCE_ATTEMPTS :: nat where
  "MAX_CONVERGENCE_ATTEMPTS = 10"

definition converge :: "'a io \<Rightarrow> 'a io" where
  "converge operation = converge_loop MAX_CONVERGENCE_ATTEMPTS (Js_error ''undefined'') operation"

definition TERMINAL_EXECUTIONS :: "exec_state list" where
  "TERMINAL_EXECUTIONS = [E_succeeded, E_failed, E_stalled, E_cancelled]"

definition out_of_fuel :: "'a io" where
  "out_of_fuel = throw (Js_error ''out of fuel'')"

fun ensureExecution :: "nat \<Rightarrow> session \<Rightarrow> string \<Rightarrow> exec_state \<Rightarrow> string option \<Rightarrow> unit io" where
  "ensureExecution 0 s executionId target reason = out_of_fuel"
| "ensureExecution (Suc n) s executionId target reason = converge
    (await (getTaskExecution s executionId) (\<lambda>execution.
      if te_state execution = target \<or> te_state execution \<in> set TERMINAL_EXECUTIONS then return ()
      else try_catch
        (await (transitionTaskExecution s (te_id execution) (te_version execution) target reason) (\<lambda>_. return ()))
        (\<lambda>e. if te_state execution \<noteq> E_running \<and> target \<noteq> E_running \<and> target \<noteq> E_dispatched \<and>
              hasCode e ''RHINOQ_INVALID_EXECUTION_TRANSITION''
            then await (ensureExecution n s executionId E_running None) (\<lambda>_.
              ensureExecution n s executionId target reason)
            else throw e)))"

definition ensureTask :: "session \<Rightarrow> string \<Rightarrow> task_state \<Rightarrow> task_snapshot io" where
  "ensureTask s taskId target = converge
    (await (getTask s taskId) (\<lambda>task.
      if sn_state task = target \<or> sn_state task \<in> {T_succeeded, T_failed, T_cancelled} then return task
      else
        await (if sn_state task = T_pending then transitionTask s (sn_id task) (sn_entity_version task) T_queued
          else return task) (\<lambda>task.
        if target = T_queued then return task
        else
          await (if sn_state task = T_queued then transitionTask s (sn_id task) (sn_entity_version task) T_running
            else return task) (\<lambda>task.
          if target = T_running then return task
          else if target = T_cancelled \<and> sn_state task \<noteq> T_cancel_requested then return task
          else if sn_state task \<in> {T_running, T_uncertain, T_cancel_requested}
          then transitionTask s (sn_id task) (sn_entity_version task) target
          else return task))))"

definition projector_attachExecutionResult :: "session \<Rightarrow> string \<Rightarrow> string \<Rightarrow> task_snapshot io" where
  "projector_attachExecutionResult s executionId reference = converge
    (await (getTaskExecution s executionId) (\<lambda>execution.
      attachTaskExecutionResult s (te_id execution) (te_version execution) reference))"

definition projector_attachTaskResult :: "session \<Rightarrow> string \<Rightarrow> string \<Rightarrow> task_snapshot io" where
  "projector_attachTaskResult s taskId reference = converge
    (await (getTask s taskId) (\<lambda>task.
      if sn_has_result task then return task
      else await (attachTaskResult s (sn_id task) (sn_entity_version task) reference) (\<lambda>_. getTask s (sn_id task))))"

definition synchronizeSuccessfulProgress :: "session \<Rightarrow> string \<Rightarrow> task_snapshot io" where
  "synchronizeSuccessfulProgress s taskId = converge
    (await (getTask s taskId) (\<lambda>task.
      if sn_state task \<noteq> T_running \<and> sn_state task \<noteq> T_cancel_requested then return task
      else
        let p = sn_progress task; total = coalesce (p_total p) (max 1 (p_completed p)) in
        if p_completed p \<ge> total then return task
        else reportTaskProgress s (sn_id task) (sn_entity_version task) (p\<lparr>p_completed := total, p_total := Some total\<rparr>)))"

section \<open>Attempts\<close>

definition find_execution :: "session \<Rightarrow> runtime_ref \<Rightarrow> task_execution option io" where
  "find_execution s r = try_catch
    (await (lookupTaskExecution s (ref_runtime r) (ref_external_id r) (ref_scope r)) (\<lambda>e. return (Some e)))
    (\<lambda>e. if hasCode e ''RHINOQ_EXECUTION_NOT_FOUND'' then return None else throw e)"

definition isConvergenceError :: "client_error \<Rightarrow> bool" where
  "isConvergenceError e \<longleftrightarrow> hasCode e ''RHINOQ_VERSION_CONFLICT'' \<or> hasCode e ''RHINOQ_EXECUTION_SUPERSEDED'' \<or>
    hasCode e ''RHINOQ_EXECUTION_ALREADY_EXISTS''"

fun openAttempts :: "nat \<Rightarrow> session \<Rightarrow> task_execution \<Rightarrow> int \<Rightarrow> task_execution io" where
  "openAttempts 0 s current observedAttempt = out_of_fuel"
| "openAttempts (Suc n) s current observedAttempt = (
    if te_attempt current \<ge> observedAttempt then return current
    else await (if te_state current \<in> set TERMINAL_EXECUTIONS then return ()
        else ensureExecution n s (te_id current) E_stalled None) (\<lambda>_.
      case te_external_id current of
        None \<Rightarrow> return current
      | Some externalId \<Rightarrow>
          await (try_catch
            (await (retryTaskExecution s (te_id current) (te_version current)
              (te_id current @ ''#'' @ int_text (te_attempt current + 1))) (\<lambda>_. return ()))
            (\<lambda>e. if isConvergenceError e then return () else throw e)) (\<lambda>_.
          await (find_execution s \<lparr>ref_runtime = te_runtime current, ref_scope = coalesce (te_runtime_scope current) '''',
              ref_external_id = externalId\<rparr>) (\<lambda>replacement. case replacement of
            None \<Rightarrow> return current
          | Some r \<Rightarrow> if te_id r = te_id current then return current else openAttempts n s r observedAttempt))))"

section \<open>Projection\<close>

definition activate :: "nat \<Rightarrow> session \<Rightarrow> task_execution \<Rightarrow> task_snapshot io" where
  "activate n s execution = await (ensureExecution n s (te_id execution) E_running None) (\<lambda>_.
    ensureTask s (te_task_id execution) T_running)"

text \<open>The \<open>progressed\<close> case.\<close>

definition project_progress :: "nat \<Rightarrow> session \<Rightarrow> task_execution \<Rightarrow> task_progress \<Rightarrow> unit io" where
  "project_progress n s execution p = await (activate n s execution) (\<lambda>task.
    if sn_state task \<noteq> T_running \<and> sn_state task \<noteq> T_cancel_requested then return ()
    else if sn_progress task = p then return ()
    else await (converge (await (getTask s (sn_id task)) (\<lambda>current.
        if sn_state current \<noteq> T_running \<and> sn_state current \<noteq> T_cancel_requested then return current
        else if sn_progress current = p then return current
        else reportTaskProgress s (sn_id current) (sn_entity_version current) p))) (\<lambda>_. return ()))"

datatype terminal_projection = Single_execution | Execution_only

definition project_kind :: "nat \<Rightarrow> session \<Rightarrow> terminal_projection \<Rightarrow> task_execution \<Rightarrow> event_kind \<Rightarrow> unit io" where
  "project_kind n s mode execution kind = (
    let eid = te_id execution; tid = te_task_id execution in
    case kind of
      Accepted \<Rightarrow> await (ensureExecution n s eid E_dispatched None) (\<lambda>_.
        await (ensureTask s tid T_queued) (\<lambda>_. return ()))
    | Started \<Rightarrow> await (activate n s execution) (\<lambda>_. return ())
    | Progressed p \<Rightarrow> project_progress n s execution p
    | Attempt_ended out reason \<Rightarrow>
        await (ensureExecution n s eid (case out of Outcome_cancelled \<Rightarrow> E_cancelled | Outcome_failed \<Rightarrow> E_failed
            | Outcome_unknown \<Rightarrow> E_stalled) reason) (\<lambda>_.
        await (ensureTask s tid (if out = Outcome_unknown then T_uncertain else T_running)) (\<lambda>_. return ()))
    | Succeeded resultRef \<Rightarrow>
        await (ensureExecution n s eid E_succeeded None) (\<lambda>_.
        await (ensureTask s tid T_running) (\<lambda>_.
        await (case truthy resultRef of None \<Rightarrow> return ()
          | Some ref \<Rightarrow> await (projector_attachExecutionResult s eid ref) (\<lambda>_. return ())) (\<lambda>_.
        if mode = Single_execution then
          await (synchronizeSuccessfulProgress s tid) (\<lambda>_.
          await (ensureTask s tid T_succeeded) (\<lambda>_.
          case truthy resultRef of None \<Rightarrow> return ()
          | Some ref \<Rightarrow> await (projector_attachTaskResult s tid ref) (\<lambda>_. return ())))
        else return ())))
    | Failed terminal reason \<Rightarrow>
        await (ensureExecution n s eid E_failed reason) (\<lambda>_.
        await (ensureTask s tid T_running) (\<lambda>_.
        if terminal \<and> mode = Single_execution then await (ensureTask s tid T_failed) (\<lambda>_. return ())
        else return ()))
    | Cancelled \<Rightarrow>
        await (ensureExecution n s eid E_cancelled None) (\<lambda>_.
        await (getTask s tid) (\<lambda>task.
        if mode = Single_execution \<and> sn_state task = T_cancel_requested
        then await (ensureTask s (sn_id task) T_cancelled) (\<lambda>_. return ()) else return ()))
    | Uncertain reason \<Rightarrow>
        await (ensureExecution n s eid E_stalled (Some reason)) (\<lambda>_.
        await (ensureTask s tid T_uncertain) (\<lambda>_. return ())))"

definition projectOne ::
  "nat \<Rightarrow> session \<Rightarrow> terminal_projection \<Rightarrow> (runtime_event \<Rightarrow> unit io) \<Rightarrow> runtime_event \<Rightarrow> unit io" where
  "projectOne n s mode onUnbound ev = await (find_execution s (ev_ref ev)) (\<lambda>found.
    await (case found of
        Some execution \<Rightarrow> return (Some execution)
      | None \<Rightarrow> await (onUnbound ev) (\<lambda>_. find_execution s (ev_ref ev))) (\<lambda>found. case found of
        None \<Rightarrow> return ()
      | Some execution \<Rightarrow> await (case ev_attempt ev of
            None \<Rightarrow> return execution
          | Some observed \<Rightarrow> openAttempts n s execution observed) (\<lambda>execution.
          project_kind n s mode execution (ev_kind ev))))"

text \<open>
  \<open>project\<close> for events of one runtime reference that arrive while earlier ones are still pending.
  An event that is not well formed is refused at once. Any other is chained to its predecessor with
  \<open>then\<close>, which passes a rejection on without running the callback. \<open>prev\<close> is how the
  predecessor settled.
\<close>

fun project ::
  "nat \<Rightarrow> session \<Rightarrow> terminal_projection \<Rightarrow> (runtime_event \<Rightarrow> unit io) \<Rightarrow> client_error + unit \<Rightarrow> runtime_event list \<Rightarrow>
    world \<Rightarrow> (client_error + unit) list \<times> world" where
  "project n s mode onUnbound prev [] w = ([], w)"
| "project n s mode onUnbound prev (ev # evs) w = (case validateRuntimeEvent ev (return ()) w of
      (Inl e, _) \<Rightarrow> (let (rs, w2) = project n s mode onUnbound prev evs w in (Inl e # rs, w2))
    | (Inr _, _) \<Rightarrow> (
        let (r, w1) = (case prev of Inl e \<Rightarrow> (Inl e, w) | Inr _ \<Rightarrow> projectOne n s mode onUnbound ev w);
          (rs, w2) = project n s mode onUnbound r evs w1 in (r # rs, w2)))"

end
