(* ===== verification/Quiet_Client.thy ===== *)
theory Quiet_Client
  imports Projector
begin

text \<open>
  What the Task and Execution methods do while no other client acts: the totality of their
  statements on the row they have just read, and the row they leave behind. The lemmas carry the
  proofs about the Task handle and the projector.
\<close>

section \<open>Statements that succeed\<close>

lemma update_execution_total:
  assumes core: "core_ok d" and e: "select_execution s eid d = Some e" and chk: "execution_check (f e)"
    and keep: "\<And>x. e_id (f x) = e_id x" "\<And>x. e_task_id (f x) = e_task_id x" "\<And>x. e_item_key (f x) = e_item_key x"
      "\<And>x. e_attempt (f x) = e_attempt x" "\<And>x. e_runtime (f x) = e_runtime x"
      "\<And>x. e_runtime_scope (f x) = e_runtime_scope x" "\<And>x. e_external_id (f x) = e_external_id x"
      "\<And>x. e_superseded_at (f x) = e_superseded_at x"
  shows "\<exists>d'. update_execution s now eid f d = Inr d'"
proof -
  note E = select_executionD [OF e] and ok = wfD [OF core]
  let ?q = "\<lambda>x. visible s (e_tenant_id x) \<and> e_id x = eid"
  have "x = e" if "x \<in> set (executions d)" "e_id x = eid" for x
    using execution_key.key_inj [OF ok(2) that(1) E(1)] that(2) E(3) by simp
  then have "list_all (\<lambda>x. ?q x \<longrightarrow> execution_check (f x)) (executions d)" using chk by (auto simp: list_all_iff)
  moreover have "unique_by execution_conflict (upd_where ?q f (executions d))"
    by (rule unique_by_upd_where)
      (use ok(2) keep in \<open>auto simp: table_ok_def tables execution_conflict_def split: if_splits\<close>)
  ultimately obtain rows where rows: "update_rows s execution_table (\<lambda>x. e_id x = eid) f (executions d) = Inr rows"
    by (simp add: update_rows_def tables)
  let ?own = "\<lambda>t. filter (\<lambda>(b, a). e_task_id a = t_id t) (filter (\<lambda>(b, a). e_state b \<noteq> e_state a) (zip (executions d) rows))"
  let ?p = "\<lambda>t. t_id t \<in> (\<lambda>(b, a). e_task_id a) ` set (filter (\<lambda>(b, a). e_state b \<noteq> e_state a) (zip (executions d) rows))"
  let ?g = "\<lambda>t. touch_task now (t\<lparr>t_counts := add_state_counts (add_state_counts (t_counts t) (counts_of (map snd (?own t))))
    (neg_counts (counts_of (map fst (?own t))))\<rparr>)"
  have "task_check (?g t)" if "t \<in> set (tasks d)" for t
    using ok(1) that by (auto simp: table_ok_def list_all_iff tables task_check_def touch_task_def split: option.splits)
  then have "list_all (\<lambda>t. visible s (t_tenant_id t) \<and> ?p t \<longrightarrow> task_check (?g t)) (tasks d)"
    by (auto simp: list_all_iff)
  moreover have "unique_by (\<lambda>t u. t_id t = t_id u) (upd_where (\<lambda>t. visible s (t_tenant_id t) \<and> ?p t) ?g (tasks d))"
    by (rule unique_by_upd_where) (use ok(1) in \<open>auto simp: table_ok_def tables touch_task_def split: if_splits\<close>)
  ultimately show ?thesis
    unfolding update_execution_def rows
    by (simp add: execution_counts_updated_def update_tasks_def update_rows_def tables Let_def)
qed

lemma select_execution_iff:
  assumes "core_ok d" and "e \<in> set (executions d)" and "visible s (e_tenant_id e)"
  shows "select_execution s (e_id e) d = Some e"
  using execution_key.select_key [OF wfD(2) [OF assms(1)] assms(2)] assms(3) by (simp add: select_execution_def)

section \<open>What a client sees\<close>

definition quiet :: "session \<Rightarrow> world \<Rightarrow> bool" where
  "quiet s w \<longleftrightarrow> at_plan w = [] \<and> full_inv (at_db w)"

definition sees_task :: "session \<Rightarrow> world \<Rightarrow> task_row \<Rightarrow> bool" where
  "sees_task s w t \<longleftrightarrow> quiet s w \<and> select_task s (t_id t) (at_db w) = Some t \<and> \<not> blank_text (t_id t)"

definition sees_execution :: "session \<Rightarrow> world \<Rightarrow> execution_row \<Rightarrow> bool" where
  "sees_execution s w e \<longleftrightarrow> quiet s w \<and> select_execution s (e_id e) (at_db w) = Some e"

definition shows_task :: "task_row \<Rightarrow> task_snapshot \<Rightarrow> bool" where
  "shows_task t sn \<longleftrightarrow> (\<exists>es. sn = mapSnapshot t es)"

lemma shows_taskD [simp]:
  assumes "shows_task t sn"
  shows "sn_id sn = t_id t" "sn_entity_version sn = t_version t" "sn_state sn = t_state t"
    "sn_has_result sn = (t_result_ref t \<noteq> None)"
    "sn_progress sn = \<lparr>p_completed = t_progress_completed t, p_total = t_progress_total t, p_message = truthy (t_progress_message t)\<rparr>"
  using assms by (auto simp: shows_task_def mapSnapshot_def)

lemma sees_taskD:
  assumes "sees_task s w t"
  shows "at_plan w = []" "full_inv (at_db w)" "core_ok (at_db w)" "select_task s (t_id t) (at_db w) = Some t"
    "t \<in> set (tasks (at_db w))" "visible s (t_tenant_id t)" "\<not> blank_text (t_id t)" "task_check t" "t_version t > 0"
proof -
  show 1: "at_plan w = []" "full_inv (at_db w)" "core_ok (at_db w)" "select_task s (t_id t) (at_db w) = Some t"
      "\<not> blank_text (t_id t)"
    using assms full_invD(2) by (simp_all add: sees_task_def quiet_def)
  show 2: "t \<in> set (tasks (at_db w))" "visible s (t_tenant_id t)" using select_taskD [OF 1(4)] by simp_all
  show "task_check t" using wfD(1) [OF 1(3)] 2(1) by (auto simp: table_ok_def list_all_iff tables)
  then show "t_version t > 0" by (simp add: task_check_def)
qed

lemma sees_executionD:
  assumes "sees_execution s w e"
  shows "at_plan w = []" "full_inv (at_db w)" "core_ok (at_db w)" "select_execution s (e_id e) (at_db w) = Some e"
    "e \<in> set (executions (at_db w))" "visible s (e_tenant_id e)" "execution_check e" "e_version e > 0"
proof -
  show 1: "at_plan w = []" "full_inv (at_db w)" "core_ok (at_db w)" "select_execution s (e_id e) (at_db w) = Some e"
    using assms full_invD(2) by (simp_all add: sees_execution_def quiet_def)
  show 2: "e \<in> set (executions (at_db w))" "visible s (e_tenant_id e)" using select_executionD [OF 1(4)] by simp_all
  show "execution_check e" using wfD(2) [OF 1(3)] 2(1) by (auto simp: table_ok_def list_all_iff tables)
  then show "e_version e > 0" by (simp add: execution_check_def)
qed

lemma quiet_commit:
  assumes "quiet s w" and "c (at_db w) = Inr (x, d')" and "committed c = serve r"
  shows "quiet s (w\<lparr>at_db := d'\<rparr>)"
proof -
  have "d' = serve r (at_db w)" using assms(2,3) by (metis committed_def old.sum.simps(6) case_prod_conv)
  then show ?thesis using assms(1) sys.ok_run [of "at_db w" "[r]"] by (simp add: quiet_def)
qed

lemma getTask_quiet:
  assumes "sees_task s w t"
  shows "\<exists>sn. getTask s (t_id t) w = (Inr sn, w) \<and> shows_task t sn"
proof -
  note S = sees_taskD [OF assms]
  have "select_one s task_table (\<lambda>u. t_id u = t_id t \<and> task_scope None None u) (tasks (at_db w)) = Some t"
    using S(4) by (simp add: task_scope_def select_task_def)
  then have "getTask s (t_id t) w =
      (Inr (mapSnapshot t (map mapExecutionSummaryRow (task_executions s (t_id t) (at_db w)))), w)"
    using S(7) by (simp add: getTask_def readTask_def guarded_def quiet_query [OF S(1)] SNAPSHOT_SQL_def return_def await_def)
  then show ?thesis unfolding shows_task_def by blast
qed

lemma getTaskExecution_quiet:
  assumes "sees_execution s w e"
  shows "getTaskExecution s (e_id e) w = (Inr (mapExecution e), w)"
  using sees_executionD(1,4) [OF assms] by (simp add: getTaskExecution_def quiet_query await_def return_def)

section \<open>Task writes\<close>

text \<open>Another Task row, the same attempts.\<close>

definition stepped :: "session \<Rightarrow> world \<Rightarrow> world \<Rightarrow> task_row \<Rightarrow> bool" where
  "stepped s w w' t' \<longleftrightarrow> sees_task s w' t' \<and> at_now w' = at_now w \<and> executions (at_db w') = executions (at_db w)"

lemma stepped_refl: "sees_task s w t \<Longrightarrow> stepped s w w t"
  by (simp add: stepped_def)

lemma stepped_trans: "stepped s w w1 t1 \<Longrightarrow> stepped s w1 w2 t2 \<Longrightarrow> stepped s w w2 t2"
  by (simp add: stepped_def)

lemma task_write_quiet:
  assumes t: "sees_task s w t" and c: "c (at_now w) (at_db w) = update_returning s t f (at_db w)"
    and call: "committed (c (at_now w)) = serve r" and chk: "task_check (f t)"
    and keep: "\<And>u. t_id (f u) = t_id u" "\<And>u. t_tenant_id (f u) = t_tenant_id u"
  shows "\<exists>w'. execute c w = (Inr (t_version (f t)), w') \<and> stepped s w w' (f t)"
proof -
  note S = sees_taskD [OF t]
  obtain d' where d': "update_task s (t_id t) f (at_db w) = Inr d'"
      "tasks d' = upd_where (\<lambda>u. t_id u = t_id t) f (tasks (at_db w))" "executions d' = executions (at_db w)" "rest d' = rest (at_db w)"
    by (rule update_task_total [OF wfD(1) [OF S(3)] S(5,6) chk keep(1)])
  have v: "c (at_now w) (at_db w) = Inr (t_version (f t), d')" using c d'(1) by (simp add: update_returning_def)
  have q: "quiet s (w\<lparr>at_db := d'\<rparr>)"
    by (rule quiet_commit [of s w "c (at_now w)", OF _ v call]) (use t in \<open>simp add: sees_task_def\<close>)
  have "core_ok d'" using q full_invD(2) [of d'] by (simp add: quiet_def)
  then have "select_task s (t_id t) d' = Some (f t)"
    using select_task_upd_where [OF wfD(1) d'(2) S(5,6)] keep by simp
  then show ?thesis
    using quiet_execute(1) [OF S(1), of c, OF v] q d'(3) S(7) keep
    by (intro exI [of _ "w\<lparr>at_db := d'\<rparr>"]) (simp add: stepped_def sees_task_def)
qed

lemma then_getTask:
  assumes "m w = (Inr x, w')" and "sees_task s w' t'" and "tid = t_id t'"
  shows "\<exists>sn. await m (\<lambda>_. getTask s tid) w = (Inr sn, w') \<and> shows_task t' sn"
  using getTask_quiet [OF assms(2)] assms(1,3) by (simp add: await_def)

lemma transitioned_check: "task_check t \<Longrightarrow> task_check (transitioned now g t)"
  by (cases "t_progress_total t") (simp_all add: task_check_def transitioned_def)

lemma transitioned_simps [simp]:
  "t_id (transitioned now g t) = t_id t" "t_tenant_id (transitioned now g t) = t_tenant_id t"
  "t_version (transitioned now g t) = t_version t + 1" "t_state (transitioned now g t) = g"
  "t_result_ref (transitioned now g t) = t_result_ref t"
  "t_progress_completed (transitioned now g t) = t_progress_completed t"
  "t_progress_total (transitioned now g t) = t_progress_total t"
  "t_progress_message (transitioned now g t) = t_progress_message t"
  by (simp_all add: transitioned_def)

lemma transition_statement_quiet:
  assumes t: "sees_task s w t" and ok: "task_transition_allowed (t_state t) g"
  shows "\<exists>w'. execute (\<lambda>now. transition_task s now (t_id t) (t_version t) (task_state_name g)) w = (Inr (t_version t + 1), w') \<and>
    stepped s w w' (transitioned (at_now w) g t)"
proof -
  note S = sees_taskD [OF t]
  have "\<exists>w'. execute (\<lambda>now. transition_task s now (t_id t) (t_version t) (task_state_name g)) w =
      (Inr (t_version (transitioned (at_now w) g t)), w') \<and> stepped s w w' (transitioned (at_now w) g t)"
  proof (rule task_write_quiet [OF t])
    show "transition_task s (at_now w) (t_id t) (t_version t) (task_state_name g) (at_db w) =
        update_returning s t (transitioned (at_now w) g) (at_db w)"
      using S(4) ok by (simp add: transition_task_def)
    show "committed (transition_task s (at_now w) (t_id t) (t_version t) (task_state_name g)) =
        serve (s, at_now w, Task_call (Transition_task (t_id t) (t_version t) (task_state_name g)))"
      by (simp add: serve_calls)
  qed (simp_all add: transitioned_check [OF S(8)])
  then show ?thesis by simp
qed

lemma transitionTask_quiet:
  assumes t: "sees_task s w t" and ok: "task_transition_allowed (t_state t) g"
  shows "\<exists>sn w'. transitionTask s (t_id t) (t_version t) g w = (Inr sn, w') \<and>
    stepped s w w' (transitioned (at_now w) g t) \<and> shows_task (transitioned (at_now w) g t) sn"
proof -
  note S = sees_taskD [OF t]
  let ?m = "execute (\<lambda>now. transition_task s now (t_id t) (t_version t) (task_state_name g))"
  obtain w' where w': "?m w = (Inr (t_version t + 1), w')" "stepped s w w' (transitioned (at_now w) g t)"
    using transition_statement_quiet [OF assms] by blast
  obtain sn where sn: "await ?m (\<lambda>_. getTask s (t_id t)) w = (Inr sn, w')" "shows_task (transitioned (at_now w) g t) sn"
    using then_getTask [of ?m w "t_version t + 1" w' s "transitioned (at_now w) g t" "t_id t", OF w'(1)] w'(2)
    unfolding stepped_def by auto
  obtain sn0 where sn0: "getTask s (t_id t) w = (Inr sn0, w)" "shows_task t sn0" using getTask_quiet [OF t] by blast
  have "\<not> (t_state t = T_pending \<and> g = T_running)" using ok by (auto simp: task_transition_allowed_def)
  then have "transitionTask s (t_id t) (t_version t) g w = (Inr sn, w')"
    using S(9) sn(1) sn0 by (cases "g = T_running") (auto simp: transitionTask_def validateVersion_def guarded_def Let_def await_simps)
  then show ?thesis using w'(2) sn(2) by blast
qed

definition same_work :: "task_row \<Rightarrow> task_row \<Rightarrow> bool" where
  "same_work t u \<longleftrightarrow> t_id u = t_id t \<and> t_tenant_id u = t_tenant_id t \<and> t_result_ref u = t_result_ref t \<and>
    t_progress_completed u = t_progress_completed t \<and> t_progress_total u = t_progress_total t \<and>
    t_progress_message u = t_progress_message t"

lemma same_work_refl [simp]: "same_work t t"
  by (simp add: same_work_def)

lemma same_work_trans: "same_work t u \<Longrightarrow> same_work u v \<Longrightarrow> same_work t v"
  by (simp add: same_work_def)

lemma maybe_transition_quiet:
  assumes t: "sees_task s w t" and sn: "shows_task t sn" and ok: "b \<Longrightarrow> task_transition_allowed (t_state t) g"
  shows "\<exists>sn' w' t'. (if b then transitionTask s (sn_id sn) (sn_entity_version sn) g else return sn) w = (Inr sn', w') \<and>
    stepped s w w' t' \<and> shows_task t' sn' \<and> t_state t' = (if b then g else t_state t) \<and> same_work t t' \<and>
    (\<not> b \<longrightarrow> w' = w)"
proof (cases b)
  case True
  obtain sn' w' where "transitionTask s (t_id t) (t_version t) g w = (Inr sn', w')"
      "stepped s w w' (transitioned (at_now w) g t)" "shows_task (transitioned (at_now w) g t) sn'"
    using transitionTask_quiet [OF t ok [OF True]] by blast
  moreover have "same_work t (transitioned (at_now w) g t)" by (simp add: same_work_def)
  ultimately show ?thesis using True sn by auto
next
  case False
  then show ?thesis using stepped_refl [OF t] sn by (auto simp: return_def)
qed

lemma await_step: "m w = (Inr x, w') \<Longrightarrow> f x w' = r \<Longrightarrow> await m f w = r"
  by (simp add: await_def)

lemma converge_ok: "operation w = (Inr x, w') \<Longrightarrow> converge operation w = (Inr x, w')"
  by (simp add: converge_def MAX_CONVERGENCE_ATTEMPTS_def eval_nat_numeral try_catch_def)

text \<open>The state \<open>ensureTask\<close> leaves behind.\<close>

definition ensured :: "task_state \<Rightarrow> task_state \<Rightarrow> task_state" where
  "ensured target st = (if st = target \<or> st \<in> {T_succeeded, T_failed, T_cancelled} then st
    else let st1 = (if st = T_pending then T_queued else st) in
      if target = T_queued then st1
      else let st2 = (if st1 = T_queued then T_running else st1) in
        if target = T_running \<or> (target = T_cancelled \<and> st2 \<noteq> T_cancel_requested) \<or>
          st2 \<notin> {T_running, T_uncertain, T_cancel_requested} then st2 else target)"

lemma ensureTask_quiet:
  assumes t: "sees_task s w t" and target: "target \<in> {T_queued, T_running, T_uncertain, T_succeeded, T_failed, T_cancelled}"
    and tid: "tid = t_id t"
  shows "\<exists>sn w' t'. ensureTask s tid target w = (Inr sn, w') \<and> stepped s w w' t' \<and> shows_task t' sn \<and>
    t_state t' = ensured target (t_state t) \<and> same_work t t' \<and>
    (ensured target (t_state t) = t_state t \<longrightarrow> w' = w)"
proof -
  obtain sn where sn: "getTask s (t_id t) w = (Inr sn, w)" "shows_task t sn" using getTask_quiet [OF t] by blast
  let ?done = "sn_state sn = target \<or> sn_state sn \<in> {T_succeeded, T_failed, T_cancelled}"
  show ?thesis
  proof (cases ?done)
    case True
    have "ensureTask s tid target w = (Inr sn, w)"
      unfolding ensureTask_def tid
      by (rule converge_ok, rule await_step, rule sn(1), simp only: True if_True return_def)
    then show ?thesis using True stepped_refl [OF t] sn(2) by (auto simp: ensured_def)
  next
    case False
    then have live: "?done = False" by simp
    let ?b1 = "sn_state sn = T_pending"
    obtain sn1 w1 t1 where 1: "(if ?b1 then transitionTask s (sn_id sn) (sn_entity_version sn) T_queued else return sn) w = (Inr sn1, w1)"
        "stepped s w w1 t1" "shows_task t1 sn1" "t_state t1 = (if ?b1 then T_queued else t_state t)" "same_work t t1" "\<not> ?b1 \<longrightarrow> w1 = w"
      using maybe_transition_quiet [OF t sn(2), of ?b1 T_queued] sn(2) by (auto simp: task_transition_allowed_def)
    let ?b2 = "sn_state sn1 = T_queued"
    have t1: "sees_task s w1 t1" using 1(2) by (simp add: stepped_def)
    obtain sn2 w2 t2 where 2: "(if ?b2 then transitionTask s (sn_id sn1) (sn_entity_version sn1) T_running else return sn1) w1 = (Inr sn2, w2)"
        "stepped s w1 w2 t2" "shows_task t2 sn2" "t_state t2 = (if ?b2 then T_running else t_state t1)" "same_work t1 t2" "\<not> ?b2 \<longrightarrow> w2 = w1"
      using maybe_transition_quiet [OF t1 1(3), of ?b2 T_running] 1(3) by (auto simp: task_transition_allowed_def)
    let ?b3 = "\<not> (target = T_cancelled \<and> sn_state sn2 \<noteq> T_cancel_requested) \<and> sn_state sn2 \<in> {T_running, T_uncertain, T_cancel_requested}"
    have t2: "sees_task s w2 t2" using 2(2) by (simp add: stepped_def)
    have ok3: "task_transition_allowed (t_state t2) target" if ?b3 "target \<noteq> T_running" "target \<noteq> T_queued"
      using that target False sn(2) 1(3,4) 2(3,4) by (auto simp: task_transition_allowed_def split: if_splits)
    consider (a) "target = T_queued" | (b) "target = T_running" | (c) "target \<noteq> T_queued" "target \<noteq> T_running" by blast
    then show ?thesis
    proof cases
      case a
      have "ensureTask s tid target w = (Inr sn1, w1)"
        unfolding ensureTask_def tid
        by (rule converge_ok, rule await_step, rule sn(1), simp only: live if_False, rule await_step, rule 1(1))
          (simp only: a simp_thms if_True return_def)
      then show ?thesis using False a sn(2) 1(2-6) by (auto simp: ensured_def)
    next
      case b
      have "ensureTask s tid target w = (Inr sn2, w2)"
        unfolding ensureTask_def tid
        by (rule converge_ok, rule await_step, rule sn(1), simp only: live if_False, rule await_step, rule 1(1),
            simp only: b task_state.distinct if_False simp_thms, rule await_step, rule 2(1)) (simp only: simp_thms if_True return_def)
      then show ?thesis
        using False b sn(2) 1(3,4,6) 2(3,4,6) stepped_trans [OF 1(2) 2(2)] same_work_trans [OF 1(5) 2(5)]
        by (auto simp: ensured_def Let_def)
    next
      case c
      obtain sn3 w3 t3 where 3: "(if ?b3 then transitionTask s (sn_id sn2) (sn_entity_version sn2) target else return sn2) w2 = (Inr sn3, w3)"
          "stepped s w2 w3 t3" "shows_task t3 sn3" "t_state t3 = (if ?b3 then target else t_state t2)" "same_work t2 t3" "\<not> ?b3 \<longrightarrow> w3 = w2"
        using maybe_transition_quiet [OF t2 2(3), of ?b3 target] ok3 c by auto
      have "ensureTask s tid target w = (Inr sn3, w3)"
        unfolding ensureTask_def tid
        by (rule converge_ok, rule await_step, rule sn(1), simp only: live if_False, rule await_step, rule 1(1),
            simp only: c if_False, rule await_step, rule 2(1)) (use 3(1) c in \<open>auto split: if_splits\<close>)
      then show ?thesis
        using False c sn(2) 1(3,4,6) 2(3,4,6) 3(3,4,6) stepped_trans [OF stepped_trans [OF 1(2) 2(2)] 3(2)]
          same_work_trans [OF same_work_trans [OF 1(5) 2(5)] 3(5)]
        by (auto simp: ensured_def Let_def)
    qed
  qed
qed

lemma dropWhile_rev_Nil: "rev (dropWhile P (rev (dropWhile P xs))) = [] \<longleftrightarrow> (\<forall>x \<in> set xs. P x)"
proof -
  have "(\<forall>x \<in> set (dropWhile P xs). P x) \<longleftrightarrow> (\<forall>x \<in> set xs. P x)"
    by (induction xs) auto
  then show ?thesis by (simp add: dropWhile_eq_Nil_conv)
qed

lemma blank_js_space: "blank c \<Longrightarrow> js_space c"
  by (simp add: blank_def js_space_def)

lemma nonblank_btrim: "\<not> blank_text x \<Longrightarrow> btrim x \<noteq> ''''"
  unfolding js_trim_def btrim_def dropWhile_rev_Nil using blank_js_space by blast

lemma guarded_False [simp]: "guarded False e m = m"
  by (simp add: guarded_def)

lemma reportTaskProgress_quiet:
  assumes t: "sees_task s w t" and st: "t_state t = T_running \<or> t_state t = T_cancel_requested"
    and b: "0 \<le> n" "t_progress_completed t < n" "t_progress_total t = None \<or> t_progress_total t = Some n"
  shows "\<exists>sn w' t'. reportTaskProgress s (t_id t) (t_version t) \<lparr>p_completed = n, p_total = Some n, p_message = msg\<rparr> w = (Inr sn, w') \<and>
    stepped s w w' t' \<and> shows_task t' sn \<and> t_state t' = t_state t \<and> t_result_ref t' = t_result_ref t \<and> t_id t' = t_id t"
proof -
  note S = sees_taskD [OF t]
  let ?f = "\<lambda>t. t\<lparr>t_progress_completed := n, t_progress_total := Some n, t_progress_message := nullif (coalesce msg '''') '''',
    t_version := t_version t + 1, t_updated_at := at_now w\<rparr>"
  let ?m = "execute (\<lambda>now. report_progress s now (t_id t) (t_version t) n (Some n) msg)"
  have "\<exists>w'. ?m w = (Inr (t_version (?f t)), w') \<and> stepped s w w' (?f t)"
  proof (rule task_write_quiet [OF t])
    show "report_progress s (at_now w) (t_id t) (t_version t) n (Some n) msg (at_db w) = update_returning s t ?f (at_db w)"
      using S(4) st b by (auto simp: report_progress_def Let_def)
    show "committed (report_progress s (at_now w) (t_id t) (t_version t) n (Some n) msg) =
        serve (s, at_now w, Task_call (Report_progress (t_id t) (t_version t) n (Some n) msg))"
      by (simp add: serve_calls)
    show "task_check (?f t)" using S(8) b by (simp add: task_check_def)
  qed simp_all
  then obtain w' where w': "?m w = (Inr (t_version (?f t)), w')" "stepped s w w' (?f t)" by blast
  then have "sees_task s w' (?f t)" by (simp add: stepped_def)
  then obtain sn where sn: "await ?m (\<lambda>_. getTask s (t_id t)) w = (Inr sn, w')" "shows_task (?f t) sn"
    using then_getTask [of ?m w _ w' s "?f t" "t_id t", OF w'(1)] by auto
  have "reportTaskProgress s (t_id t) (t_version t) \<lparr>p_completed = n, p_total = Some n, p_message = msg\<rparr> w = (Inr sn, w')"
    using S(9) b sn(1) by (simp add: reportTaskProgress_def validateVersion_def validateProgress_def guarded_def)
  then show ?thesis using w'(2) sn(2) by (intro exI [of _ sn] exI [of _ w'] exI [of _ "?f t"]) simp
qed

lemma synchronize_quiet:
  assumes t: "sees_task s w t" and tid: "tid = t_id t"
  shows "\<exists>sn w' t'. synchronizeSuccessfulProgress s tid w = (Inr sn, w') \<and> stepped s w w' t' \<and>
    t_state t' = t_state t \<and> t_result_ref t' = t_result_ref t \<and> t_id t' = t_id t \<and>
    (t_state t \<noteq> T_running \<and> t_state t \<noteq> T_cancel_requested \<longrightarrow> w' = w)"
proof -
  obtain sn where sn: "getTask s (t_id t) w = (Inr sn, w)" "shows_task t sn" using getTask_quiet [OF t] by blast
  let ?n = "coalesce (t_progress_total t) (max 1 (t_progress_completed t))"
  let ?go = "(t_state t = T_running \<or> t_state t = T_cancel_requested) \<and> t_progress_completed t < ?n"
  have chk: "0 \<le> t_progress_completed t" using sees_taskD(8) [OF t] by (simp add: task_check_def)
  show ?thesis
  proof (cases ?go)
    case True
    have "t_progress_total t = None \<or> t_progress_total t = Some ?n" by (cases "t_progress_total t") auto
    then obtain sn' w' t' where r: "reportTaskProgress s (t_id t) (t_version t)
          \<lparr>p_completed = ?n, p_total = Some ?n, p_message = truthy (t_progress_message t)\<rparr> w = (Inr sn', w')"
        "stepped s w w' t'" "shows_task t' sn'" "t_state t' = t_state t" "t_result_ref t' = t_result_ref t" "t_id t' = t_id t"
      using reportTaskProgress_quiet [OF t, of ?n "truthy (t_progress_message t)"] True chk by auto
    have "synchronizeSuccessfulProgress s tid w = (Inr sn', w')"
      unfolding synchronizeSuccessfulProgress_def tid
      by (rule converge_ok, rule await_step, rule sn(1)) (use True sn(2) r(1) in \<open>auto simp: Let_def\<close>)
    then show ?thesis using r(2-6) True by blast
  next
    case False
    have "synchronizeSuccessfulProgress s tid w = (Inr sn, w)"
      unfolding synchronizeSuccessfulProgress_def tid
      by (rule converge_ok, rule await_step, rule sn(1)) (use False sn(2) in \<open>auto simp: Let_def return_def\<close>)
    then show ?thesis using stepped_refl [OF t] by blast
  qed
qed

lemma attach_statement_quiet:
  assumes t: "sees_task s w t" and ref: "\<not> blank_text ref" and none: "t_result_ref t \<noteq> Some (btrim ref)"
  shows "\<exists>w' t'. attachTaskResult s (t_id t) (t_version t) ref w =
      (Inr \<lparr>rs_entity_version = t_version t', rs_reference = btrim ref, rs_updated_at = t_updated_at t'\<rparr>, w') \<and>
    stepped s w w' t' \<and> t_state t' = t_state t \<and> t_result_ref t' = Some (btrim ref) \<and> t_id t' = t_id t"
proof -
  note S = sees_taskD [OF t]
  let ?f = "\<lambda>t. t\<lparr>t_result_ref := Some (btrim ref), t_version := t_version t + 1, t_updated_at := at_now w\<rparr>"
  let ?m = "execute (\<lambda>now. attach_task_result s now (t_id t) (t_version t) ref)"
  have "\<exists>w'. ?m w = (Inr (t_version (?f t)), w') \<and> stepped s w w' (?f t)"
  proof (rule task_write_quiet [OF t])
    show "attach_task_result s (at_now w) (t_id t) (t_version t) ref (at_db w) = update_returning s t ?f (at_db w)"
      using S(4) nonblank_btrim [OF ref] none by (simp add: attach_task_result_def)
    show "committed (attach_task_result s (at_now w) (t_id t) (t_version t) ref) =
        serve (s, at_now w, Task_call (Attach_task_result (t_id t) (t_version t) ref))"
      by (simp add: serve_calls)
    show "task_check (?f t)" using S(8) by (simp add: task_check_def split: option.splits)
  qed simp_all
  then obtain w' where w': "?m w = (Inr (t_version (?f t)), w')" "stepped s w w' (?f t)" by blast
  then have t': "sees_task s w' (?f t)" by (simp add: stepped_def)
  obtain sn where sn: "getTask s (t_id (?f t)) w' = (Inr sn, w')" "shows_task (?f t) sn" using getTask_quiet [OF t'] by blast
  note S' = sees_taskD [OF t']
  have "getTaskResult s (t_id t) w' = (Inr \<lparr>rs_entity_version = t_version (?f t), rs_reference = btrim ref, rs_updated_at = at_now w\<rparr>, w')"
    unfolding getTaskResult_def
    by (rule await_step, use sn(1) in simp, rule await_step, rule quiet_query [OF S'(1)])
      (use S'(4) sn(2) nonblank_btrim [OF ref] in \<open>simp add: truthy_def nullif_def return_def\<close>)
  then have "attachTaskResult s (t_id t) (t_version t) ref w =
      (Inr \<lparr>rs_entity_version = t_version (?f t), rs_reference = btrim ref, rs_updated_at = at_now w\<rparr>, w')"
    using S(9) ref w'(1) by (simp add: attachTaskResult_def validateVersion_def guarded_def await_def)
  then show ?thesis using w'(2) by (intro exI [of _ w'] exI [of _ "?f t"]) simp
qed

section \<open>Execution writes\<close>

definition sees :: "session \<Rightarrow> world \<Rightarrow> task_row \<Rightarrow> execution_row \<Rightarrow> bool" where
  "sees s w t e \<longleftrightarrow> sees_task s w t \<and> sees_execution s w e \<and> e_task_id e = t_id t"

text \<open>The attempt was rewritten; the Task keeps its work and state.\<close>

definition moved :: "session \<Rightarrow> world \<Rightarrow> world \<Rightarrow> task_row \<Rightarrow> execution_row \<Rightarrow> bool" where
  "moved s w w' t e \<longleftrightarrow> at_now w' = at_now w \<and>
    (\<exists>t'. sees s w' t' e \<and> same_work t t' \<and> t_state t' = t_state t)"

lemma sees_stepped:
  assumes "sees s w t e" and "stepped s w w' t'" and "t_id t' = t_id t"
  shows "sees s w' t' e"
  using assms by (auto simp: sees_def stepped_def sees_execution_def sees_task_def select_execution_def)

lemma same_work_recounted: "same_work t (recounted now e f t)" "t_state (recounted now e f t) = t_state t"
  by (simp_all add: same_work_def recounted_def touch_task_def)

lemma task_check_touch: "task_check t \<Longrightarrow> task_check (touch_task now t)"
  by (simp add: task_check_def touch_task_def split: option.splits)

lemma updated_execution:
  assumes v: "sees s w t e" and upd: "update_execution s now (e_id e) f (at_db w) = Inr d1"
    and fwd: "exec_evolves e (f e)"
    and keep: "\<And>x. e_id (f x) = e_id x" "\<And>x. e_task_id (f x) = e_task_id x" "\<And>x. e_tenant_id (f x) = e_tenant_id x"
  shows "core_ok d1" and "select_execution s (e_id e) d1 = Some (f e)"
    and "\<exists>t'. select_task s (t_id t) d1 = Some t' \<and> same_work t t' \<and> t_state t' = t_state t"
proof -
  have T: "sees_task s w t" and E: "sees_execution s w e" and tid: "e_task_id e = t_id t" using v by (simp_all add: sees_def)
  note ST = sees_taskD [OF T] and SE = sees_executionD [OF E]
  have F: "forward_update s now e f (at_db w) d1"
    using upd SE(5,6) fwd keep by (simp add: forward_update_def)
  show ok1: "core_ok d1" by (rule forward_updateD(3) [OF F SE(3)])
  show "select_execution s (e_id e) d1 = Some (f e)"
    using select_execution_iff [OF ok1 forward_update_row(1,2) [OF F SE(3)]] keep by simp
  note D = update_executionD [OF upd SE(3,5,6) keep(2)]
  show "\<exists>t'. select_task s (t_id t) d1 = Some t' \<and> same_work t t' \<and> t_state t' = t_state t"
  proof (cases "e_state (f e) = e_state e")
    case True
    then have "select_task s (t_id t) d1 = Some t" using D(2) ST(4) by (simp add: select_task_def)
    then show ?thesis by simp
  next
    case False
    then have "tasks d1 = upd_where (\<lambda>u. t_id u = t_id t) (recounted now e (f e)) (tasks (at_db w))" using D(2) tid by simp
    then have "select_task s (t_id t) d1 = Some (recounted now e (f e) t)"
      using select_task_upd_where [OF wfD(1) [OF ok1] _ ST(5,6)] by simp
    then show ?thesis using same_work_recounted by blast
  qed
qed

lemma movedI:
  assumes "sees s w t e" and "execute c w = (Inr x, w\<lparr>at_db := d'\<rparr>)" and "c (at_now w) (at_db w) = Inr (x, d')"
    and "committed (c (at_now w)) = serve r" and "select_execution s (e_id e) d' = Some e'" and "e_id e' = e_id e"
    and "e_task_id e' = e_task_id e" and "select_task s (t_id t) d' = Some t'" "same_work t t'" "t_state t' = t_state t"
  shows "moved s w (w\<lparr>at_db := d'\<rparr>) t e'"
proof -
  have "quiet s (w\<lparr>at_db := d'\<rparr>)"
    by (rule quiet_commit [of s w "c (at_now w)", OF _ assms(3,4)]) (use assms(1) in \<open>simp add: sees_def sees_task_def\<close>)
  then have "sees s (w\<lparr>at_db := d'\<rparr>) t' e'"
    using assms by (auto simp: sees_def sees_task_def sees_execution_def same_work_def)
  then show ?thesis unfolding moved_def using assms(9,10) by auto
qed

lemma exec_transitioned_more [simp]:
  "e_item_key (exec_transitioned now g r e) = e_item_key e" "e_attempt (exec_transitioned now g r e) = e_attempt e"
  "e_runtime (exec_transitioned now g r e) = e_runtime e" "e_runtime_scope (exec_transitioned now g r e) = e_runtime_scope e"
  "e_external_id (exec_transitioned now g r e) = e_external_id e"
  "e_superseded_at (exec_transitioned now g r e) = e_superseded_at e"
  "e_result_ref (exec_transitioned now g r e) = e_result_ref e"
  by (simp_all add: exec_transitioned_def)

lemma len_reason: "len (coalesce (map_option (left_text 512) x) '''') \<le> 512"
  by (cases x) (simp_all add: len_def left_text_take)

lemma exec_transitioned_check: "execution_check e \<Longrightarrow> execution_check (exec_transitioned now g r e)"
  using len_reason [of "nullif (btrim (coalesce r '''')) ''''"]
  by (auto simp: execution_check_def exec_transitioned_def)

lemma moved_read:
  assumes "moved s w w' t e"
  shows "\<exists>sn. getTask s (t_id t) w' = (Inr sn, w') \<and> sn_state sn = t_state t"
proof -
  obtain t' where t': "sees_task s w' t'" "same_work t t'" "t_state t' = t_state t" using assms by (auto simp: moved_def sees_def)
  then show ?thesis using getTask_quiet [OF t'(1)] by (auto simp: same_work_def)
qed

lemma transitionTaskExecution_quiet:
  assumes v: "sees s w t e" and ok: "exec_transition_allowed e g"
  shows "\<exists>sn w'. transitionTaskExecution s (e_id e) (e_version e) g r w = (Inr sn, w') \<and>
    moved s w w' t (exec_transitioned (at_now w) g r e)"
proof -
  have E: "sees_execution s w e" and tid: "e_task_id e = t_id t" using v by (simp_all add: sees_def)
  note SE = sees_executionD [OF E]
  let ?c = "\<lambda>now. transition_execution s now (e_id e) (e_version e) (exec_state_name g) r"
  let ?f = "exec_transitioned (at_now w) g r"
  obtain d' where d': "update_execution s (at_now w) (e_id e) ?f (at_db w) = Inr d'"
    using update_execution_total [OF SE(3,4), of ?f "at_now w"] exec_transitioned_check [OF SE(7)] by auto
  have ne: "exec_state_name (e_state e) \<noteq> exec_state_name g"
    using exec_transitioned_ok(2) [OF ok] exec_state_of_name by (metis exec_transitioned_keep(4) option.inject)
  have c: "?c (at_now w) (at_db w) = Inr (e_version e + 1, d')"
    using SE(4) ok ne d' by (simp add: transition_execution_def)
  note U = updated_execution [OF v d' exec_transitioned_ok(1) [OF ok]]
  obtain t' where t': "select_task s (t_id t) d' = Some t'" "same_work t t'" "t_state t' = t_state t" using U(3) by auto
  let ?w = "w\<lparr>at_db := d'\<rparr>"
  have ex: "execute ?c w = (Inr (e_version e + 1), ?w)" by (rule quiet_execute(1) [OF SE(1), of ?c, OF c])
  have "moved s w ?w t (?f e)"
    by (rule movedI [OF v ex c serve_calls(11) [symmetric] _ _ _ t']) (use U(2) in simp_all)
  moreover obtain sn where "getTask s (t_id t) ?w = (Inr sn, ?w)" using moved_read [OF calculation] by blast
  then have "transitionTaskExecution s (e_id e) (e_version e) g r w = (Inr sn, ?w)"
    using SE(8) tid by (simp add: transitionTaskExecution_def validateVersion_def guarded_def
        await_def getTaskExecution_quiet [OF E] ex mapExecution_def)
  ultimately show ?thesis by blast
qed

lemma attachTaskExecutionResult_quiet:
  assumes v: "sees s w t e" and ref: "\<not> blank_text ref"
  shows "\<exists>sn w' e'. attachTaskExecutionResult s (e_id e) (e_version e) ref w = (Inr sn, w') \<and> moved s w w' t e' \<and>
    e_id e' = e_id e \<and> e_state e' = e_state e \<and> e_result_ref e' = Some (btrim ref) \<and>
    e_runtime e' = e_runtime e \<and> e_runtime_scope e' = e_runtime_scope e \<and> e_external_id e' = e_external_id e \<and>
    e_superseded_at e' = e_superseded_at e \<and> e_attempt e' = e_attempt e \<and>
    (e_result_ref e = Some (btrim ref) \<longrightarrow> w' = w)"
proof -
  have T: "sees_task s w t" and E: "sees_execution s w e" and tid: "e_task_id e = t_id t" using v by (simp_all add: sees_def)
  note SE = sees_executionD [OF E] and ST = sees_taskD [OF T] and nb = nonblank_btrim [OF ref]
  let ?c = "\<lambda>now. attach_execution_result s now (e_id e) (e_version e) ref"
  let ?f = "\<lambda>e. e\<lparr>e_result_ref := Some (btrim ref), e_version := e_version e + 1, e_updated_at := at_now w\<rparr>"
  have result: "attachTaskExecutionResult s (e_id e) (e_version e) ref w = (Inr sn, w')"
    if "execute ?c w = (Inr x, w')" "getTask s (t_id t) w' = (Inr sn, w')" for x sn w'
    using SE(8) tid ref that by (simp add: attachTaskExecutionResult_def validateVersion_def guarded_def
        await_def getTaskExecution_quiet [OF E] mapExecution_def)
  show ?thesis
  proof (cases "e_result_ref e = Some (btrim ref)")
    case True
    then have "?c (at_now w) (at_db w) = Inr (e_version e, at_db w)"
      using SE(4) nb by (simp add: attach_execution_result_def)
    then have ex: "execute ?c w = (Inr (e_version e), w)"
      using quiet_execute(1) [OF SE(1), of ?c "e_version e" "at_db w"] by simp
    obtain sn where "getTask s (t_id t) w = (Inr sn, w)" using getTask_quiet [OF T] by blast
    moreover have "moved s w w t e" unfolding moved_def using v by auto
    ultimately show ?thesis using result [OF ex] True by blast
  next
    case False
    have "execution_check (?f e)" using SE(7) by (simp add: execution_check_def)
    then obtain d1 where d1: "update_execution s (at_now w) (e_id e) ?f (at_db w) = Inr d1"
      using update_execution_total [OF SE(3,4), of ?f "at_now w"] by auto
    have fwd: "exec_evolves e (?f e)" by (simp add: exec_evolves_def)
    note U = updated_execution [OF v d1 fwd]
    obtain t1 where t1: "select_task s (t_id t) d1 = Some t1" "same_work t t1" "t_state t1 = t_state t" using U(3) by auto
    note T1 = select_taskD [OF t1(1)]
    have "core_ok d1" using U(1) by simp
    note ok1 = wfD(1) [OF this]
    have chk: "task_check t1" using ok1 T1(1) by (auto simp: table_ok_def list_all_iff tables)
    obtain d' where d': "update_task s (t_id t1) (touch_task (at_now w)) d1 = Inr d'"
        "tasks d' = upd_where (\<lambda>u. t_id u = t_id t1) (touch_task (at_now w)) (tasks d1)" "executions d' = executions d1"
        "rest d' = rest d1"
      by (rule update_task_total [OF ok1 T1(1,2), of "touch_task (at_now w)"]) (simp_all add: task_check_touch [OF chk])
    have c: "?c (at_now w) (at_db w) = Inr (e_version e + 1, d')"
      using SE(4) nb False d1 d'(1) T1(3) tid by (simp add: attach_execution_result_def)
    have t': "select_task s (t_id t) d' = Some (touch_task (at_now w) t1)"
      using select_task_upd_where [OF update_tasksD(4) [OF d'(1) ok1] d'(2) T1(1,2)] T1(3) by simp
    have st: "same_work t (touch_task (at_now w) t1)" "t_state (touch_task (at_now w) t1) = t_state t"
      using t1(2,3) by (simp_all add: same_work_def touch_task_def)
    let ?w = "w\<lparr>at_db := d'\<rparr>"
    have ex: "execute ?c w = (Inr (e_version e + 1), ?w)" by (rule quiet_execute(1) [OF SE(1), of ?c, OF c])
    have "select_execution s (e_id e) d' = Some (?f e)" using U(2) d'(3) by (simp add: select_execution_def)
    then have mv: "moved s w ?w t (?f e)"
      by (intro movedI [OF v ex c serve_calls(13) [symmetric] _ _ _ t' st]) simp_all
    moreover obtain sn where "getTask s (t_id t) ?w = (Inr sn, ?w)" using moved_read [OF mv] by blast
    ultimately show ?thesis
      using result [OF ex] False by (intro exI [of _ sn] exI [of _ ?w] exI [of _ "?f e"]) simp
  qed
qed

text \<open>\<open>ensureExecution\<close> on a bound attempt never fails, for any target but \<open>dispatched\<close>.\<close>

lemma ensureExecution_quiet:
  assumes v: "sees s w t e" and bound: "e_external_id e \<noteq> None" and eid: "eid = e_id e"
    and g: "g \<in> {E_running, E_succeeded, E_failed, E_stalled, E_cancelled}"
  shows "\<exists>w' e'. ensureExecution (Suc n) s eid g r w = (Inr (), w') \<and> moved s w w' t e' \<and>
    e' = (if e_state e = g \<or> e_state e \<in> set TERMINAL_EXECUTIONS then e else exec_transitioned (at_now w) g r e) \<and>
    (e_state e = g \<or> e_state e \<in> set TERMINAL_EXECUTIONS \<longrightarrow> w' = w)"
proof -
  have E: "sees_execution s w e" using v by (simp add: sees_def)
  have get: "getTaskExecution s eid w = (Inr (mapExecution e), w)" using getTaskExecution_quiet [OF E] eid by simp
  show ?thesis
  proof (cases "e_state e = g \<or> e_state e \<in> set TERMINAL_EXECUTIONS")
    case True
    have "ensureExecution (Suc n) s eid g r w = (Inr (), w)"
      unfolding ensureExecution.simps
      by (rule converge_ok, rule await_step, rule get) (use True in \<open>simp add: mapExecution_def return_def\<close>)
    moreover have "moved s w w t e" unfolding moved_def using v by auto
    ultimately show ?thesis using True by auto
  next
    case False
    then have "exec_transition_allowed e g"
      using bound g by (cases "e_state e") (auto simp: exec_transition_allowed_def TERMINAL_EXECUTIONS_def)
    from transitionTaskExecution_quiet [OF v this, of r]
    obtain sn w' where tr: "transitionTaskExecution s (e_id e) (e_version e) g r w = (Inr sn, w')"
      "moved s w w' t (exec_transitioned (at_now w) g r e)" by blast
    have "ensureExecution (Suc n) s eid g r w = (Inr (), w')"
      unfolding ensureExecution.simps
      by (rule converge_ok, rule await_step, rule get)
        (use False tr(1) in \<open>simp add: mapExecution_def return_def await_def try_catch_def\<close>)
    then show ?thesis using False tr(2) by auto
  qed
qed

end
