(* ===== verification/Projector_Properties.thy ===== *)
theory Projector_Properties
  imports Quiet_Client Samples
begin

text \<open>
  What the projector does with the events of a runtime: every projection is a run of the schema's
  commands, a success report converges and may be delivered again, and where convergence fails.
\<close>

definition bound_world :: world where
  "bound_world = \<lparr>at_db = bound_db, at_now = 500, at_plan = []\<rparr>"

definition job_event :: "int option \<Rightarrow> event_kind \<Rightarrow> runtime_event" where
  "job_event attempt kind = \<lparr>ev_ref = \<lparr>ref_runtime = ''bullmq'', ref_scope = ''media'', ref_external_id = ''job-7''\<rparr>,
    ev_occurred_at = (''1970-01-01T00:00:00.500Z'', Some 500), ev_attempt = attempt, ev_kind = kind\<rparr>"

section \<open>Projections are runs\<close>

lemma runs_converge_loop [client_runs]: "runs m \<Longrightarrow> runs (converge_loop n e m)"
  by (induction n arbitrary: e) (auto intro!: client_runs)

lemma runs_converge [client_runs]: "runs m \<Longrightarrow> runs (converge m)"
  unfolding converge_def by (rule runs_converge_loop)

lemma runs_ensureExecution [client_runs]: "runs (ensureExecution n s eid g r)"
  by (induction n arbitrary: g r) (auto simp: out_of_fuel_def intro!: client_runs)

lemma runs_projector_parts [client_runs]:
  "runs (ensureTask s a st)" "runs (projector_attachExecutionResult s a b)" "runs (projector_attachTaskResult s a b)"
  "runs (synchronizeSuccessfulProgress s a)" "runs (find_execution s r)" "runs (activate n s e)"
  "runs (project_progress n s e p)"
  unfolding ensureTask_def projector_attachExecutionResult_def projector_attachTaskResult_def
    synchronizeSuccessfulProgress_def find_execution_def activate_def project_progress_def Let_def
  by (intro client_runs)+

lemma runs_openAttempts [client_runs]: "runs (openAttempts n s e k)"
  by (induction n arbitrary: e) (auto simp: out_of_fuel_def intro!: client_runs split: option.split)

lemma runs_project_kind [client_runs]: "runs (project_kind n s mode e k)"
  unfolding project_kind_def Let_def
  by (cases k; simp only: event_kind.case; intro client_runs)

lemma runs_projectOne:
  assumes "\<And>ev. runs (hook ev)"
  shows "runs (projectOne n s mode hook ev)"
  unfolding projectOne_def by (intro client_runs assms)

section \<open>A reported success\<close>

lemma lookup_live:
  assumes "core_ok d" and "e \<in> set (executions d)" and "visible s (e_tenant_id e)"
    and "e_external_id e = Some x" and "e_superseded_at e = None"
  shows "select_one s execution_table (\<lambda>f. e_runtime f = e_runtime e \<and> e_runtime_scope f = e_runtime_scope e \<and>
    e_external_id f = Some x \<and> e_superseded_at f = None) (executions d) = Some e" (is "?sel = _")
proof (cases ?sel)
  case None
  then show ?thesis using assms by (auto simp: select_one_None_iff)
next
  case (Some f)
  then have f: "f \<in> set (executions d)" "execution_conflict f e" "execution_conflict e f"
    using assms(4,5) select_one_SomeD [OF Some] by (auto simp: execution_conflict_def)
  have "f = e"
  proof (rule ccontr)
    assume "f \<noteq> e"
    then show False
      using f assms(2) wfD(2) [OF assms(1)]
      by (auto simp: table_ok_def tables unique_by_def sorted_wrt_iff_nth_less in_set_conv_nth) (metis linorder_neqE_nat)
  qed
  then show ?thesis using Some by simp
qed

lemma find_execution_quiet:
  assumes e: "sees_execution s w e" and x: "e_external_id e = Some x" "e_superseded_at e = None"
    and r: "r = \<lparr>ref_runtime = e_runtime e, ref_scope = e_runtime_scope e, ref_external_id = x\<rparr>"
  shows "find_execution s r w = (Inr (Some (mapExecution e)), w)"
  using lookup_live [OF sees_executionD(3,5,6) [OF e] x] sees_executionD(1) [OF e]
  by (simp add: find_execution_def lookupTaskExecution_def try_catch_def await_def quiet_query return_def r)

text \<open>The two optional steps of the projection, on a reference that is not blank.\<close>

lemma attach_execution_step:
  assumes v: "sees s w t e" and ref: "case r of None \<Rightarrow> True | Some x \<Rightarrow> \<not> blank_text x"
  shows "\<exists>w' e'. (case truthy r of None \<Rightarrow> return ()
      | Some x \<Rightarrow> await (projector_attachExecutionResult s (e_id e) x) (\<lambda>_. return ())) w = (Inr (), w') \<and>
    moved s w w' t e' \<and> e_id e' = e_id e \<and> e_state e' = e_state e \<and> e_runtime e' = e_runtime e \<and>
    e_runtime_scope e' = e_runtime_scope e \<and> e_external_id e' = e_external_id e \<and>
    e_superseded_at e' = e_superseded_at e \<and> e_attempt e' = e_attempt e \<and>
    e_result_ref e' = (case r of None \<Rightarrow> e_result_ref e | Some x \<Rightarrow> Some (btrim x)) \<and>
    (e_result_ref e = e_result_ref e' \<longrightarrow> w' = w)"
proof (cases r)
  case None
  have "moved s w w t e" unfolding moved_def using v by auto
  then show ?thesis using None by (auto simp: truthy_def return_def)
next
  case (Some x)
  have nb: "\<not> blank_text x" "x \<noteq> ''''" using ref Some nonblank_btrim [of x] by auto
  have E: "sees_execution s w e" using v by (simp add: sees_def)
  obtain sn w' e' where a: "attachTaskExecutionResult s (e_id e) (e_version e) x w = (Inr sn, w')" "moved s w w' t e'"
      "e_id e' = e_id e" "e_state e' = e_state e" "e_result_ref e' = Some (btrim x)" "e_runtime e' = e_runtime e"
      "e_runtime_scope e' = e_runtime_scope e" "e_external_id e' = e_external_id e" "e_superseded_at e' = e_superseded_at e"
      "e_attempt e' = e_attempt e" "e_result_ref e = Some (btrim x) \<longrightarrow> w' = w"
    using attachTaskExecutionResult_quiet [OF v nb(1)] by blast
  have "projector_attachExecutionResult s (e_id e) x w = (Inr sn, w')"
    unfolding projector_attachExecutionResult_def
    by (rule converge_ok, rule await_step, rule getTaskExecution_quiet [OF E]) (use a(1) in \<open>simp add: mapExecution_def\<close>)
  then have "(case truthy r of None \<Rightarrow> return ()
      | Some x \<Rightarrow> await (projector_attachExecutionResult s (e_id e) x) (\<lambda>_. return ())) w = (Inr (), w')"
    using Some nb(2) by (simp add: truthy_def nullif_def await_def return_def)
  then show ?thesis using a(2-11) Some by (intro exI [of _ w'] exI [of _ e']) auto
qed

lemma attach_task_step:
  assumes t: "sees_task s w t" and tid: "tid = t_id t" and ref: "case r of None \<Rightarrow> True | Some x \<Rightarrow> \<not> blank_text x"
  shows "\<exists>w' t'. (case truthy r of None \<Rightarrow> return ()
      | Some x \<Rightarrow> await (projector_attachTaskResult s tid x) (\<lambda>_. return ())) w = (Inr (), w') \<and>
    stepped s w w' t' \<and> t_id t' = t_id t \<and> t_state t' = t_state t \<and>
    t_result_ref t' = (case r of None \<Rightarrow> t_result_ref t | Some x \<Rightarrow> Some (coalesce (t_result_ref t) (btrim x))) \<and>
    (t_result_ref t = t_result_ref t' \<longrightarrow> w' = w)"
proof (cases r)
  case None
  then show ?thesis using stepped_refl [OF t] by (auto simp: truthy_def return_def)
next
  case (Some x)
  have nb: "\<not> blank_text x" "x \<noteq> ''''" using ref Some nonblank_btrim [of x] by auto
  obtain sn where sn: "getTask s (t_id t) w = (Inr sn, w)" "shows_task t sn" using getTask_quiet [OF t] by blast
  have "\<exists>sn' w' t'. projector_attachTaskResult s tid x w = (Inr sn', w') \<and> stepped s w w' t' \<and> t_id t' = t_id t \<and>
    t_state t' = t_state t \<and> t_result_ref t' = Some (coalesce (t_result_ref t) (btrim x)) \<and>
    (t_result_ref t = t_result_ref t' \<longrightarrow> w' = w)"
  proof (cases "t_result_ref t")
    case (Some ref)
    have "projector_attachTaskResult s tid x w = (Inr sn, w)"
      unfolding projector_attachTaskResult_def tid
      by (rule converge_ok, rule await_step, rule sn(1)) (use sn(2) Some in \<open>simp add: return_def\<close>)
    then show ?thesis using stepped_refl [OF t] Some by auto
  next
    case None
    obtain res w' t' where a: "attachTaskResult s (t_id t) (t_version t) x w = (Inr res, w')" "stepped s w w' t'"
        "t_state t' = t_state t" "t_result_ref t' = Some (btrim x)" "t_id t' = t_id t"
      using attach_statement_quiet [OF t nb(1)] None by auto
    have "sees_task s w' t'" using a(2) by (simp add: stepped_def)
    then obtain sn' where sn': "getTask s (t_id t) w' = (Inr sn', w')" using getTask_quiet [of s w' t'] a(5) by auto
    have "projector_attachTaskResult s tid x w = (Inr sn', w')"
      unfolding projector_attachTaskResult_def tid
      by (rule converge_ok, rule await_step, rule sn(1)) (use sn(2) None a(1) sn' in \<open>simp add: await_def\<close>)
    then show ?thesis using a None by auto
  qed
  then obtain sn' w' t' where p: "projector_attachTaskResult s tid x w = (Inr sn', w')" "stepped s w w' t'" "t_id t' = t_id t"
    "t_state t' = t_state t" "t_result_ref t' = Some (coalesce (t_result_ref t) (btrim x))" "t_result_ref t = t_result_ref t' \<longrightarrow> w' = w"
    by blast
  have "(case truthy r of None \<Rightarrow> return ()
      | Some x \<Rightarrow> await (projector_attachTaskResult s tid x) (\<lambda>_. return ())) w = (Inr (), w')"
    using Some nb(2) p(1) by (simp add: truthy_def nullif_def await_def return_def)
  then show ?thesis using p(2-6) Some by (intro exI [of _ w'] exI [of _ t']) auto
qed

lemma moved_sees: "moved s w w' t e \<Longrightarrow> \<exists>t'. sees s w' t' e \<and> same_work t t' \<and> t_state t' = t_state t"
  by (simp add: moved_def)

text \<open>The part of the success projection that both modes share, up to its continuation.\<close>

lemma attempt_success_quiet:
  assumes v: "sees s w t e" and bound: "e_external_id e \<noteq> None" and ref: "case r of None \<Rightarrow> True | Some x \<Rightarrow> \<not> blank_text x"
  shows "\<exists>w' t' e'. (\<forall>k :: unit \<Rightarrow> unit io. await (ensureExecution (Suc n) s (e_id e) E_succeeded None) (\<lambda>_.
        await (ensureTask s (t_id t) T_running) (\<lambda>_.
        await (case truthy r of None \<Rightarrow> return ()
          | Some x \<Rightarrow> await (projector_attachExecutionResult s (e_id e) x) (\<lambda>_. return ())) k)) w = k () w') \<and>
    sees s w' t' e' \<and> t_id t' = t_id t \<and> t_state t' = ensured T_running (t_state t) \<and> t_result_ref t' = t_result_ref t \<and>
    e_id e' = e_id e \<and> e_state e' = (if e_state e \<in> {E_failed, E_stalled, E_cancelled} then e_state e else E_succeeded) \<and>
    e_runtime e' = e_runtime e \<and> e_runtime_scope e' = e_runtime_scope e \<and> e_external_id e' = e_external_id e \<and>
    e_superseded_at e' = e_superseded_at e \<and> e_attempt e' = e_attempt e \<and>
    e_result_ref e' = (case r of None \<Rightarrow> e_result_ref e | Some x \<Rightarrow> Some (btrim x)) \<and>
    (e_state e = e_state e' \<and> t_state t = t_state t' \<and> e_result_ref e = e_result_ref e' \<longrightarrow> w' = w)"
proof -
  let ?st = "if e_state e \<in> {E_failed, E_stalled, E_cancelled} then e_state e else E_succeeded"
  obtain w1 e1 where 1: "ensureExecution (Suc n) s (e_id e) E_succeeded None w = (Inr (), w1)" "moved s w w1 t e1"
      "e1 = (if e_state e = E_succeeded \<or> e_state e \<in> set TERMINAL_EXECUTIONS then e else exec_transitioned (at_now w) E_succeeded None e)"
      "e_state e = ?st \<longrightarrow> w1 = w"
    using ensureExecution_quiet [OF v bound refl, of E_succeeded n None] by (auto simp: TERMINAL_EXECUTIONS_def)
  have e1: "e_id e1 = e_id e" "e_state e1 = ?st" "e_runtime e1 = e_runtime e" "e_runtime_scope e1 = e_runtime_scope e"
      "e_external_id e1 = e_external_id e" "e_superseded_at e1 = e_superseded_at e" "e_attempt e1 = e_attempt e"
      "e_result_ref e1 = e_result_ref e"
    using 1(3) by (auto simp: TERMINAL_EXECUTIONS_def)
  obtain t1 where t1: "sees s w1 t1 e1" "same_work t t1" "t_state t1 = t_state t" using moved_sees [OF 1(2)] by blast
  then have st1: "sees_task s w1 t1" "t_id t = t_id t1" by (simp_all add: sees_def same_work_def)
  obtain sn2 w2 t2 where 2: "ensureTask s (t_id t) T_running w1 = (Inr sn2, w2)" "stepped s w1 w2 t2"
      "t_state t2 = ensured T_running (t_state t1)" "same_work t1 t2" "ensured T_running (t_state t1) = t_state t1 \<longrightarrow> w2 = w1"
    using ensureTask_quiet [OF st1(1) _ st1(2), of T_running] by auto
  have v2: "sees s w2 t2 e1" by (rule sees_stepped [OF t1(1) 2(2)]) (use 2(4) in \<open>simp add: same_work_def\<close>)
  obtain w3 e3 where 3: "(case truthy r of None \<Rightarrow> return ()
      | Some x \<Rightarrow> await (projector_attachExecutionResult s (e_id e1) x) (\<lambda>_. return ())) w2 = (Inr (), w3)" "moved s w2 w3 t2 e3"
      "e_id e3 = e_id e1" "e_state e3 = e_state e1" "e_runtime e3 = e_runtime e1" "e_runtime_scope e3 = e_runtime_scope e1"
      "e_external_id e3 = e_external_id e1" "e_superseded_at e3 = e_superseded_at e1" "e_attempt e3 = e_attempt e1"
      "e_result_ref e3 = (case r of None \<Rightarrow> e_result_ref e1 | Some x \<Rightarrow> Some (btrim x))"
      "e_result_ref e1 = e_result_ref e3 \<longrightarrow> w3 = w2"
    using attach_execution_step [OF v2 ref] by blast
  obtain t3 where t3: "sees s w3 t3 e3" "same_work t2 t3" "t_state t3 = t_state t2" using moved_sees [OF 3(2)] by blast
  have k: "await (ensureExecution (Suc n) s (e_id e) E_succeeded None) (\<lambda>_. await (ensureTask s (t_id t) T_running) (\<lambda>_.
      await (case truthy r of None \<Rightarrow> return ()
        | Some x \<Rightarrow> await (projector_attachExecutionResult s (e_id e) x) (\<lambda>_. return ())) k)) w = k () w3" for k :: "unit \<Rightarrow> unit io"
    by (rule await_step, rule 1(1), rule await_step, rule 2(1), rule await_step, rule 3(1) [unfolded e1(1)]) (rule refl)
  have same: "w3 = w" if "e_state e = e_state e3" "t_state t = t_state t3" "e_result_ref e = e_result_ref e3"
    using that e1(2,8) 1(4) 2(3,5) t1(3) 3(4,11) t3(3) by auto
  have "e_result_ref e3 = (case r of None \<Rightarrow> e_result_ref e | Some x \<Rightarrow> Some (btrim x))" using 3(10) e1(8) by (cases r) simp_all
  then show ?thesis
    using t3 t1(2,3) 2(3,4) e1 3(3-9) same
    by (intro exI [of _ w3] exI [of _ t3] exI [of _ e3] conjI allI k) (simp_all add: same_work_def)
qed

text \<open>The part that only \<open>single_execution\<close> has.\<close>

lemma task_success_quiet:
  assumes st: "sees_task s w t" "tid = t_id t" and ref: "case r of None \<Rightarrow> True | Some x \<Rightarrow> \<not> blank_text x"
  shows "\<exists>w' t'. await (synchronizeSuccessfulProgress s tid) (\<lambda>_. await (ensureTask s tid T_succeeded) (\<lambda>_.
      case truthy r of None \<Rightarrow> return ()
      | Some x \<Rightarrow> await (projector_attachTaskResult s tid x) (\<lambda>_. return ()))) w = (Inr (), w') \<and>
    stepped s w w' t' \<and> t_id t' = t_id t \<and> t_state t' = ensured T_succeeded (t_state t) \<and>
    t_result_ref t' = (case r of None \<Rightarrow> t_result_ref t | Some x \<Rightarrow> Some (coalesce (t_result_ref t) (btrim x))) \<and>
    (t_state t \<in> {T_succeeded, T_failed, T_cancelled} \<and> t_result_ref t = t_result_ref t' \<longrightarrow> w' = w)"
proof -
  obtain sn4 w4 t4 where 4: "synchronizeSuccessfulProgress s tid w = (Inr sn4, w4)" "stepped s w w4 t4"
      "t_state t4 = t_state t" "t_result_ref t4 = t_result_ref t" "t_id t4 = t_id t" "t_state t \<noteq> T_running \<and> t_state t \<noteq> T_cancel_requested \<longrightarrow> w4 = w"
    using synchronize_quiet [OF st] by blast
  have st4: "sees_task s w4 t4" "tid = t_id t4" using 4(2,5) st(2) by (simp_all add: stepped_def)
  obtain sn5 w5 t5 where 5: "ensureTask s tid T_succeeded w4 = (Inr sn5, w5)" "stepped s w4 w5 t5"
      "t_state t5 = ensured T_succeeded (t_state t4)" "same_work t4 t5" "ensured T_succeeded (t_state t4) = t_state t4 \<longrightarrow> w5 = w4"
    using ensureTask_quiet [OF st4(1) _ st4(2), of T_succeeded] by auto
  have st5: "sees_task s w5 t5" "tid = t_id t5" using 5(2,4) st4(2) by (simp_all add: stepped_def same_work_def)
  obtain w6 t6 where 6: "(case truthy r of None \<Rightarrow> return ()
      | Some x \<Rightarrow> await (projector_attachTaskResult s tid x) (\<lambda>_. return ())) w5 = (Inr (), w6)" "stepped s w5 w6 t6"
      "t_id t6 = t_id t5" "t_state t6 = t_state t5"
      "t_result_ref t6 = (case r of None \<Rightarrow> t_result_ref t5 | Some x \<Rightarrow> Some (coalesce (t_result_ref t5) (btrim x)))"
      "t_result_ref t5 = t_result_ref t6 \<longrightarrow> w6 = w5"
    using attach_task_step [OF st5 ref] by blast
  have "await (synchronizeSuccessfulProgress s tid) (\<lambda>_. await (ensureTask s tid T_succeeded) (\<lambda>_.
      case truthy r of None \<Rightarrow> return ()
      | Some x \<Rightarrow> await (projector_attachTaskResult s tid x) (\<lambda>_. return ()))) w = (Inr (), w6)"
    by (rule await_step, rule 4(1), rule await_step, rule 5(1), rule 6(1))
  moreover have r5: "t_result_ref t5 = t_result_ref t" using 5(4) 4(4) by (simp add: same_work_def)
  moreover have "w6 = w" if "t_state t \<in> {T_succeeded, T_failed, T_cancelled}" "t_result_ref t = t_result_ref t6"
    using that 4(3,6) 5(5) 6(6) r5 by (auto simp: ensured_def)
  ultimately show ?thesis
    using stepped_trans [OF stepped_trans [OF 4(2) 5(2)] 6(2)] 4(3) 5(3) 6(3-5) st5(2) st(2)
    by (intro exI [of _ w6] exI [of _ t6]) (auto cong: option.case_cong)
qed

text \<open>The state of the Task and its result after a projected success.\<close>

definition succeeded_state :: "terminal_projection \<Rightarrow> task_state \<Rightarrow> task_state" where
  "succeeded_state mode st = (if st \<in> {T_failed, T_cancelled} then st else if mode = Single_execution then T_succeeded
    else if st \<in> {T_pending, T_queued} then T_running else st)"

definition succeeded_result :: "terminal_projection \<Rightarrow> string option \<Rightarrow> string option \<Rightarrow> string option" where
  "succeeded_result mode r old = (if mode = Single_execution
    then (case r of None \<Rightarrow> old | Some x \<Rightarrow> Some (coalesce old (btrim x))) else old)"

lemma succeeded_again [simp]:
  "succeeded_state mode (succeeded_state mode st) = succeeded_state mode st"
  "succeeded_result mode r (succeeded_result mode r old) = succeeded_result mode r old"
  by (auto simp: succeeded_state_def succeeded_result_def coalesce_def split: option.split)

lemma project_success_quiet:
  assumes v: "sees s w t e" and bound: "e_external_id e \<noteq> None" and ref: "case r of None \<Rightarrow> True | Some x \<Rightarrow> \<not> blank_text x"
  shows "\<exists>w' t' e'. project_kind (Suc n) s mode (mapExecution e) (Succeeded r) w = (Inr (), w') \<and>
    sees s w' t' e' \<and> t_id t' = t_id t \<and> t_state t' = succeeded_state mode (t_state t) \<and> e_id e' = e_id e \<and>
    e_state e' = (if e_state e \<in> {E_failed, E_stalled, E_cancelled} then e_state e else E_succeeded) \<and>
    e_runtime e' = e_runtime e \<and> e_runtime_scope e' = e_runtime_scope e \<and> e_external_id e' = e_external_id e \<and>
    e_superseded_at e' = e_superseded_at e \<and> e_attempt e' = e_attempt e \<and>
    e_result_ref e' = (case r of None \<Rightarrow> e_result_ref e | Some x \<Rightarrow> Some (btrim x)) \<and>
    t_result_ref t' = succeeded_result mode r (t_result_ref t) \<and>
    (e_state e = e_state e' \<and> t_state t = t_state t' \<and> e_result_ref e = e_result_ref e' \<and> t_result_ref t = t_result_ref t' \<longrightarrow> w' = w)"
proof -
  have ids: "te_id (mapExecution e) = e_id e" "te_task_id (mapExecution e) = t_id t"
    using v by (simp_all add: sees_def mapExecution_def)
  obtain w3 t3 e3 where a: "\<forall>k :: unit \<Rightarrow> unit io. await (ensureExecution (Suc n) s (e_id e) E_succeeded None) (\<lambda>_.
        await (ensureTask s (t_id t) T_running) (\<lambda>_.
        await (case truthy r of None \<Rightarrow> return ()
          | Some x \<Rightarrow> await (projector_attachExecutionResult s (e_id e) x) (\<lambda>_. return ())) k)) w = k () w3"
    and t3: "sees s w3 t3 e3" "t_id t3 = t_id t" "t_state t3 = ensured T_running (t_state t)" "t_result_ref t3 = t_result_ref t"
    and e3: "e_id e3 = e_id e" "e_state e3 = (if e_state e \<in> {E_failed, E_stalled, E_cancelled} then e_state e else E_succeeded)"
      "e_runtime e3 = e_runtime e" "e_runtime_scope e3 = e_runtime_scope e" "e_external_id e3 = e_external_id e"
      "e_superseded_at e3 = e_superseded_at e" "e_attempt e3 = e_attempt e"
      "e_result_ref e3 = (case r of None \<Rightarrow> e_result_ref e | Some x \<Rightarrow> Some (btrim x))"
    and same: "e_state e = e_state e3 \<and> t_state t = t_state t3 \<and> e_result_ref e = e_result_ref e3 \<longrightarrow> w3 = w"
    using attempt_success_quiet [OF v bound ref, of n] by blast
  have st3: "sees_task s w3 t3" "t_id t = t_id t3" using t3(1,2) by (simp_all add: sees_def)
  show ?thesis
  proof (cases mode)
    case Execution_only
    have "project_kind (Suc n) s mode (mapExecution e) (Succeeded r) w = (Inr (), w3)"
      unfolding project_kind_def Let_def event_kind.case ids a [rule_format] by (simp add: Execution_only return_def del: ensureExecution.simps)
    moreover have "t_state t3 = succeeded_state mode (t_state t)"
      using t3(3) Execution_only by (cases "t_state t") (simp_all add: ensured_def succeeded_state_def)
    ultimately show ?thesis
      using t3 e3 same Execution_only by (intro exI [of _ w3] exI [of _ t3] exI [of _ e3]) (simp add: succeeded_result_def)
  next
    case Single_execution
    obtain w6 t6 where b: "await (synchronizeSuccessfulProgress s (t_id t)) (\<lambda>_. await (ensureTask s (t_id t) T_succeeded) (\<lambda>_.
        case truthy r of None \<Rightarrow> return ()
        | Some x \<Rightarrow> await (projector_attachTaskResult s (t_id t) x) (\<lambda>_. return ()))) w3 = (Inr (), w6)"
      and t6: "stepped s w3 w6 t6" "t_id t6 = t_id t3" "t_state t6 = ensured T_succeeded (t_state t3)"
        "t_result_ref t6 = (case r of None \<Rightarrow> t_result_ref t3 | Some x \<Rightarrow> Some (coalesce (t_result_ref t3) (btrim x)))"
        "t_state t3 \<in> {T_succeeded, T_failed, T_cancelled} \<and> t_result_ref t3 = t_result_ref t6 \<longrightarrow> w6 = w3"
      using task_success_quiet [OF st3 ref] by blast
    have "project_kind (Suc n) s mode (mapExecution e) (Succeeded r) w = (Inr (), w6)"
      unfolding project_kind_def Let_def event_kind.case ids a [rule_format] using b by (simp add: Single_execution del: ensureExecution.simps)
    moreover have s6: "t_state t6 = succeeded_state mode (t_state t)"
      using t6(3) t3(3) Single_execution by (cases "t_state t") (simp_all add: ensured_def succeeded_state_def)
    moreover have "w6 = w" if "e_state e = e_state e3" "t_state t = t_state t6" "e_result_ref e = e_result_ref e3" "t_result_ref t = t_result_ref t6"
    proof -
      have "t_state t \<in> {T_succeeded, T_failed, T_cancelled}" using that(2) s6 Single_execution by (auto simp: succeeded_state_def split: if_splits)
      then have "t_state t3 = t_state t" using t3(3) by (auto simp: ensured_def)
      then show ?thesis using that same t6(5) t3(4) \<open>t_state t \<in> _\<close> by auto
    qed
    ultimately show ?thesis
      using e3 t6 t3(2,4) sees_stepped [OF t3(1) t6(1)] Single_execution
      by (intro exI [of _ w6] exI [of _ t6] exI [of _ e3]) (simp add: succeeded_result_def cong: option.case_cong)
  qed
qed

lemma project_found_quiet:
  assumes v: "sees s w t e" and x: "e_external_id e = Some x" "e_superseded_at e = None"
    and ev: "ev_ref ev = \<lparr>ref_runtime = e_runtime e, ref_scope = e_runtime_scope e, ref_external_id = x\<rparr>"
      "case ev_attempt ev of None \<Rightarrow> True | Some k \<Rightarrow> k \<le> e_attempt e"
  shows "projectOne (Suc n) s mode hook ev w = project_kind (Suc n) s mode (mapExecution e) (ev_kind ev) w"
proof -
  have E: "sees_execution s w e" using v by (simp add: sees_def)
  show ?thesis
    unfolding projectOne_def
    by (rule await_step, rule find_execution_quiet [OF E x ev(1)], rule await_step, simp add: return_def)
      (use ev(2) in \<open>cases "ev_attempt ev"; simp add: await_def return_def mapExecution_def\<close>)
qed

text \<open>
  C23: a reported success converges and may be delivered again, in both terminal projections. While no
  other client acts, on the live attempt a runtime reference is bound to, the event is projected
  without error. The attempt ends up succeeded unless it had failed, stalled or been cancelled, and
  carries the reported result. With \<open>single_execution\<close> the Task ends up succeeded unless it had
  failed or been cancelled, and carries the reported result unless it had one before; with
  \<open>execution_only\<close> a Task that was pending or queued is running, any other state stays, and its
  result is not touched. Projecting the same event once more changes nothing.
\<close>

theorem success_projected:
  assumes quiet: "at_plan w = []" and run: "at_db w = fold serve rs empty_db"
    and e: "select_execution s eid (at_db w) = Some e" and t: "select_task s (e_task_id e) (at_db w) = Some t"
    and bound: "e_external_id e = Some x" "e_superseded_at e = None" "\<not> blank_text (t_id t)"
    and ev: "ev_ref ev = \<lparr>ref_runtime = e_runtime e, ref_scope = e_runtime_scope e, ref_external_id = x\<rparr>"
      "case ev_attempt ev of None \<Rightarrow> True | Some k \<Rightarrow> k \<le> e_attempt e"
      "ev_kind ev = Succeeded r" "case r of None \<Rightarrow> True | Some ref \<Rightarrow> \<not> blank_text ref"
  shows "\<exists>w' t' e'. projectOne (Suc n) s mode hook ev w = (Inr (), w') \<and>
    select_execution s eid (at_db w') = Some e' \<and>
    e_state e' = (if e_state e \<in> {E_failed, E_stalled, E_cancelled} then e_state e else E_succeeded) \<and>
    e_result_ref e' = (case r of None \<Rightarrow> e_result_ref e | Some ref \<Rightarrow> Some (btrim ref)) \<and>
    select_task s (e_task_id e) (at_db w') = Some t' \<and>
    t_state t' = (if t_state t \<in> {T_failed, T_cancelled} then t_state t else if mode = Single_execution then T_succeeded
      else if t_state t \<in> {T_pending, T_queued} then T_running else t_state t) \<and>
    t_result_ref t' = (if mode = Single_execution
      then (case r of None \<Rightarrow> t_result_ref t | Some ref \<Rightarrow> Some (coalesce (t_result_ref t) (btrim ref))) else t_result_ref t) \<and>
    projectOne (Suc n) s mode hook ev w' = (Inr (), w')"
proof -
  have ids: "e_id e = eid" "t_id t = e_task_id e" using select_executionD(3) [OF e] select_taskD(3) [OF t] by simp_all
  have v: "sees s w t e"
    using quiet e t bound(3) ids reached_inv [of rs] run by (simp add: sees_def sees_task_def sees_execution_def quiet_def)
  obtain w' t' e' where p: "project_kind (Suc n) s mode (mapExecution e) (Succeeded r) w = (Inr (), w')"
      "sees s w' t' e'" "t_id t' = t_id t" "t_state t' = succeeded_state mode (t_state t)" "e_id e' = e_id e"
      "e_state e' = (if e_state e \<in> {E_failed, E_stalled, E_cancelled} then e_state e else E_succeeded)"
      "e_runtime e' = e_runtime e" "e_runtime_scope e' = e_runtime_scope e" "e_external_id e' = e_external_id e"
      "e_superseded_at e' = e_superseded_at e" "e_attempt e' = e_attempt e"
      "e_result_ref e' = (case r of None \<Rightarrow> e_result_ref e | Some x \<Rightarrow> Some (btrim x))"
      "t_result_ref t' = succeeded_result mode r (t_result_ref t)"
    using project_success_quiet [OF v _ ev(4), of n mode] bound(1) by blast
  have bound': "e_external_id e' = Some x" "e_superseded_at e' = None" using p(9,10) bound(1,2) by simp_all
  have some': "e_external_id e' \<noteq> None" using bound'(1) by simp
  obtain w2 and t2 :: task_row and e2 :: execution_row where q: "project_kind (Suc n) s mode (mapExecution e') (Succeeded r) w' = (Inr (), w2)"
      "t_state t2 = succeeded_state mode (t_state t')"
      "e_state e2 = (if e_state e' \<in> {E_failed, E_stalled, E_cancelled} then e_state e' else E_succeeded)"
      "e_result_ref e2 = (case r of None \<Rightarrow> e_result_ref e' | Some x \<Rightarrow> Some (btrim x))"
      "t_result_ref t2 = succeeded_result mode r (t_result_ref t')"
      "e_state e' = e_state e2 \<and> t_state t' = t_state t2 \<and> e_result_ref e' = e_result_ref e2 \<and> t_result_ref t' = t_result_ref t2 \<longrightarrow> w2 = w'"
    using project_success_quiet [OF p(2) some' ev(4), of n mode] by blast
  have ev': "ev_ref ev = \<lparr>ref_runtime = e_runtime e', ref_scope = e_runtime_scope e', ref_external_id = x\<rparr>"
    "case ev_attempt ev of None \<Rightarrow> True | Some k \<Rightarrow> k \<le> e_attempt e'" using ev(1,2) p(7,8,11) by (simp_all split: option.splits)
  have "w2 = w'" using q(2-6) p(4,6,12,13) by (cases r) (simp_all split: if_splits)
  moreover have "projectOne (Suc n) s mode hook ev w = (Inr (), w')"
    using project_found_quiet [OF v bound(1,2) ev(1,2)] ev(3) p(1) by simp
  moreover have "projectOne (Suc n) s mode hook ev w' = (Inr (), w2)"
    using project_found_quiet [OF p(2) bound' ev'] ev(3) q(1) by simp
  ultimately show ?thesis
    using p ids
    by (intro exI [of _ w'] exI [of _ t'] exI [of _ e'])
      (simp add: sees_def sees_task_def sees_execution_def succeeded_state_def succeeded_result_def)
qed

theorem success_projected_witness:
  "\<exists>w' t' e'. projectOne (Suc 1) acme Single_execution (\<lambda>_. return ()) (job_event (Some 1) (Succeeded (Some ''s3://out''))) bound_world = (Inr (), w') \<and>
    select_execution acme ''e1'' (at_db w') = Some e' \<and> e_state e' = E_succeeded \<and> e_result_ref e' = Some ''s3://out'' \<and>
    select_task acme ''t1'' (at_db w') = Some t' \<and> t_state t' = T_succeeded \<and> t_result_ref t' = Some ''s3://out'' \<and>
    projectOne (Suc 1) acme Single_execution (\<lambda>_. return ()) (job_event (Some 1) (Succeeded (Some ''s3://out''))) w' = (Inr (), w')"
proof -
  let ?e = "the (select_execution acme ''e1'' (at_db bound_world))" and ?t = "the (select_task acme ''t1'' (at_db bound_world))"
  let ?ev = "job_event (Some 1) (Succeeded (Some ''s3://out''))"
  have run: "at_db bound_world = fold serve bound_run empty_db" by (simp add: bound_world_def bound_reached)
  have e: "select_execution acme ''e1'' (at_db bound_world) = Some ?e" and t: "select_task acme (e_task_id ?e) (at_db bound_world) = Some ?t"
    and s: "at_plan bound_world = []" "e_external_id ?e = Some ''job-7''" "e_superseded_at ?e = None" "\<not> blank_text (t_id ?t)"
    and ev: "ev_ref ?ev = \<lparr>ref_runtime = e_runtime ?e, ref_scope = e_runtime_scope ?e, ref_external_id = ''job-7''\<rparr>"
      "case ev_attempt ?ev of None \<Rightarrow> True | Some k \<Rightarrow> k \<le> e_attempt ?e" "ev_kind ?ev = Succeeded (Some ''s3://out'')"
      "case Some ''s3://out'' of None \<Rightarrow> True | Some ref \<Rightarrow> \<not> blank_text ref"
    by code_simp+
  have "e_state ?e \<notin> {E_failed, E_stalled, E_cancelled}" "e_task_id ?e = ''t1''" "t_state ?t \<notin> {T_failed, T_cancelled}"
    "t_result_ref ?t = None" "btrim ''s3://out'' = ''s3://out''" by code_simp+
  then show ?thesis
    using success_projected [OF s(1) run e t s(2-4) ev, of 1 Single_execution "\<lambda>_. return ()"] by simp
qed

section \<open>Where convergence fails\<close>

definition running_run :: "request list" where
  "running_run = bound_run @ [(acme, 150, Execution_call (Transition_execution ''e1'' 2 ''running'' None))]"

definition running_world :: world where
  "running_world = \<lparr>at_db = serve (acme, 150, Execution_call (Transition_execution ''e1'' 2 ''running'' None)) bound_db,
    at_now = 500, at_plan = []\<rparr>"

lemma running_reached: "at_db running_world = fold serve running_run empty_db"
  by (simp add: running_world_def running_run_def bound_reached)

definition attempts_at :: "world \<Rightarrow> (string \<times> int \<times> exec_state) list" where
  "attempts_at w = map (\<lambda>e. (e_id e, e_attempt e, e_state e)) (executions (at_db w))"

text \<open>
  An event of a later attempt does not open that attempt when the earlier one is still running. The projector marks the
  running attempt as stalled, asks for the retry with the version it read before that, and
  takes the version conflict for convergence: the event is spent on the old attempt, which ignores
  it. Only a further event of the new attempt opens it.
\<close>

lemma missed_attempt_not_opened:
  "attempts_at running_world = [(''e1'', 1, E_running)] \<and>
    (case projectOne 2 acme Execution_only (\<lambda>_. return ()) (job_event (Some 2) Started) running_world of (r1, w1) \<Rightarrow>
     case projectOne 2 acme Execution_only (\<lambda>_. return ()) (job_event (Some 2) Started) w1 of (r2, w2) \<Rightarrow>
      (r1, attempts_at w1, r2, attempts_at w2)) =
    (Inr (), [(''e1'', 1, E_stalled)], Inr (), [(''e1'', 1, E_stalled), (''e1#2'', 2, E_running)])"
  by code_simp

text \<open>
  An event that fails takes the events queued behind it with it. An \<open>accepted\<close> event that arrives after the
  attempt started is refused as an invalid transition; a success event that was queued behind it is
  rejected with the same error and never projected, while by itself it is projected.
\<close>

lemma failed_event_blocks_queue:
  "(case project 1 acme Single_execution (\<lambda>_. return ()) (Inr ())
        [job_event (Some 1) Accepted, job_event (Some 1) (Succeeded None)] running_world of (rs, w1) \<Rightarrow>
      (rs, attempts_at w1)) =
    ([Inl (taskError ''RHINOQ_INVALID_EXECUTION_TRANSITION'' ''running -> dispatched''),
      Inl (taskError ''RHINOQ_INVALID_EXECUTION_TRANSITION'' ''running -> dispatched'')], [(''e1'', 1, E_running)]) \<and>
    (case projectOne 1 acme Single_execution (\<lambda>_. return ()) (job_event (Some 1) (Succeeded None)) running_world of (r, w2) \<Rightarrow>
      (r, attempts_at w2)) = (Inr (), [(''e1'', 1, E_succeeded)])"
  by code_simp

end
