(* ===== verification/Work_Client.thy ===== *)
theory Work_Client
  imports Task_Client
begin

text \<open>
  The methods of \<open>PostgresTaskClient\<close> (\<open>postgres/task-client.ts\<close>) for waitpoints, checkpoints, durable steps and
  resource leases, with the validations of \<open>tasks/resource-lease.ts\<close>. \<open>sha256\<close> stands for the digest of the
  platform, as lower-case hexadecimal text. A \<open>jsonb\<close> column is the text the client sent; the driver parses it.
  A text that is no JSON, which such a column cannot hold, reads as null.
\<close>

definition safe_integer :: "int \<Rightarrow> bool" where
  "safe_integer n \<longleftrightarrow> \<bar>n\<bar> \<le> 9007199254740991"

definition json_column :: "string option \<Rightarrow> js_value" where
  "json_column x = (case x of None \<Rightarrow> Null | Some t \<Rightarrow> coalesce (parse_json t) Null)"

text \<open>A column that is null is left out of the mapped object.\<close>

definition json_field :: "string option \<Rightarrow> js_value" where
  "json_field x = (if json_column x = Null then Undefined else json_column x)"

section \<open>Waitpoints\<close>

record task_waitpoint =
  wp_entity_version :: int
  wp_id :: string
  wp_task_id :: string
  wp_key :: string
  wp_kind :: string
  wp_state :: waitpoint_state
  wp_payload_version :: int
  wp_deadline :: "int option"
  wp_resolution :: js_value
  wp_resolved_by :: "string option"
  wp_resolved_at :: "int option"
  wp_created_at :: int
  wp_updated_at :: int

definition mapWaitpoint :: "waitpoint_row \<Rightarrow> task_waitpoint" where
  "mapWaitpoint w = \<lparr>wp_entity_version = w_version w, wp_id = w_id w, wp_task_id = w_task_id w, wp_key = w_key w,
    wp_kind = w_kind w, wp_state = w_state w, wp_payload_version = w_payload_version w, wp_deadline = w_deadline w,
    wp_resolution = json_field (w_resolution w), wp_resolved_by = truthy (w_resolved_by w),
    wp_resolved_at = w_resolved_at w, wp_created_at = w_created_at w, wp_updated_at = w_updated_at w\<rparr>"

definition task_of_scope :: "session \<Rightarrow> string \<Rightarrow> string option \<Rightarrow> string option \<Rightarrow> db \<Rightarrow> bool" where
  "task_of_scope s taskId ownerId tenantId d \<longleftrightarrow>
    select_one s task_table (\<lambda>t. t_id t = taskId \<and> task_scope ownerId tenantId t) (tasks d) \<noteq> None"

definition readWaitpoint :: "session \<Rightarrow> string \<Rightarrow> string option \<Rightarrow> string option \<Rightarrow> task_waitpoint io" where
  "readWaitpoint s wid ownerId tenantId =
    await (query (\<lambda>now d. select_one s waitpoint_table
        (\<lambda>w. w_id w = wid \<and> task_of_scope s (w_task_id w) ownerId tenantId d) (waitpoints d))) (\<lambda>row. case row of
      None \<Rightarrow> throw (Rhinoq_error \<lparr>re_code = ''RHINOQ_WAITPOINT_NOT_FOUND'', re_message = ''Waitpoint not found'',
        re_retryable = False, re_status = Some 404, re_next_action = None\<rparr>)
    | Some w \<Rightarrow> return (mapWaitpoint w))"

definition getTaskWaitpoint :: "session \<Rightarrow> string \<Rightarrow> string \<Rightarrow> string \<Rightarrow> task_waitpoint io" where
  "getTaskWaitpoint s wid ownerId tenantId = readWaitpoint s wid (Some ownerId) (Some tenantId)"

definition createTaskWaitpoint ::
  "session \<Rightarrow> string \<Rightarrow> string \<Rightarrow> string \<Rightarrow> string \<Rightarrow> int \<Rightarrow> int option \<Rightarrow> task_waitpoint io" where
  "createTaskWaitpoint s taskId wid key kind payloadVersion deadline =
    guarded (blank_text taskId \<or> blank_text wid \<or> blank_text key \<or> kind \<notin> {''input'', ''approval'', ''webhook''} \<or>
        payloadVersion \<le> 0) (Type_error ''valid task, waitpoint identity, kind and payloadVersion are required'')
    (await (execute (\<lambda>now. create_waitpoint s now wid taskId key kind payloadVersion deadline))
      (\<lambda>_. readWaitpoint s wid None None))"

definition listTaskWaitpoints :: "session \<Rightarrow> string \<Rightarrow> task_waitpoint list io" where
  "listTaskWaitpoints s taskId = guarded (blank_text taskId) (Type_error ''task id is required'')
    (query (\<lambda>now d. map mapWaitpoint (sort_key (\<lambda>w. (w_created_at w, w_id w))
      (select_rows s waitpoint_table (\<lambda>w. w_task_id w = taskId) (waitpoints d)))))"

definition listTaskWaitpointsForOwner ::
  "session \<Rightarrow> string \<Rightarrow> string \<Rightarrow> int \<Rightarrow> string \<Rightarrow> task_waitpoint list io" where
  "listTaskWaitpointsForOwner s taskId ownerId limit tenantId =
    guarded (blank_text taskId \<or> blank_text ownerId) (Type_error ''task and owner identity are required'')
    (guarded (limit < 1 \<or> limit > 100) (Range_error ''waitpoint limit must be 1..100'')
    (query (\<lambda>now d. map mapWaitpoint (left_text limit (sort_key (\<lambda>w. (- w_created_at w, w_id w))
      (select_rows s waitpoint_table (\<lambda>w. w_task_id w = taskId \<and>
        task_of_scope s taskId (Some ownerId) (Some tenantId) d) (waitpoints d)))))))"

text \<open>\<open>ORDER BY deadline ASC NULLS LAST, updated_at DESC, id\<close>.\<close>

definition listWaitingTaskWaitpointsForOwner ::
  "session \<Rightarrow> string \<Rightarrow> int \<Rightarrow> string \<Rightarrow> task_waitpoint list io" where
  "listWaitingTaskWaitpointsForOwner s ownerId limit tenantId =
    guarded (blank_text ownerId) (Type_error ''owner identity is required'')
    (guarded (limit < 1 \<or> limit > 100) (Range_error ''waitpoint limit must be 1..100'')
    (query (\<lambda>now d. map mapWaitpoint (left_text limit
      (sort_key (\<lambda>w. (w_deadline w = None, coalesce (w_deadline w) 0, - w_updated_at w, w_id w))
        (select_rows s waitpoint_table (\<lambda>w. w_state w = W_waiting \<and>
          task_of_scope s (w_task_id w) (Some ownerId) (Some tenantId) d) (waitpoints d)))))))"

definition resolveTaskWaitpoint ::
  "(string \<Rightarrow> string) \<Rightarrow> session \<Rightarrow> string \<Rightarrow> string \<Rightarrow> int \<Rightarrow> string \<Rightarrow> string option \<Rightarrow> js_value \<Rightarrow> string \<Rightarrow>
    task_waitpoint io" where
  "resolveTaskWaitpoint sha256 s wid ownerId expectedVersion resolutionId actor resolution tenantId = (
    case (if blank_text wid \<or> blank_text ownerId \<or> expectedVersion \<le> 0 \<or> blank_text resolutionId then None
        else stringify resolution) of
      None \<Rightarrow> throw (Type_error ''valid waitpoint resolution is required'')
    | Some encoded \<Rightarrow>
        guarded (byteLength encoded > 65536) (Range_error ''waitpoint resolution must be JSON up to 64 KiB'')
        (await (getTaskWaitpoint s wid ownerId tenantId) (\<lambda>_.
        await (execute (\<lambda>now. resolve_waitpoint s now wid tenantId ownerId expectedVersion resolutionId
            (coalesce (truthy (map_option js_trim actor)) ownerId) encoded (sha256 encoded))) (\<lambda>_.
        readWaitpoint s wid (Some ownerId) (Some tenantId)))))"

definition expireTaskWaitpoints :: "session \<Rightarrow> int \<Rightarrow> int io" where
  "expireTaskWaitpoints s limit = guarded (limit < 1 \<or> limit > 500) (Range_error ''waitpoint expiry limit must be 1..500'')
    (execute (\<lambda>now. expire_waitpoints s now limit))"

section \<open>Checkpoints\<close>

record task_checkpoint =
  ck_id :: string
  ck_task_id :: string
  ck_execution_id :: string
  ck_key :: string
  ck_handler_version :: int
  ck_input_checksum :: string
  ck_state :: js_value
  ck_completed :: bool
  ck_version :: int
  ck_created_at :: int
  ck_updated_at :: int

record checkpoint_request =
  cr_task_id :: string
  cr_handler_version :: int
  cr_input_checksum :: string
  cr_state :: js_value
  cr_completed :: "bool option"
  cr_expected_version :: "int option"

definition mapCheckpoint :: "checkpoint_row \<Rightarrow> task_checkpoint" where
  "mapCheckpoint k = \<lparr>ck_id = k_id k, ck_task_id = k_task_id k, ck_execution_id = k_execution_id k,
    ck_key = k_checkpoint_key k, ck_handler_version = k_handler_version k, ck_input_checksum = k_input_checksum k,
    ck_state = json_column (Some (k_state k)), ck_completed = k_completed k, ck_version = k_version k,
    ck_created_at = k_created_at k, ck_updated_at = k_updated_at k\<rparr>"

definition validateCheckpointRequest :: "string \<Rightarrow> string \<Rightarrow> checkpoint_request \<Rightarrow> 'a io \<Rightarrow> 'a io" where
  "validateCheckpointRequest executionId key r m =
    guarded (blank_text executionId \<or> blank_text key \<or> blank_text (cr_task_id r) \<or>
        \<not> safe_integer (cr_handler_version r) \<or> cr_handler_version r < 1 \<or> \<not> sha256_text (cr_input_checksum r))
      (Type_error ''checkpoint requires task, execution, key, handlerVersion and a lowercase SHA-256 inputChecksum'')
    (guarded (len key > 256) (Range_error ''checkpoint key must be at most 256 characters'')
    (guarded (case cr_expected_version r of None \<Rightarrow> False | Some v \<Rightarrow> \<not> safe_integer v \<or> v < 1)
      (Range_error ''checkpoint expectedVersion must be a positive integer'') m))"

abbreviation "nul \<equiv> CHR 0x00"

definition getTaskCheckpoint :: "session \<Rightarrow> string \<Rightarrow> string \<Rightarrow> task_checkpoint option io" where
  "getTaskCheckpoint s executionId key =
    guarded (blank_text executionId \<or> blank_text key) (Type_error ''checkpoint executionId and key are required'')
    (query (\<lambda>now d. map_option mapCheckpoint (select_one s checkpoint_table
      (\<lambda>k. k_execution_id k = executionId \<and> k_checkpoint_key k = key) (checkpoints d))))"

definition saveTaskCheckpoint ::
  "(string \<Rightarrow> string) \<Rightarrow> session \<Rightarrow> string \<Rightarrow> string \<Rightarrow> checkpoint_request \<Rightarrow> task_checkpoint io" where
  "saveTaskCheckpoint sha256 s executionId key r = validateCheckpointRequest executionId key r (
    case stringify (cr_state r) of
      None \<Rightarrow> throw (Range_error ''checkpoint state must be JSON up to 64 KiB'')
    | Some encoded \<Rightarrow>
        guarded (byteLength encoded > 65536) (Range_error ''checkpoint state must be JSON up to 64 KiB'')
        (await (execute (\<lambda>now. upsert_checkpoint s now
            (''checkpoint-'' @ left_text 32 (sha256 (cr_task_id r @ [nul] @ executionId @ [nul] @ key)))
            (cr_task_id r) executionId key (cr_handler_version r) (cr_input_checksum r) encoded
            (Some (cr_completed r = Some True)) (cr_expected_version r))) (\<lambda>_.
        await (getTaskCheckpoint s executionId key) (\<lambda>saved. case saved of
            None \<Rightarrow> throw (Rhinoq_error \<lparr>re_code = ''RHINOQ_CHECKPOINT_NOT_FOUND'',
              re_message = ''Checkpoint was not returned after save'', re_retryable = False, re_status = None,
              re_next_action = None\<rparr>)
          | Some k \<Rightarrow> return k))))"

definition listTaskCheckpoints :: "session \<Rightarrow> string \<Rightarrow> int \<Rightarrow> task_checkpoint list io" where
  "listTaskCheckpoints s taskId limit = guarded (blank_text taskId) (Type_error ''checkpoint task id is required'')
    (guarded (limit < 1 \<or> limit > 500) (Range_error ''checkpoint limit must be 1..500'')
    (query (\<lambda>now d. map mapCheckpoint (left_text limit (sort_key (\<lambda>k. (k_updated_at k, k_id k))
      (select_rows s checkpoint_table (\<lambda>k. k_task_id k = taskId) (checkpoints d)))))))"

definition deleteTaskCheckpoints :: "session \<Rightarrow> string \<Rightarrow> int io" where
  "deleteTaskCheckpoints s executionId =
    guarded (blank_text executionId) (Type_error ''checkpoint executionId is required'')
    (execute (\<lambda>now. delete_execution_checkpoints s executionId))"

section \<open>Durable steps\<close>

record step_lease =
  sl_step_id :: string
  sl_attempt_id :: string
  sl_owner :: string
  sl_epoch :: int
  sl_expires_at :: int
  sl_attempt :: int

record step_request =
  sq_task_id :: string
  sq_execution_id :: string
  sq_item_key :: string
  sq_task_version :: int
  sq_step_key :: string
  sq_step_version :: int
  sq_owner :: string
  sq_lease_ms :: int
  sq_max_attempts :: int

record step_record =
  sr_id :: string
  sr_task_id :: string
  sr_execution_id :: "string option"
  sr_item_key :: string
  sr_key :: string
  sr_task_version :: int
  sr_step_version :: int
  sr_state :: step_state
  sr_result :: "js_value option"
  sr_result_ref :: "string option"
  sr_error :: "string option"
  sr_attempt :: int
  sr_created_at :: int
  sr_updated_at :: int
  sr_completed_at :: "int option"

datatype acquire_result =
    Step_reused step_state "js_value option" "string option"
  | Step_acquired step_state step_lease

definition encodeDurableStepResult :: "js_value \<Rightarrow> client_error + string" where
  "encodeDurableStepResult v = (
    let encoded = print_value (Obj [(''value'', v)]) in
    if byteLength encoded > 65536
    then Inl (Range_error ''durable Step result must be JSON up to 64 KiB; return an artifact for larger output'')
    else Inr encoded)"

definition decodeDurableStepResult :: "js_value \<Rightarrow> client_error + js_value" where
  "decodeDurableStepResult v = (case own_property ''value'' v of
      Some x \<Rightarrow> Inr x
    | None \<Rightarrow> Inl (Type_error ''PostgreSQL returned an invalid durable Step result''))"

definition optionalResultRef :: "string option \<Rightarrow> client_error + string option" where
  "optionalResultRef ref = (case ref of
      None \<Rightarrow> Inr None
    | Some x \<Rightarrow> (let r = js_trim x in
        if r = '''' \<or> len r > 2048
        then Inl (Range_error ''durable Step resultRef must be 1..2048 characters when supplied'')
        else Inr (Some r)))"

definition durableStepFailureReason :: "client_error \<Rightarrow> string" where
  "durableStepFailureReason e = (
    let x = left_text 2048 (js_trim (error_name e @ '': '' @ error_message e)) in
    if x = '''' then ''Step handler failed.'' else x)"

definition mapDurableStep :: "step_row \<Rightarrow> client_error + step_record" where
  "mapDurableStep r = (
    let decoded = (if json_column (ds_result r) = Null then Inr None
      else map_sum id Some (decodeDurableStepResult (json_column (ds_result r)))) in
    case decoded of
      Inl e \<Rightarrow> Inl e
    | Inr res \<Rightarrow> Inr \<lparr>sr_id = ds_id r, sr_task_id = ds_task_id r, sr_execution_id = nullif (ds_execution_id r) '''',
        sr_item_key = ds_item_key r, sr_key = ds_step_key r, sr_task_version = ds_task_version r,
        sr_step_version = ds_step_version r, sr_state = ds_state r, sr_result = res,
        sr_result_ref = truthy (ds_result_ref r), sr_error = truthy (ds_failure_reason r),
        sr_attempt = ds_attempt r, sr_created_at = ds_created_at r, sr_updated_at = ds_updated_at r,
        sr_completed_at = ds_completed_at r\<rparr>)"

definition mapDurableStepAcquire :: "step_grant \<Rightarrow> client_error + acquire_result" where
  "mapDurableStepAcquire g = (case g of
      Reused r \<Rightarrow> map_sum id (\<lambda>x. Step_reused (sr_state x) (sr_result x) (sr_result_ref x)) (mapDurableStep r)
    | Acquired r a \<Rightarrow> (case mapDurableStep r of
        Inl e \<Rightarrow> Inl e
      | Inr x \<Rightarrow>
          if da_id a = '''' \<or> da_lease_owner a = ''''
          then Inl (Type_error ''PostgreSQL returned an invalid durable Step lease'')
          else Inr (Step_acquired (sr_state x) \<lparr>sl_step_id = sr_id x, sl_attempt_id = da_id a, sl_owner = da_lease_owner a,
            sl_epoch = da_lease_epoch a, sl_expires_at = da_lease_until a, sl_attempt = sr_attempt x\<rparr>)))"

definition positive_field :: "string \<Rightarrow> int \<Rightarrow> 'a io \<Rightarrow> 'a io" where
  "positive_field label n = guarded (\<not> safe_integer n \<or> n < 1)
    (Range_error (''durable Step '' @ label @ '' must be a positive integer''))"

definition validateDurableStepAcquire :: "step_request \<Rightarrow> 'a io \<Rightarrow> 'a io" where
  "validateDurableStepAcquire q m =
    guarded (blank_text (sq_task_id q) \<or> blank_text (sq_execution_id q) \<or> blank_text (sq_item_key q) \<or>
        blank_text (sq_step_key q) \<or> blank_text (sq_owner q))
      (Type_error ''durable Step requires task, execution, item, key and lease owner'')
    (guarded (len (sq_item_key q) > 256 \<or> len (sq_step_key q) > 256)
      (Range_error ''durable Step item and key must be at most 256 characters'')
    (positive_field ''taskVersion'' (sq_task_version q) (positive_field ''stepVersion'' (sq_step_version q)
    (positive_field ''leaseMs'' (sq_lease_ms q) (positive_field ''maxAttempts'' (sq_max_attempts q)
    (guarded (sq_lease_ms q < 1000 \<or> sq_lease_ms q > 3600000) (Range_error ''durable Step leaseMs must be 1000..3600000'')
    (guarded (sq_max_attempts q > 100) (Range_error ''durable Step maxAttempts must be 1..100'') m)))))))"

definition validateDurableStepLease :: "step_lease \<Rightarrow> 'a io \<Rightarrow> 'a io" where
  "validateDurableStepLease l = guarded (blank_text (sl_step_id l) \<or> blank_text (sl_attempt_id l) \<or>
      blank_text (sl_owner l) \<or> \<not> safe_integer (sl_epoch l) \<or> sl_epoch l < 1)
    (Type_error ''a fenced durable Step lease is required'')"

definition durable_step_id :: "(string \<Rightarrow> string) \<Rightarrow> step_request \<Rightarrow> string" where
  "durable_step_id sha256 q = ''step-'' @
    left_text 32 (sha256 (sq_task_id q @ [nul] @ sq_item_key q @ [nul] @ sq_step_key q))"

definition acquireDurableStep :: "(string \<Rightarrow> string) \<Rightarrow> session \<Rightarrow> step_request \<Rightarrow> acquire_result io" where
  "acquireDurableStep sha256 s q = validateDurableStepAcquire q
    (await (execute (\<lambda>now. acquire_durable_step s now (durable_step_id sha256 q) (sq_task_id q) (sq_execution_id q)
        (Some (sq_item_key q)) (sq_task_version q) (sq_step_key q) (sq_step_version q) (sq_owner q)
        (sq_lease_ms q) (sq_max_attempts q))) (\<lambda>g. of_sum (mapDurableStepAcquire g)))"

definition step_not_returned :: "string \<Rightarrow> client_error" where
  "step_not_returned m = Rhinoq_error \<lparr>re_code = ''RHINOQ_DURABLE_STEP_NOT_RETURNED'', re_message = m,
    re_retryable = False, re_status = None, re_next_action = None\<rparr>"

definition renewDurableStep :: "session \<Rightarrow> step_lease \<Rightarrow> int \<Rightarrow> step_lease io" where
  "renewDurableStep s l leaseMs = validateDurableStepLease l
    (guarded (\<not> safe_integer leaseMs \<or> leaseMs < 1000 \<or> leaseMs > 3600000)
      (Range_error ''durable Step leaseMs must be 1000..3600000'')
    (await (execute (\<lambda>now. renew_durable_step s now (sl_step_id l) (sl_attempt_id l) (sl_owner l) (sl_epoch l) leaseMs))
      (\<lambda>a. guarded (da_id a \<noteq> sl_attempt_id l \<or> da_lease_owner a \<noteq> sl_owner l \<or> da_lease_epoch a \<noteq> sl_epoch l)
        (step_not_returned ''Durable Step lease was not returned after renewal'')
        (return (l\<lparr>sl_expires_at := da_lease_until a\<rparr>)))))"

definition completeDurableStep :: "session \<Rightarrow> step_lease \<Rightarrow> js_value \<Rightarrow> string option \<Rightarrow> step_record io" where
  "completeDurableStep s l v resultRef = validateDurableStepLease l
    (await (of_sum (encodeDurableStepResult v)) (\<lambda>encoded.
    await (of_sum (optionalResultRef resultRef)) (\<lambda>ref.
    await (execute (\<lambda>now. complete_durable_step s now (sl_step_id l) (sl_attempt_id l) (sl_owner l) (sl_epoch l) encoded ref))
      (\<lambda>r. of_sum (mapDurableStep r)))))"

definition failDurableStep :: "session \<Rightarrow> step_lease \<Rightarrow> client_error \<Rightarrow> step_record io" where
  "failDurableStep s l e = validateDurableStepLease l
    (await (execute (\<lambda>now. fail_durable_step s now (sl_step_id l) (sl_attempt_id l) (sl_owner l) (sl_epoch l)
        (Some (durableStepFailureReason e)))) (\<lambda>r. of_sum (mapDurableStep r)))"

definition cancelDurableStep :: "session \<Rightarrow> step_lease \<Rightarrow> string option \<Rightarrow> step_record io" where
  "cancelDurableStep s l reason = validateDurableStepLease l
    (guarded (case reason of None \<Rightarrow> False | Some x \<Rightarrow> len x > 2048)
      (Range_error ''durable Step cancellation reason must be at most 2048 characters'')
    (await (execute (\<lambda>now. cancel_durable_step s now (sl_step_id l) (sl_attempt_id l) (sl_owner l) (sl_epoch l) reason))
      (\<lambda>r. of_sum (mapDurableStep r))))"

fun map_all :: "('r \<Rightarrow> client_error + 'a) \<Rightarrow> 'r list \<Rightarrow> client_error + 'a list" where
  "map_all f [] = Inr []"
| "map_all f (r # rs) = (case f r of
      Inl e \<Rightarrow> Inl e
    | Inr x \<Rightarrow> (case map_all f rs of Inl e \<Rightarrow> Inl e | Inr xs \<Rightarrow> Inr (x # xs)))"

definition listDurableSteps :: "session \<Rightarrow> string \<Rightarrow> string option \<Rightarrow> step_record list io" where
  "listDurableSteps s taskId itemKey = guarded (blank_text taskId) (Type_error ''durable step task id is required'')
    (guarded (case itemKey of None \<Rightarrow> False | Some x \<Rightarrow> blank_text x \<or> len x > 256)
      (Range_error ''durable step itemKey must be 1..256 characters'')
    (await (query (\<lambda>now d. sort_key (\<lambda>r. (ds_item_key r, ds_created_at r, ds_id r))
        (select_rows s step_table (\<lambda>r. ds_task_id r = taskId \<and>
          (case truthy (map_option js_trim itemKey) of None \<Rightarrow> True | Some x \<Rightarrow> ds_item_key r = x)) (steps d))))
      (\<lambda>rows. of_sum (map_all mapDurableStep rows))))"

section \<open>Resource leases\<close>

record resource_vector =
  rv_cpu :: "int option"
  rv_memory_bytes :: "int option"
  rv_disk_bytes :: "int option"
  rv_network :: "int option"

record pool_options =
  po_key :: string
  po_capacity :: resource_vector
  po_lease_ms :: "int option"
  po_retry_after_ms :: "int option"

record resource_pool =
  pl_key :: string
  pl_capacity :: resources
  pl_lease_ms :: int
  pl_retry_after_ms :: int

record resource_lease =
  rl_id :: string
  rl_pool_key :: string
  rl_task_id :: string
  rl_execution_id :: string
  rl_owner :: string
  rl_epoch :: int
  rl_resources :: resources
  rl_expires_at :: int

definition amount_ok :: "int \<Rightarrow> bool" where
  "amount_ok n \<longleftrightarrow> safe_integer n \<and> n \<ge> 0"

definition normalizeRhinoQResourceVector :: "resource_vector \<Rightarrow> string \<Rightarrow> client_error + resources" where
  "normalizeRhinoQResourceVector v label = (
    let r = \<lparr>r_cpu = coalesce (rv_cpu v) 0, r_memory = coalesce (rv_memory_bytes v) 0,
        r_disk = coalesce (rv_disk_bytes v) 0, r_network = coalesce (rv_network v) 0\<rparr>;
      bad = (\<lambda>nm. Inl (Range_error (label @ ''.'' @ nm @ '' must be a non-negative safe integer''))) in
    if \<not> amount_ok (r_cpu r) then bad ''cpu''
    else if \<not> amount_ok (r_memory r) then bad ''memoryBytes''
    else if \<not> amount_ok (r_disk r) then bad ''diskBytes''
    else if \<not> amount_ok (r_network r) then bad ''network''
    else Inr r)"

definition requiresRhinoQResources :: "resources \<Rightarrow> bool" where
  "requiresRhinoQResources r \<longleftrightarrow> r_cpu r > 0 \<or> r_memory r > 0 \<or> r_disk r > 0 \<or> r_network r > 0"

definition validateRhinoQResourcePool :: "pool_options \<Rightarrow> client_error + resource_pool" where
  "validateRhinoQResourcePool p = (
    let key = js_trim (po_key p); leaseMs = coalesce (po_lease_ms p) 60000; retryAfterMs = coalesce (po_retry_after_ms p) 5000 in
    if key = '''' \<or> len key > 128 then Inl (Range_error ''resource pool key must be 1..128 characters'')
    else (case normalizeRhinoQResourceVector (po_capacity p) ''resource pool capacity'' of
        Inl e \<Rightarrow> Inl e
      | Inr capacity \<Rightarrow>
          if \<not> requiresRhinoQResources capacity
          then Inl (Range_error ''resource pool capacity must contain at least one positive dimension'')
          else if \<not> safe_integer leaseMs \<or> leaseMs < 1000 \<or> leaseMs > 3600000
          then Inl (Range_error ''resource pool leaseMs must be 1000..3600000'')
          else if \<not> safe_integer retryAfterMs \<or> retryAfterMs < 1 \<or> retryAfterMs > 3600000
          then Inl (Range_error ''resource pool retryAfterMs must be 1..3600000'')
          else Inr \<lparr>pl_key = key, pl_capacity = capacity, pl_lease_ms = leaseMs, pl_retry_after_ms = retryAfterMs\<rparr>))"

definition mapResourceLease :: "lease_row \<Rightarrow> resource_lease" where
  "mapResourceLease l = \<lparr>rl_id = l_id l, rl_pool_key = l_pool_key l, rl_task_id = l_task_id l,
    rl_execution_id = l_execution_id l, rl_owner = l_lease_owner l, rl_epoch = l_lease_epoch l,
    rl_resources = l_request l, rl_expires_at = l_lease_until l\<rparr>"

definition resourceIdentifier :: "string \<Rightarrow> string \<Rightarrow> client_error + string" where
  "resourceIdentifier x label = (let r = js_trim x in
    if r = '''' \<or> len r > 512 then Inl (Range_error (label @ '' must be 1..512 characters'')) else Inr r)"

definition acquireResourceLease ::
  "(string \<Rightarrow> string) \<Rightarrow> session \<Rightarrow> pool_options \<Rightarrow> string \<Rightarrow> string \<Rightarrow> string \<Rightarrow> resource_vector \<Rightarrow> resource_lease io" where
  "acquireResourceLease sha256 s pool taskId executionId owner wanted =
    await (of_sum (validateRhinoQResourcePool pool)) (\<lambda>pool.
    await (of_sum (resourceIdentifier taskId ''resource taskId'')) (\<lambda>taskId.
    await (of_sum (resourceIdentifier executionId ''resource executionId'')) (\<lambda>executionId.
    await (of_sum (resourceIdentifier owner ''resource lease owner'')) (\<lambda>owner.
    await (of_sum (normalizeRhinoQResourceVector wanted ''resource request'')) (\<lambda>wanted.
    guarded (r_cpu wanted = 0 \<and> r_memory wanted = 0 \<and> r_disk wanted = 0 \<and> r_network wanted = 0)
      (Range_error ''resource request must contain at least one positive dimension'')
    (try_catch
      (await (execute (\<lambda>now. acquire_resource_lease s now
          (''resource-'' @ left_text 32 (sha256 (taskId @ [nul] @ executionId @ [nul] @ pl_key pool)))
          (pl_key pool) taskId executionId owner (pl_capacity pool) wanted (pl_lease_ms pool)))
        (\<lambda>l. return (mapResourceLease l)))
      (\<lambda>e. if hasCode e ''RHINOQ_RESOURCE_UNAVAILABLE''
        then throw (Resource_unavailable (pl_key pool) wanted (pl_retry_after_ms pool)) else throw e)))))))"

definition validateResourceLease :: "resource_lease \<Rightarrow> client_error + unit" where
  "validateResourceLease l = (
    case map_all (\<lambda>(x, label). resourceIdentifier x label)
      [(rl_id l, ''resource lease id''), (rl_pool_key l, ''resource lease pool key''),
       (rl_task_id l, ''resource lease task id''), (rl_execution_id l, ''resource lease execution id''),
       (rl_owner l, ''resource lease owner'')] of
      Inl e \<Rightarrow> Inl e
    | Inr _ \<Rightarrow>
        if \<not> safe_integer (rl_epoch l) \<or> rl_epoch l < 1
        then Inl (Range_error ''resource lease epoch must be a positive safe integer'')
        else map_sum id (\<lambda>_. ()) (normalizeRhinoQResourceVector \<lparr>rv_cpu = Some (r_cpu (rl_resources l)),
          rv_memory_bytes = Some (r_memory (rl_resources l)), rv_disk_bytes = Some (r_disk (rl_resources l)),
          rv_network = Some (r_network (rl_resources l))\<rparr> ''resource lease resources''))"

definition renewResourceLease :: "session \<Rightarrow> resource_lease \<Rightarrow> int \<Rightarrow> resource_lease io" where
  "renewResourceLease s l leaseMs = await (of_sum (validateResourceLease l)) (\<lambda>_.
    guarded (\<not> safe_integer leaseMs \<or> leaseMs < 1000 \<or> leaseMs > 3600000)
      (Range_error ''resource leaseMs must be 1000..3600000'')
    (await (execute (\<lambda>now. renew_resource_lease s now (rl_id l) (rl_owner l) (rl_epoch l) leaseMs)) (\<lambda>row.
      guarded (l_id row \<noteq> rl_id l \<or> l_lease_owner row \<noteq> rl_owner l \<or> l_lease_epoch row \<noteq> rl_epoch l)
        (Rhinoq_error \<lparr>re_code = ''RHINOQ_RESOURCE_LEASE_NOT_RETURNED'',
          re_message = ''Resource lease was not returned after renewal'', re_retryable = False, re_status = None,
          re_next_action = None\<rparr>)
        (return (mapResourceLease row)))))"

definition releaseResourceLease :: "session \<Rightarrow> resource_lease \<Rightarrow> unit io" where
  "releaseResourceLease s l = await (of_sum (validateResourceLease l)) (\<lambda>_.
    execute (\<lambda>now. release_resource_lease s now (rl_id l) (rl_owner l) (rl_epoch l)))"

section \<open>Every method is a run\<close>

lemma serve_work_calls:
  "serve (s, now, Waitpoint_call (Create_waitpoint a b c e v io)) = committed (create_waitpoint s now a b c e v io)"
  "serve (s, now, Waitpoint_call (Resolve_waitpoint a b c v e f g h)) = committed (resolve_waitpoint s now a b c v e f g h)"
  "serve (s, now, Waitpoint_call (Expire_waitpoints v)) = committed (expire_waitpoints s now v)"
  "serve (s, now, Checkpoint_call (Upsert_checkpoint a b c e v f g bo io)) = committed (upsert_checkpoint s now a b c e v f g bo io)"
  "serve (s, now, Checkpoint_call (Delete_execution_checkpoints a)) = committed (delete_execution_checkpoints s a)"
  "serve (s, now, Step_call (Acquire_durable_step a b c so v e v2 f v3 v4)) =
    committed (acquire_durable_step s now a b c so v e v2 f v3 v4)"
  "serve (s, now, Step_call (Renew_durable_step a b c v v2)) = committed (renew_durable_step s now a b c v v2)"
  "serve (s, now, Step_call (Complete_durable_step a b c v e so)) = committed (complete_durable_step s now a b c v e so)"
  "serve (s, now, Step_call (Fail_durable_step a b c v so)) = committed (fail_durable_step s now a b c v so)"
  "serve (s, now, Step_call (Cancel_durable_step a b c v so)) = committed (cancel_durable_step s now a b c v so)"
  "serve (s, now, Lease_call (Acquire_resource_lease a b c e f r q v)) = committed (acquire_resource_lease s now a b c e f r q v)"
  "serve (s, now, Lease_call (Renew_resource_lease a b v v2)) = committed (renew_resource_lease s now a b v v2)"
  "serve (s, now, Lease_call (Release_resource_lease a b v)) = committed (release_resource_lease s now a b v)"
  by (simp_all add: serve_def fun_eq_iff)

lemmas runs_work_statements [client_runs] = serve_work_calls [THEN sym, THEN fun_cong, THEN runs_call]

lemma runs_work_reads [client_runs]:
  "runs (readWaitpoint s a o1 o2)" "runs (getTaskCheckpoint s a b)" "runs (listDurableSteps s a o1)"
  unfolding readWaitpoint_def getTaskCheckpoint_def listDurableSteps_def by (intro client_runs)+

lemma runs_waitpoint_methods [client_runs]:
  "runs (createTaskWaitpoint s a b c e v io)" "runs (resolveTaskWaitpoint h s a b v c o1 j e)" "runs (expireTaskWaitpoints s v)"
  unfolding createTaskWaitpoint_def resolveTaskWaitpoint_def expireTaskWaitpoints_def getTaskWaitpoint_def
  by (intro client_runs)+

lemma runs_checkpoint_methods [client_runs]:
  "runs (saveTaskCheckpoint h s a b r)" "runs (deleteTaskCheckpoints s a)"
  unfolding saveTaskCheckpoint_def validateCheckpointRequest_def deleteTaskCheckpoints_def by (intro client_runs)+

lemma runs_step_methods [client_runs]:
  "runs (acquireDurableStep h s q)" "runs (renewDurableStep s l v)" "runs (completeDurableStep s l j o1)"
  "runs (failDurableStep s l e)" "runs (cancelDurableStep s l o1)"
  unfolding acquireDurableStep_def renewDurableStep_def completeDurableStep_def failDurableStep_def cancelDurableStep_def
    validateDurableStepAcquire_def validateDurableStepLease_def positive_field_def
  by (intro client_runs)+

lemma runs_lease_methods [client_runs]:
  "runs (acquireResourceLease h s p a b c v)" "runs (renewResourceLease s l ms)" "runs (releaseResourceLease s l)"
  unfolding acquireResourceLease_def renewResourceLease_def releaseResourceLease_def by (intro client_runs)+

end
