(* ===== verification/Durable_Context.thy ===== *)
theory Durable_Context
  imports Work_Client
begin

text \<open>
  \<open>ctx.step\<close> of \<open>createDurableTaskContext\<close> (\<open>tasks/durable.ts\<close>) over the durable-step methods of the Task client. The
  callback is a method of its own and may use the client. The renewals that fell due while it ran are
  made before its result is looked at; \<open>beats\<close> is their number. An abort signal is the reason it carries before the
  callback and after it, none when it is not aborted. \<open>ctx.effect\<close> goes to the effect ledger of the Gateway, which is
  another service, and is not part of this model.
\<close>

definition required :: "string \<Rightarrow> string \<Rightarrow> client_error + string" where
  "required x label = (let r = js_trim x in if r = '''' then Inl (Type_error (label @ '' is required'')) else Inr r)"

definition stableKey :: "string \<Rightarrow> string \<Rightarrow> int \<Rightarrow> client_error + string" where
  "stableKey x label maxLength = (case required x label of
      Inl e \<Rightarrow> Inl e
    | Inr r \<Rightarrow> if len r > maxLength then Inl (Range_error (label @ '' must be at most '' @ int_text maxLength @ '' characters''))
        else Inr r)"

definition positive_integer :: "int \<Rightarrow> string \<Rightarrow> client_error + int" where
  "positive_integer n label =
    (if \<not> safe_integer n \<or> n < 1 then Inl (Range_error (label @ '' must be a positive integer'')) else Inr n)"

definition bounded :: "int \<Rightarrow> int \<Rightarrow> int \<Rightarrow> string \<Rightarrow> client_error + int" where
  "bounded n lo hi label =
    (if \<not> safe_integer n \<or> n < lo \<or> n > hi
     then Inl (Range_error (label @ '' must be '' @ int_text lo @ ''..'' @ int_text hi)) else Inr n)"

section \<open>The context\<close>

record durable_context =
  cx_task_id :: string
  cx_execution_id :: string
  cx_item_key :: string
  cx_task_version :: int
  cx_worker_id :: string
  cx_step_lease_ms :: int
  cx_has_steps :: bool

record context_options =
  co_task_id :: string
  co_execution_id :: string
  co_item_key :: "string option"
  co_task_version :: int
  co_worker_id :: "string option"
  co_step_lease_ms :: "int option"
  co_has_steps :: bool

definition DEFAULT_STEP_LEASE_MS :: int where
  "DEFAULT_STEP_LEASE_MS = 60000"

text \<open>\<open>pid\<close> is the text \<open>node:<process id>\<close>.\<close>

definition createDurableTaskContext :: "string \<Rightarrow> context_options \<Rightarrow> client_error + durable_context" where
  "createDurableTaskContext pid c = (case required (co_task_id c) ''durable taskId'' of
      Inl e \<Rightarrow> Inl e
    | Inr taskId \<Rightarrow> (case required (co_execution_id c) ''durable executionId'' of
        Inl e \<Rightarrow> Inl e
      | Inr executionId \<Rightarrow> (case positive_integer (co_task_version c) ''durable task version'' of
          Inl e \<Rightarrow> Inl e
        | Inr taskVersion \<Rightarrow> (case bounded (coalesce (co_step_lease_ms c) DEFAULT_STEP_LEASE_MS) 1000 3600000 ''stepLeaseMs'' of
            Inl e \<Rightarrow> Inl e
          | Inr leaseMs \<Rightarrow> Inr \<lparr>cx_task_id = taskId, cx_execution_id = executionId,
              cx_item_key = coalesce (truthy (map_option js_trim (co_item_key c))) ''default'',
              cx_task_version = taskVersion,
              cx_worker_id = coalesce (truthy (map_option js_trim (co_worker_id c))) pid,
              cx_step_lease_ms = leaseMs, cx_has_steps = co_has_steps c\<rparr>))))"

section \<open>Keeping the lease\<close>

text \<open>The lease after the renewals, and the error that ended them.\<close>

fun keepStepLeaseAlive :: "nat \<Rightarrow> session \<Rightarrow> int \<Rightarrow> step_lease \<Rightarrow> (step_lease \<times> client_error option) io" where
  "keepStepLeaseAlive 0 s leaseMs l = return (l, None)"
| "keepStepLeaseAlive (Suc n) s leaseMs l = try_catch
    (await (renewDurableStep s l leaseMs) (\<lambda>renewed. keepStepLeaseAlive n s leaseMs renewed))
    (\<lambda>e. return (l, Some e))"

definition lease_lost :: "string \<Rightarrow> client_error" where
  "lease_lost stepId = Named_error ''DurableStepLeaseLostError'' (''Durable Step '' @ quoted stepId @
    '' lost its lease before it could be committed. The result was not persisted.'')"

definition user_cancellation :: "string \<Rightarrow> client_error" where
  "user_cancellation reason = Named_error ''RhinoQUserCancellationError'' reason"

definition isRhinoQUserCancellation :: "client_error \<Rightarrow> bool" where
  "isRhinoQUserCancellation e = (case e of Named_error nm _ \<Rightarrow> nm = ''RhinoQUserCancellationError'' | _ \<Rightarrow> False)"

definition artifactResultReference :: "js_value \<Rightarrow> string option" where
  "artifactResultReference v = (case (own_property ''id'' v, own_property ''taskId'' v, own_property ''contentType'' v, own_property ''name'' v) of
      (Some (Str i), Some (Str _), Some (Str _), Some (Str _)) \<Rightarrow> Some (''artifact:'' @ i)
    | _ \<Rightarrow> None)"

section \<open>A step\<close>

record step_options =
  so_version :: "int option"
  so_timeout_ms :: "int option"
  so_attempts :: "int option"

definition normalizeStepArguments :: "step_options \<Rightarrow> 'a io \<Rightarrow> 'a io" where
  "normalizeStepArguments opts m =
    (let check = (\<lambda>x f k. case x of None \<Rightarrow> k | Some n \<Rightarrow> await (of_sum (f n)) (\<lambda>_. k)) in
    check (so_version opts) (\<lambda>n. positive_integer n ''step version'')
    (check (so_timeout_ms opts) (\<lambda>n. bounded n 1 86400000 ''step timeoutMs'')
    (check (so_attempts opts) (\<lambda>n. bounded n 1 100 ''step retry attempts'') m)))"

text \<open>What surrounds one call of the callback.\<close>

record surroundings =
  su_beats :: nat
  su_abort_before :: "client_error option"
  su_abort_after :: "client_error option"

definition throwIfAborted :: "client_error option \<Rightarrow> unit io" where
  "throwIfAborted reason = (case reason of None \<Rightarrow> return () | Some e \<Rightarrow> throw e)"

text \<open>A failure is recorded under the lease as it is by then; when recording fails too, the first error stays.\<close>

definition record_failure :: "session \<Rightarrow> step_lease \<Rightarrow> client_error \<Rightarrow> 'a io" where
  "record_failure s l e = await (try_catch
      (await (if isRhinoQUserCancellation e then cancelDurableStep s l (Some (error_message e)) else failDurableStep s l e)
        (\<lambda>_. return ()))
      (\<lambda>_. return ())) (\<lambda>_. throw e)"

text \<open>\<open>outcome\<close> turns a rejection into a value, so that the renewals and the records follow either way.\<close>

definition outcome :: "'a io \<Rightarrow> (client_error + 'a) io" where
  "outcome m w = (case m w of (r, w') \<Rightarrow> (Inr r, w'))"

definition run_step :: "session \<Rightarrow> int \<Rightarrow> surroundings \<Rightarrow> js_value io \<Rightarrow> step_lease \<Rightarrow> js_value io" where
  "run_step s leaseMs env run l =
    await (outcome (await (throwIfAborted (su_abort_before env)) (\<lambda>_. run))) (\<lambda>r.
    await (keepStepLeaseAlive (su_beats env) s leaseMs l) (\<lambda>(l', failure).
    case r of
      Inl e \<Rightarrow> record_failure s l' e
    | Inr v \<Rightarrow> try_catch
        (await (case failure of None \<Rightarrow> return () | Some _ \<Rightarrow> throw (lease_lost (sl_step_id l'))) (\<lambda>_.
         await (throwIfAborted (su_abort_after env)) (\<lambda>_.
         await (completeDurableStep s l' v (artifactResultReference v)) (\<lambda>_. return v))))
        (record_failure s l')))"

definition step_request_of :: "durable_context \<Rightarrow> step_options \<Rightarrow> string \<Rightarrow> step_request" where
  "step_request_of cx opts stepKey = \<lparr>sq_task_id = cx_task_id cx, sq_execution_id = cx_execution_id cx,
    sq_item_key = cx_item_key cx, sq_task_version = cx_task_version cx, sq_step_key = stepKey,
    sq_step_version = coalesce (so_version opts) 1, sq_owner = cx_worker_id cx, sq_lease_ms = cx_step_lease_ms cx,
    sq_max_attempts = coalesce (so_attempts opts) 1\<rparr>"

definition declared_step ::
  "(string \<Rightarrow> string) \<Rightarrow> session \<Rightarrow> durable_context \<Rightarrow> surroundings \<Rightarrow> step_options \<Rightarrow> js_value io \<Rightarrow> string \<Rightarrow> js_value io" where
  "declared_step sha256 s cx env opts run stepKey = normalizeStepArguments opts
    (guarded (\<not> cx_has_steps cx) (Type_error ''ctx.step() requires the PostgreSQL Durable Step profile'')
    (await (acquireDurableStep sha256 s (step_request_of cx opts stepKey)) (\<lambda>g. case g of
        Step_reused _ res _ \<Rightarrow> return (coalesce res Undefined)
      | Step_acquired _ l \<Rightarrow> run_step s (cx_step_lease_ms cx) env run l)))"

text \<open>The keys declared in this pass so far, and the step. A key counts as declared once it is well formed.\<close>

definition ctx_step ::
  "(string \<Rightarrow> string) \<Rightarrow> session \<Rightarrow> durable_context \<Rightarrow> surroundings \<Rightarrow> string list \<Rightarrow> string \<Rightarrow> step_options \<Rightarrow> js_value io \<Rightarrow>
    string list \<times> js_value io" where
  "ctx_step sha256 s cx env declared key opts run = (case stableKey key ''step'' 256 of
      Inl e \<Rightarrow> (declared, throw e)
    | Inr stepKey \<Rightarrow>
        if stepKey \<in> set declared
        then (declared, throw (Js_error (''Step '' @ quoted stepKey @ '' was declared twice in Task '' @ quoted (cx_task_id cx) @
          ''. Each durable step needs a stable unique key; use a different key or reuse the value from the first call.'')))
        else (stepKey # declared, declared_step sha256 s cx env opts run stepKey))"

section \<open>A step is a run\<close>

lemma runs_outcome [client_runs]: "runs m \<Longrightarrow> runs (outcome m)"
  by (simp add: runs_def outcome_def split_beta)

lemma runs_keepStepLeaseAlive [client_runs]: "runs (keepStepLeaseAlive n s ms l)"
  by (induction n arbitrary: l) (auto intro!: client_runs)

lemma runs_run_step [client_runs]: "runs run \<Longrightarrow> runs (run_step s ms env run l)"
  unfolding run_step_def record_failure_def throwIfAborted_def by (intro client_runs)

lemma runs_declared_step [client_runs]:
  assumes "runs run"
  shows "runs (declared_step h s cx env opts run k)"
proof -
  have "runs (case g of Step_reused st res ref \<Rightarrow> return (coalesce res Undefined)
      | Step_acquired st l \<Rightarrow> run_step s (cx_step_lease_ms cx) env run l)" for g
    by (cases g) (simp_all add: runs_return runs_run_step assms)
  then show ?thesis unfolding declared_step_def normalizeStepArguments_def Let_def by (intro client_runs)
qed

end
