(* ===== verification/Durable_Properties.thy ===== *)
theory Durable_Properties
  imports Durable_Context Lease_Runs
begin

text \<open>
  What \<open>ctx.step\<close> gives a handler: the value of a completed step comes back in every later pass, without
  running the callback.
\<close>

section \<open>Methods that returned\<close>

lemma await_InrE:
  assumes "await m f w = (Inr y, w2)"
  obtains x w1 where "m w = (Inr x, w1)" "f x w1 = (Inr y, w2)"
  using assms by (auto simp: await_def split: prod.split_asm sum.split_asm)

lemma guarded_InrE:
  assumes "guarded b e m w = (Inr y, w1)"
  obtains "\<not> b" "m w = (Inr y, w1)"
  using assms by (auto simp: guarded_def throw_def split: if_split_asm)

lemma of_sum_Inr: "of_sum r w = (Inr y, w1) \<longleftrightarrow> r = Inr y \<and> w1 = w"
  by (cases r) (auto simp: of_sum_def throw_def return_def)

lemma execute_InrE:
  assumes "execute f w = (Inr y, w1)"
  obtains "f (at_now (turn w)) (at_db (turn w)) = Inr (y, at_db w1)" "at_plan w1 = at_plan (turn w)"
  using assms by (auto simp: execute_def Let_def split: sum.split_asm)

lemma turn_run: "\<exists>rs. at_db (turn w) = fold serve rs (at_db w)"
  by (cases "at_plan w") (auto simp: turn_def intro: exI [of _ "[]"])

lemma runsE:
  assumes "runs m" and "m w = (r, w1)"
  obtains rs where "at_db w1 = fold serve rs (at_db w)"
  using assms unfolding runs_def by (metis snd_conv)

section \<open>The row of a step\<close>

definition step_keys :: "string \<Rightarrow> string \<Rightarrow> string \<Rightarrow> step_row \<Rightarrow> bool" where
  "step_keys tid item key r \<longleftrightarrow> ds_task_id r = tid \<and> ds_item_key r = btrim item \<and> ds_step_key r = btrim key"

lemma acquired_keys:
  assumes ok: "full_inv d"
    and acq: "acquire_durable_step s now p_id tid eid (Some item) tv key sv owner ms ma d = Inr (g, d2)"
  shows "case g of Reused r \<Rightarrow> r \<in> set (steps d2) \<and> ds_state r = S_completed \<and> step_keys tid item key r
    | Acquired r a \<Rightarrow> \<exists>q \<in> set (steps d2). ds_id q = ds_id r \<and> step_keys tid item key q"
proof -
  obtain t v where t: "select_task s tid d = Some t"
    and v: "select_one s step_table (\<lambda>x. ds_task_id x = tid \<and> ds_item_key x = btrim item \<and> ds_step_key x = btrim key) (steps d) = v"
    and run: "(case v of None \<Rightarrow> start_step s now t p_id eid (btrim item) (btrim key) tv sv owner ms d
      | Some st \<Rightarrow> reacquire_step s now t st eid (btrim key) tv sv owner ms ma d) = Inr (g, d2)"
    using acq unfolding acquire_durable_step_def Let_def
    by (auto dest!: on_unique_violation_InrD split: if_split_asm option.split_asm)
  have adv: "advances d d2"
    using sys.le_step [OF ok, of "(s, now, Step_call (Acquire_durable_step p_id tid eid (Some item) tv key sv owner ms ma))"] acq
    by (simp add: serve_def committed_def)
  show ?thesis
  proof (cases v)
    case None
    then obtain st at where g: "g = Acquired st at" and st: "st = new_step now p_id (t_tenant_id t) (t_id t) eid (btrim item) (btrim key) tv sv"
      and ins: "\<exists>d1 d3. insert_step s st d = Inr d1 \<and> insert_attempt s at d1 = Inr d3 \<and> update_task s (t_id t) (touch_task now) d3 = Inr d2"
      using run by (auto simp: start_step_def Let_def)
    then obtain d1 d3 where d: "insert_step s st d = Inr d1" "insert_attempt s at d1 = Inr d3" "update_task s (t_id t) (touch_task now) d3 = Inr d2"
      by blast
    have "st \<in> set (steps d1)" using d(1) by (auto simp: insert_step_def insert_row_def split: if_split_asm)
    moreover have "steps d2 = steps d1"
      using rest_fields(6) [OF update_tasksD(3) [OF d(3)]] d(2) by (auto simp: insert_attempt_def split: if_split_asm)
    ultimately show ?thesis using g st select_taskD(3) [OF t] by (auto simp: step_keys_def new_step_def intro!: bexI [of _ st])
  next
    case (Some st)
    note V = select_one_SomeD [OF v [unfolded Some]]
    have keys: "st \<in> set (steps d)" "step_keys tid item key st" using V by (simp_all add: step_keys_def)
    obtain q where q: "q \<in> set (steps d2)" "step_evolves st q" using advancesE(5) [OF adv keys(1)] by blast
    then have "ds_id q = ds_id st" "step_keys tid item key q" using keys(2) by (simp_all add: step_evolves_def step_keys_def)
    moreover have "case g of Reused r \<Rightarrow> r = st \<and> d2 = d \<and> ds_state st = S_completed | Acquired r a \<Rightarrow> ds_id r = ds_id st"
      using run Some by (auto simp: reacquire_step_def Let_def split: if_split_asm option.split_asm)
    ultimately show ?thesis using q(1) keys by (cases g) auto
  qed
qed

lemma completed_keys:
  assumes ok: "full_inv d" and q: "q \<in> set (steps d)" "step_keys tid item key q"
    and c: "complete_durable_step s now (ds_id q) aid owner epoch res ref d = Inr (r, d2)"
  shows "r \<in> set (steps d2) \<and> ds_state r = S_completed \<and> ds_result r = Some res \<and> step_keys tid item key r"
proof -
  let ?r = "(s, now, Step_call (Complete_durable_step (ds_id q) aid owner epoch res ref))"
  have d2: "serve ?r d = d2" using c by (simp add: serve_def committed_def)
  have R: "r \<in> set (steps d2)" "ds_state r = S_completed" "ds_result r = Some res"
    using complete_durable_step_row [OF c full_invD(1) [OF ok]] by simp_all
  have "ds_id r = ds_id q"
    using c by (auto simp: complete_durable_step_def with_held_step_Inr step_completed_def dest: select_stepD split: if_split_asm)
  moreover obtain p where p: "p \<in> set (steps d2)" "step_evolves q p"
    using advancesE(5) [OF sys.le_step [OF ok, of ?r]] q(1) d2 by metis
  moreover have "inv d2" using full_invD(1) [OF sys.ok_step [OF ok, of ?r]] d2 by simp
  ultimately have "r = p" using R(1) step_key.key_inj [OF steps_okD(1), of d2 r p] by (simp add: step_evolves_def)
  then show ?thesis using R p(2) q(2) by (simp add: step_keys_def step_evolves_def)
qed

section \<open>The value of a step\<close>

text \<open>What \<open>ctx.step\<close> returns for a completed row.\<close>

definition step_value :: "step_row \<Rightarrow> js_value \<Rightarrow> bool" where
  "step_value r v \<longleftrightarrow> (\<exists>x. mapDurableStep r = Inr x \<and> coalesce (sr_result x) Undefined = v)"

lemma step_value_unique: "step_value r u \<Longrightarrow> step_value r v \<Longrightarrow> u = v"
  by (auto simp: step_value_def)

lemma recorded_value:
  assumes "encodeDurableStepResult v = Inr res" and "ds_result r = Some res" and "mapDurableStep r = Inr x"
  shows "step_value r (normal v)"
proof -
  have p: "json_column (ds_result r) = normal (Obj [(''value'', v)])"
    using assms(1,2) parse_stringify [of "Obj [(''value'', v)]" res]
    by (auto simp: json_column_def encodeDurableStepResult_def stringify_def Let_def split: if_split_asm)
  show ?thesis
    using assms(3) p
    by (cases "v = Undefined")
      (auto simp: step_value_def mapDurableStep_def Let_def decodeDurableStepResult_def own_property_def)
qed

lemma step_value_normal:
  assumes "mapDurableStep r = Inr x"
  shows "normal (coalesce (sr_result x) Undefined) = coalesce (sr_result x) Undefined"
proof (cases "sr_result x")
  case (Some v)
  then have dec: "decodeDurableStepResult (json_column (ds_result r)) = Inr v"
    using assms by (auto simp: mapDurableStep_def Let_def map_sum_def split: if_split_asm sum.split_asm)
  then obtain t j where "ds_result r = Some t" "parse_json t = Some j" "own_property ''value'' j = Some v"
    by (cases "ds_result r"; cases "parse_json (the (ds_result r))")
      (auto simp: json_column_def decodeDurableStepResult_def own_property_def split: option.split_asm)
  then show ?thesis using parsed_property Some by simp
qed simp

section \<open>Passes\<close>

lemma normalizeStepArguments_InrD: "normalizeStepArguments opts m w = (Inr y, w1) \<Longrightarrow> m w = (Inr y, w1)"
  by (auto simp: normalizeStepArguments_def Let_def of_sum_Inr split: option.split_asm elim!: await_InrE)

lemma normalizeStepArguments_cases:
  "(\<forall>m :: 'a io. normalizeStepArguments opts m w = m w) \<or> (\<exists>e. \<forall>m :: 'a io. normalizeStepArguments opts m w = (Inl e, w))"
  by (cases "so_version opts"; cases "so_timeout_ms opts"; cases "so_attempts opts")
    (auto simp: normalizeStepArguments_def Let_def await_def of_sum_def return_def throw_def split: sum.splits)

lemma record_failure_not: "record_failure s l e w \<noteq> (Inr y, w1)"
  by (auto simp: record_failure_def throw_def elim!: await_InrE)

lemma acquireDurableStep_InrE:
  assumes "acquireDurableStep h s q w = (Inr g, w1)"
  obtains gr where "acquire_durable_step s (at_now (turn w)) (durable_step_id h q) (sq_task_id q) (sq_execution_id q)
      (Some (sq_item_key q)) (sq_task_version q) (sq_step_key q) (sq_step_version q) (sq_owner q)
      (sq_lease_ms q) (sq_max_attempts q) (at_db (turn w)) = Inr (gr, at_db w1)"
    and "mapDurableStepAcquire gr = Inr g"
  using assms
  by (auto simp: acquireDurableStep_def validateDurableStepAcquire_def positive_field_def of_sum_Inr
      elim!: guarded_InrE await_InrE execute_InrE)

lemma keepStepLeaseAlive_step:
  "keepStepLeaseAlive n s ms l w = (Inr (l', f), w1) \<Longrightarrow> sl_step_id l' = sl_step_id l"
proof (induction n arbitrary: l w)
  case (Suc n)
  have "sl_step_id r = sl_step_id l" if "renewDurableStep s l ms w = (Inr r, w')" for r w'
    using that by (auto simp: renewDurableStep_def validateDurableStepLease_def return_def elim!: guarded_InrE await_InrE)
  then show ?case
    using Suc by (auto simp: try_catch_def await_def return_def split: prod.split_asm sum.split_asm)
qed (simp add: return_def)

lemma completeDurableStep_InrE:
  assumes "completeDurableStep s l v ref w = (Inr x, w1)"
  obtains res ref' r where "encodeDurableStepResult v = Inr res"
    and "complete_durable_step s (at_now (turn w)) (sl_step_id l) (sl_attempt_id l) (sl_owner l) (sl_epoch l) res ref' (at_db (turn w)) =
      Inr (r, at_db w1)"
    and "mapDurableStep r = Inr x"
  using assms unfolding completeDurableStep_def validateDurableStepLease_def
  by (elim guarded_InrE await_InrE execute_InrE) (simp add: of_sum_Inr)

lemma run_step_InrE:
  assumes "run_step s ms env run l w = (Inr v, w1)" and "runs run"
  obtains l' ref x w2 rs where "sl_step_id l' = sl_step_id l" "at_db w2 = fold serve rs (at_db w)"
    "completeDurableStep s l' v ref w2 = (Inr x, w1)"
proof -
  have runs_pre: "runs (await (throwIfAborted (su_abort_before env)) (\<lambda>_. run))"
    unfolding throwIfAborted_def by (intro client_runs assms(2))
  obtain r wa l' f wb where a: "outcome (await (throwIfAborted (su_abort_before env)) (\<lambda>_. run)) w = (Inr r, wa)"
    and b: "keepStepLeaseAlive (su_beats env) s ms l wa = (Inr (l', f), wb)"
    and c: "(case r of Inl e \<Rightarrow> record_failure s l' e
      | Inr v \<Rightarrow> try_catch (await (case f of None \<Rightarrow> return () | Some _ \<Rightarrow> throw (lease_lost (sl_step_id l'))) (\<lambda>_.
         await (throwIfAborted (su_abort_after env)) (\<lambda>_.
         await (completeDurableStep s l' v (artifactResultReference v)) (\<lambda>_. return v)))) (record_failure s l')) wb = (Inr v, w1)"
    using assms(1) unfolding run_step_def by (auto elim!: await_InrE)
  obtain r1 where r1: "at_db wa = fold serve r1 (at_db w)" using runsE [OF runs_outcome [OF runs_pre] a] by metis
  obtain r2 where r2: "at_db wb = fold serve r2 (at_db wa)" using runsE [OF runs_keepStepLeaseAlive b] by metis
  have "at_db wb = fold serve (r1 @ r2) (at_db w)" using r1 r2 by simp
  moreover obtain x where "completeDurableStep s l' v (artifactResultReference v) wb = (Inr x, w1)"
    using c
    by (cases r; cases f; cases "su_abort_after env")
      (auto simp: record_failure_not try_catch_def await_def return_def throw_def throwIfAborted_def split: prod.split_asm sum.split_asm)
  ultimately show ?thesis using that keepStepLeaseAlive_step [OF b] by metis
qed

lemma first_pass:
  assumes ok: "full_inv (at_db w)" and run: "runs run"
    and step: "declared_step h s cx env opts run k w = (Inr v, w1)"
  shows "\<exists>r \<in> set (steps (at_db w1)). ds_state r = S_completed \<and> step_keys (cx_task_id cx) (cx_item_key cx) k r \<and> step_value r (normal v)"
proof -
  let ?q = "step_request_of cx opts k"
  obtain g wa where g: "acquireDurableStep h s ?q w = (Inr g, wa)"
    and k: "(case g of Step_reused _ res _ \<Rightarrow> return (coalesce res Undefined)
      | Step_acquired _ l \<Rightarrow> run_step s (cx_step_lease_ms cx) env run l) wa = (Inr v, w1)"
    using normalizeStepArguments_InrD [OF step [unfolded declared_step_def]] by (auto elim!: guarded_InrE await_InrE)
  obtain gr where gr: "acquire_durable_step s (at_now (turn w)) (durable_step_id h ?q) (cx_task_id cx) (cx_execution_id cx)
      (Some (cx_item_key cx)) (cx_task_version cx) k (sq_step_version ?q) (cx_worker_id cx)
      (cx_step_lease_ms cx) (sq_max_attempts ?q) (at_db (turn w)) = Inr (gr, at_db wa)" "mapDurableStepAcquire gr = Inr g"
    using acquireDurableStep_InrE [OF g] by (metis step_request_of_def step_request.select_convs(1-9))
  have okt: "full_inv (at_db (turn w))" using turn_run [of w] sys.ok_run [OF ok] by metis
  note K = acquired_keys [OF okt gr(1)]
  show ?thesis
  proof (cases gr)
    case (Reused r)
    then obtain x where x: "mapDurableStep r = Inr x" "v = coalesce (sr_result x) Undefined" "w1 = wa"
      using gr(2) k by (auto simp: mapDurableStepAcquire_def map_sum_def return_def split: sum.split_asm)
    then have "step_value r (normal v)" using step_value_normal [OF x(1)] by (auto simp: step_value_def)
    then show ?thesis using K Reused x(3) by auto
  next
    case (Acquired r a)
    then obtain q where q: "q \<in> set (steps (at_db wa))" "ds_id q = ds_id r" "step_keys (cx_task_id cx) (cx_item_key cx) k q"
      using K by auto
    obtain st l where l: "g = Step_acquired st l" "sl_step_id l = ds_id r"
      using gr(2) Acquired by (auto simp: mapDurableStepAcquire_def mapDurableStep_def Let_def split: sum.split_asm if_split_asm)
    obtain l' ref x w2 rs where c: "sl_step_id l' = sl_step_id l" "at_db w2 = fold serve rs (at_db wa)"
        "completeDurableStep s l' v ref w2 = (Inr x, w1)"
      using run_step_InrE [OF _ run] k l(1) by (metis acquire_result.simps(6))
    obtain res ref' rw where e: "encodeDurableStepResult v = Inr res"
      "complete_durable_step s (at_now (turn w2)) (sl_step_id l') (sl_attempt_id l') (sl_owner l') (sl_epoch l') res ref' (at_db (turn w2)) =
        Inr (rw, at_db w1)" "mapDurableStep rw = Inr x"
      using completeDurableStep_InrE [OF c(3)] by metis
    have oka: "full_inv (at_db wa)"
      using sys.ok_step [OF okt, of "(s, at_now (turn w), Step_call (Acquire_durable_step (durable_step_id h ?q) (cx_task_id cx)
        (cx_execution_id cx) (Some (cx_item_key cx)) (cx_task_version cx) k (sq_step_version ?q) (cx_worker_id cx)
        (cx_step_lease_ms cx) (sq_max_attempts ?q)))"] gr(1) by (simp add: serve_def committed_def)
    obtain rs2 where rs2: "at_db (turn w2) = fold serve rs2 (at_db wa)" using turn_run [of w2] c(2) by (metis fold_append comp_apply)
    obtain p where p: "p \<in> set (steps (at_db (turn w2)))" "step_evolves q p"
      using advancesE(5) [OF run_advances [OF oka]] q(1) rs2 by metis
    have "ds_id p = sl_step_id l'" "step_keys (cx_task_id cx) (cx_item_key cx) k p"
      using p(2) q(2,3) l(2) c(1) by (simp_all add: step_evolves_def step_keys_def)
    then show ?thesis
      using completed_keys [OF _ p(1), of "cx_task_id cx" "cx_item_key cx" k] e(2) sys.ok_run [OF oka] rs2 recorded_value [OF e(1) _ e(3)] by metis
  qed
qed

lemma same_outcome:
  assumes "(\<forall>x. f x = z) \<or> (\<exists>e. \<forall>x. f x = (Inl e, w))" and "(\<exists>e. fst z = Inl e) \<or> (\<exists>v. P v \<and> fst z = Inr v)"
  shows "\<exists>q w1. (\<forall>x. f x = (q, w1)) \<and> ((\<exists>e. q = Inl e) \<or> (\<exists>v. P v \<and> q = Inr v))"
  using assms by (cases z) auto

lemma later_pass:
  assumes ok: "full_inv (at_db w)" and r: "r \<in> set (steps (at_db w))" "ds_state r = S_completed"
    and keys: "step_keys (cx_task_id cx) (cx_item_key cx) k r"
  shows "\<exists>q w1. (\<forall>run. declared_step h s cx env opts run k w = (q, w1)) \<and>
    ((\<exists>e. q = Inl e) \<or> (\<exists>v. step_value r v \<and> q = Inr v))"
proof -
  define v where "v = (case mapDurableStep r of Inl _ \<Rightarrow> Undefined | Inr x \<Rightarrow> coalesce (sr_result x) Undefined)"
  let ?q = "step_request_of cx opts k"
  obtain g wa where g: "acquireDurableStep h s ?q w = (g, wa)" by fastforce
  let ?after = "\<lambda>run g. case g of Step_reused _ res _ \<Rightarrow> return (coalesce res Undefined)
      | Step_acquired _ l \<Rightarrow> run_step s (cx_step_lease_ms cx) env run l"
  have same: "?after run y wa = (Inr v, wa) \<and> step_value r v" if y: "g = Inr y" for run y
  proof -
    obtain gr where gr: "acquire_durable_step s (at_now (turn w)) (durable_step_id h ?q) (cx_task_id cx) (cx_execution_id cx)
        (Some (cx_item_key cx)) (cx_task_version cx) k (sq_step_version ?q) (cx_worker_id cx)
        (cx_step_lease_ms cx) (sq_max_attempts ?q) (at_db (turn w)) = Inr (gr, at_db wa)" "mapDurableStepAcquire gr = Inr y"
      using acquireDurableStep_InrE [OF g [unfolded y]] by (metis step_request_of_def step_request.select_convs(1-9))
    obtain rs where rs: "at_db (turn w) = fold serve rs (at_db w)" using turn_run by blast
    have "gr = Reused r"
      using acquire_completed [OF sys.ok_run [OF ok, of rs] completed_step_kept [OF ok r, of rs] r(2)] keys gr(1) rs
      by (metis step_keys_def coalesce_simps(2))
    then show ?thesis
      using gr(2) by (cases "mapDurableStep r") (auto simp: mapDurableStepAcquire_def step_value_def return_def v_def)
  qed
  have eq: "await (acquireDurableStep h s ?q) (?after run) w = (case g of Inl e \<Rightarrow> (Inl e, wa) | Inr y \<Rightarrow> (Inr v, wa))" for run
    using g same by (cases g) (simp_all add: await_def)
  define out where "out = (case g of Inl e \<Rightarrow> (Inl e, wa) | Inr y \<Rightarrow> (Inr v, wa))"
  have m: "guarded b e (await (acquireDurableStep h s ?q) (?after run)) w = (if b then (Inl e, w) else out)" for b e run
    using eq by (simp add: guarded_def throw_def out_def)
  have out: "(\<exists>e. fst out = Inl e) \<or> (\<exists>v. step_value r v \<and> fst out = Inr v)"
    using same by (cases g) (auto simp: out_def)
  let ?z = "if \<not> cx_has_steps cx then (Inl (Type_error ''ctx.step() requires the PostgreSQL Durable Step profile''), w) else out"
  have "(\<forall>run. declared_step h s cx env opts run k w = ?z) \<or> (\<exists>e. \<forall>run. declared_step h s cx env opts run k w = (Inl e, w))"
    using normalizeStepArguments_cases [of opts w, where 'a = js_value]
    unfolding declared_step_def by (elim disjE exE) (simp_all add: m)
  moreover have "(\<exists>e. fst ?z = Inl e) \<or> (\<exists>v. step_value r v \<and> fst ?z = Inr v)" using out by simp
  ultimately show ?thesis by (rule same_outcome)
qed

section \<open>Replay\<close>

lemma ctx_step_InrE:
  assumes "snd (ctx_step h s cx env declared key opts run) w = (Inr v, w1)"
  obtains k where "stableKey key ''step'' 256 = Inr k" "declared_step h s cx env opts run k w = (Inr v, w1)"
  using assms by (auto simp: ctx_step_def throw_def split: sum.split_asm if_split_asm)

lemma ctx_step_cases:
  assumes "stableKey key ''step'' 256 = Inr k"
  shows "(\<forall>run. snd (ctx_step h s cx env declared key opts run) w = declared_step h s cx env opts run k w) \<or>
    (\<exists>e. \<forall>run. snd (ctx_step h s cx env declared key opts run) w = (Inl e, w))"
  using assms by (simp add: ctx_step_def throw_def)

text \<open>
  C24: A durable step runs once. When \<open>ctx.step(key, run)\<close> returned a value to a handler, every later pass over
  the same Task and item (in any worker, with any options, after any number of other requests) behaves
  the same whatever its callback is, because it never calls it: it either fails or returns that value again, as it
  reads after one round through JSON.
\<close>

theorem step_value_replayed:
  assumes start: "at_db before = fold serve past empty_db"
    and callback: "\<And>u. \<exists>rs. at_db (snd (run u)) = fold serve rs (at_db u)"
    and first: "snd (ctx_step sha256 s cx env declared key opts run) before = (Inr v, after)"
    and between: "at_db later = fold serve rs (at_db after)"
    and same: "cx_task_id cx' = cx_task_id cx" "cx_item_key cx' = cx_item_key cx"
  shows "\<exists>q w'. (\<forall>run'. snd (ctx_step sha256' s' cx' env' declared' key opts' run') later = (q, w')) \<and>
    ((\<exists>e. q = Inl e) \<or> q = Inr (normal v))"
proof -
  have run: "runs run" using callback by (simp add: runs_def)
  have ok: "full_inv (at_db before)" using reached_inv [of past] start by simp
  obtain k where k: "stableKey key ''step'' 256 = Inr k" "declared_step sha256 s cx env opts run k before = (Inr v, after)"
    using ctx_step_InrE [OF first] .
  obtain r where r: "r \<in> set (steps (at_db after))" "ds_state r = S_completed" "step_keys (cx_task_id cx) (cx_item_key cx) k r"
      "step_value r (normal v)"
    using first_pass [OF ok run k(2)] by blast
  obtain rs1 where "at_db after = fold serve rs1 (at_db before)" using runsE [OF runs_declared_step [OF run] k(2)] .
  then have ok1: "full_inv (at_db after)" using sys.ok_run [OF ok] by simp
  have "full_inv (at_db later)" "r \<in> set (steps (at_db later))"
    using sys.ok_run [OF ok1] completed_step_kept [OF ok1 r(1,2)] between by simp_all
  from later_pass [OF this r(2) r(3) [folded same], of sha256' s' env' opts'] obtain q w' where
    "\<forall>run'. declared_step sha256' s' cx' env' opts' run' k later = (q, w')" "(\<exists>e. q = Inl e) \<or> q = Inr (normal v)"
    using step_value_unique [OF _ r(4)] by blast
  then show ?thesis using ctx_step_cases [OF k(1), of sha256' s' cx' env' declared' opts' later] by fastforce
qed

definition clip_context :: "string \<Rightarrow> durable_context" where
  "clip_context worker = \<lparr>cx_task_id = ''t1'', cx_execution_id = ''e1'', cx_item_key = ''clip'', cx_task_version = 1,
    cx_worker_id = worker, cx_step_lease_ms = 60000, cx_has_steps = True\<rparr>"

definition calm :: surroundings where
  "calm = \<lparr>su_beats = 0, su_abort_before = None, su_abort_after = None\<rparr>"

definition plain_step :: step_options where
  "plain_step = \<lparr>so_version = None, so_timeout_ms = None, so_attempts = None\<rparr>"

definition sample_world :: world where
  "sample_world = \<lparr>at_db = sample_db, at_now = 500, at_plan = []\<rparr>"

definition step_pass :: "string \<Rightarrow> js_value io \<Rightarrow> js_value io" where
  "step_pass worker run = snd (ctx_step (\<lambda>_. sha) acme (clip_context worker) calm [] ''render'' plain_step run)"

definition rendered_world :: world where
  "rendered_world = snd (step_pass ''w1'' (return (Num 42)) sample_world)"

lemma rendered: "step_pass ''w1'' (return (Num 42)) sample_world = (Inr (Num 42), rendered_world)"
  unfolding rendered_world_def by code_simp

theorem step_value_replayed_witness:
  "\<exists>q w3. (\<forall>run'. snd (ctx_step (\<lambda>_. sha) acme (clip_context ''w2'') calm [] ''render'' plain_step run')
      (rendered_world\<lparr>at_db := fold serve other_run (at_db rendered_world)\<rparr>) = (q, w3)) \<and>
    ((\<exists>e. q = Inl e) \<or> q = Inr (normal (Num 42)))"
  using rendered [unfolded step_pass_def]
  by (intro step_value_replayed [where before = sample_world and run = "return (Num 42)" and v = "Num 42" and s = acme
        and env = calm and declared = "[]" and opts = plain_step and cx = "clip_context ''w1''" and after = rendered_world
        and past = sample_run and rs = other_run])
    (auto simp: sample_world_def sample_reached return_def clip_context_def intro: exI [of _ "[]"])

section \<open>Callbacks that return nothing\<close>

lemma empty_envelope:
  assumes "ds_result r = Some ''{}''"
  shows "mapDurableStep r = Inl (Type_error ''PostgreSQL returned an invalid durable Step result'')"
proof -
  have "json_column (Some ''{}'') \<noteq> Null"
    "decodeDurableStepResult (json_column (Some ''{}'')) = Inl (Type_error ''PostgreSQL returned an invalid durable Step result'')"
    by code_simp+
  then show ?thesis using assms by (simp add: mapDurableStep_def)
qed

lemma void_not_completed: "completeDurableStep s l Undefined ref w \<noteq> (Inr x, w')"
proof
  assume "completeDurableStep s l Undefined ref w = (Inr x, w')"
  then obtain res ref' r now d d' where e: "encodeDurableStepResult Undefined = Inr res"
    and c: "complete_durable_step s now (sl_step_id l) (sl_attempt_id l) (sl_owner l) (sl_epoch l) res ref' d = Inr (r, d')"
    and m: "mapDurableStep r = Inr x"
    by (metis completeDurableStep_InrE)
  have "encodeDurableStepResult Undefined = Inr ''{}''" by code_simp
  moreover have "ds_result r = Some res"
    using c by (auto simp: complete_durable_step_def with_held_step_Inr step_completed_def dest: select_stepD split: if_split_asm)
  ultimately show False using e m empty_envelope [of r] by simp
qed

text \<open>
  C25: a callback that returns nothing. No completion of a step with \<open>undefined\<close> ever returns to its
  caller, in any state, since the envelope it records has no value and no reader accepts it. Once a step is
  recorded so, the pass that led there has failed, and every later pass over the same Task and item
  (in any worker, with any options, after any number of other requests) fails too, whatever its
  callback is, and leaves the record as it is: the step can neither return nor run again.
\<close>

theorem void_step_never_returns:
  assumes start: "at_db before = fold serve past empty_db"
    and callback: "\<And>u. \<exists>rs. at_db (snd (run u)) = fold serve rs (at_db u)"
    and first: "snd (ctx_step sha256 s cx env declared key opts run) before = (q, after)"
    and key: "stableKey key ''step'' 256 = Inr k"
    and r: "r \<in> set (steps (at_db after))" "ds_state r = S_completed" "ds_result r = Some ''{}''"
      "ds_task_id r = cx_task_id cx" "ds_item_key r = btrim (cx_item_key cx)" "ds_step_key r = btrim k"
    and between: "at_db later = fold serve rs (at_db after)"
    and same: "cx_task_id cx' = cx_task_id cx" "cx_item_key cx' = cx_item_key cx"
  shows "(\<forall>s l ref u. \<exists>e. fst (completeDurableStep s l Undefined ref u) = Inl e) \<and> (\<exists>e. q = Inl e) \<and>
    (\<exists>e w'. (\<forall>run'. snd (ctx_step sha256' s' cx' env' declared' key opts' run') later = (Inl e, w')) \<and> r \<in> set (steps (at_db w')))"
proof -
  have run: "runs run" using callback by (simp add: runs_def)
  have ok: "full_inv (at_db before)" using reached_inv [of past] start by simp
  have none: "\<not> step_value r v" for v using empty_envelope [OF r(3)] by (simp add: step_value_def)
  have keys: "step_keys (cx_task_id cx) (cx_item_key cx) k r" using r(4-6) by (simp add: step_keys_def)
  have "runs (snd (ctx_step sha256 s cx env declared key opts run))"
    using key by (auto simp: ctx_step_def intro!: client_runs run)
  from runsE [OF this first] have ok1: "full_inv (at_db after)" using sys.ok_run [OF ok] by metis
  have "\<exists>e. q = Inl e"
  proof (rule ccontr)
    assume "\<nexists>e. q = Inl e"
    then obtain v where v: "snd (ctx_step sha256 s cx env declared key opts run) before = (Inr v, after)"
      using first by (cases q) auto
    then obtain p where p: "p \<in> set (steps (at_db after))" "step_keys (cx_task_id cx) (cx_item_key cx) k p" "step_value p (normal v)"
      using first_pass [OF ok run] key by (metis ctx_step_InrE sum.inject(2))
    have "p = r" using step_slot.key_inj [OF steps_okD(1) [OF full_invD(1) [OF ok1]] p(1) r(1)] p(2) keys by (simp add: step_keys_def)
    then show False using none p(3) by simp
  qed
  moreover have L: "full_inv (at_db later)" "r \<in> set (steps (at_db later))"
    using sys.ok_run [OF ok1] completed_step_kept [OF ok1 r(1,2)] between by simp_all
  from later_pass [OF this r(2) keys [folded same], of sha256' s' env' opts'] none obtain e w' where
    "\<forall>run'. declared_step sha256' s' cx' env' opts' run' k later = (Inl e, w')" by blast
  then obtain e' w2 where all: "\<forall>run'. snd (ctx_step sha256' s' cx' env' declared' key opts' run') later = (Inl e', w2)"
    using ctx_step_cases [OF key, of sha256' s' cx' env' declared' opts' later] by metis
  have "runs (snd (ctx_step sha256' s' cx' env' declared' key opts' (return Undefined)))"
    using key by (auto simp: ctx_step_def intro!: client_runs)
  then obtain rs2 where "at_db w2 = fold serve rs2 (at_db later)" using runsE all by metis
  then have "r \<in> set (steps (at_db w2))" using completed_step_kept [OF L r(2)] by simp
  moreover have "\<exists>e. fst (completeDurableStep s l Undefined ref u) = Inl e" for s l ref u
    using void_not_completed [of s l ref u] by (cases "completeDurableStep s l Undefined ref u"; cases "fst (completeDurableStep s l Undefined ref u)") auto
  ultimately show ?thesis using all by blast
qed

definition void_world :: world where
  "void_world = snd (step_pass ''w1'' (return Undefined) sample_world)"

definition void_row :: step_row where
  "void_row = hd (steps (at_db void_world))"

theorem void_step_never_returns_witness:
  "ds_state void_row = S_completed \<and>
    (\<exists>e. fst (step_pass ''w1'' (return Undefined) sample_world) = Inl e) \<and>
    (\<exists>e w'. (\<forall>run'. snd (ctx_step (\<lambda>_. sha) acme (clip_context ''w2'') calm [] ''render'' plain_step run')
      (void_world\<lparr>at_db := fold serve other_run (at_db void_world)\<rparr>) = (Inl e, w')) \<and> void_row \<in> set (steps (at_db w')))"
proof -
  have first: "snd (ctx_step (\<lambda>_. sha) acme (clip_context ''w1'') calm [] ''render'' plain_step (return Undefined)) sample_world =
      (fst (step_pass ''w1'' (return Undefined) sample_world), void_world)"
    by (simp add: step_pass_def void_world_def)
  have row: "void_row \<in> set (steps (at_db void_world))" "ds_state void_row = S_completed" "ds_result void_row = Some ''{}''"
    "ds_task_id void_row = cx_task_id (clip_context ''w1'')" "ds_item_key void_row = btrim (cx_item_key (clip_context ''w1''))"
    "ds_step_key void_row = btrim ''render''" by code_simp+
  have key: "stableKey ''render'' ''step'' 256 = Inr ''render''" by code_simp
  have start: "at_db sample_world = fold serve sample_run empty_db" by (simp add: sample_world_def sample_reached)
  have cb: "\<exists>rs. at_db (snd (return Undefined u)) = fold serve rs (at_db u)" for u
    by (rule exI [of _ "[]"]) (simp add: return_def)
  show ?thesis
    using void_step_never_returns [OF start cb first key row, of "void_world\<lparr>at_db := fold serve other_run (at_db void_world)\<rparr>"
        other_run "clip_context ''w2''" "\<lambda>_. sha" acme calm "[]" plain_step] row(2)
    by (simp add: clip_context_def)
qed

end
