(* ===== verification/Progress_Coalescer.thy ===== *)
theory Progress_Coalescer
  imports Client "HOL-Library.Sublist"
begin

text \<open>
  The progress coalescer of \<open>tasks/progress.ts\<close>: an in-process buffer of one update in front of a writer. The
  variables that its closures share are the fields of \<open>coalescer\<close>; every function is the code from one call up to
  its first \<open>await\<close>, and the reactions of the write promise are functions of their own, so that calls, timer and
  reactions interleave as steps. \<open>pc_writes\<close> and \<open>pc_accepted\<close> record the calls of the writer and the updates
  that \<open>report\<close> did not drop. Units are whole numbers.
\<close>

section \<open>State\<close>

record progress_update =
  pu_completed :: int
  pu_total :: "int option"
  pu_message :: "string option"

text \<open>A write is out, or it ended and its \<open>finally\<close> has yet to run.\<close>

datatype write_phase = Writing progress_update | Settling

record coalescer =
  pc_interval_ms :: int
  pc_min_delta :: int
  pc_pending :: "progress_update option"
  pc_last_sent :: "progress_update option"
  pc_last_sent_at :: int
  pc_timer :: bool
  pc_in_flight :: "write_phase option"
  pc_failure :: "client_error option"
  pc_closed :: bool
  pc_writes :: "progress_update list"
  pc_accepted :: "progress_update list"

text \<open>What a call hands back: nothing to wait for, an error, or the promise of the write that is out.\<close>

datatype promise = Resolved | Rejected client_error | In_flight

section \<open>Operations\<close>

definition boundedInteger :: "int \<Rightarrow> int \<Rightarrow> int \<Rightarrow> string \<Rightarrow> client_error + int" where
  "boundedInteger n lo hi label =
    (if n < lo \<or> n > hi then Inl (Range_error (label @ '' must be an integer '' @ int_text lo @ ''..'' @ int_text hi)) else Inr n)"

definition boundedNumber :: "int \<Rightarrow> int \<Rightarrow> int \<Rightarrow> string \<Rightarrow> client_error + int" where
  "boundedNumber n lo hi label =
    (if n < lo \<or> n > hi then Inl (Range_error (label @ '' must be '' @ int_text lo @ ''..'' @ int_text hi)) else Inr n)"

definition createRhinoQProgressCoalescer :: "int option \<Rightarrow> int option \<Rightarrow> client_error + coalescer" where
  "createRhinoQProgressCoalescer flushIntervalMs minCompletedDelta =
    (case boundedInteger (coalesce flushIntervalMs 100) 10 60000 ''progress flushIntervalMs'' of
      Inl e \<Rightarrow> Inl e
    | Inr interval \<Rightarrow> (case boundedNumber (coalesce minCompletedDelta 1) 0 9007199254740991 ''progress minCompletedDelta'' of
        Inl e \<Rightarrow> Inl e
      | Inr delta \<Rightarrow> Inr \<lparr>pc_interval_ms = interval, pc_min_delta = delta, pc_pending = None, pc_last_sent = None,
          pc_last_sent_at = 0, pc_timer = False, pc_in_flight = None, pc_failure = None, pc_closed = False,
          pc_writes = [], pc_accepted = []\<rparr>))"

definition isTerminal :: "progress_update \<Rightarrow> bool" where
  "isTerminal u = (case pu_total u of None \<Rightarrow> False | Some t \<Rightarrow> pu_completed u \<ge> t)"

definition validateUpdate :: "progress_update \<Rightarrow> client_error option" where
  "validateUpdate u =
    (if pu_completed u < 0 then Some (Range_error ''Task progress completed must be non-negative'')
     else case pu_total u of
       Some t \<Rightarrow> if t < pu_completed u then Some (Range_error ''Task progress total must be at least completed'') else None
     | None \<Rightarrow> None)"

definition shouldFlush :: "int \<Rightarrow> progress_update \<Rightarrow> coalescer \<Rightarrow> bool" where
  "shouldFlush now u s = (case pc_last_sent s of
      None \<Rightarrow> True
    | Some p \<Rightarrow> pu_completed u - pu_completed p \<ge> pc_min_delta s \<or> now - pc_last_sent_at s \<ge> pc_interval_ms s)"

definition schedule :: "coalescer \<Rightarrow> coalescer" where
  "schedule s = (if pc_closed s \<or> pc_timer s \<or> pc_pending s = None then s else s\<lparr>pc_timer := True\<rparr>)"

definition flush :: "coalescer \<Rightarrow> promise \<times> coalescer" where
  "flush s = (case pc_failure s of
      Some e \<Rightarrow> (Rejected e, s)
    | None \<Rightarrow> if pc_in_flight s \<noteq> None then (In_flight, s)
        else case pc_pending s of
          None \<Rightarrow> (Resolved, s)
        | Some u \<Rightarrow> (In_flight, s\<lparr>pc_pending := None, pc_timer := False, pc_in_flight := Some (Writing u), pc_writes := pc_writes s @ [u]\<rparr>))"

definition report :: "int \<Rightarrow> progress_update \<Rightarrow> coalescer \<Rightarrow> promise \<times> coalescer" where
  "report now u s =
    (if pc_closed s then (Rejected (Js_error ''RHINOQ_PROGRESS_CLOSED''), s)
     else case validateUpdate u of
       Some e \<Rightarrow> (Rejected e, s)
     | None \<Rightarrow> (case pc_failure s of
         Some e \<Rightarrow> (Rejected e, s)
       | None \<Rightarrow>
           if (case (case pc_pending s of Some p \<Rightarrow> Some p | None \<Rightarrow> pc_last_sent s) of
               Some p \<Rightarrow> pu_completed u < pu_completed p | None \<Rightarrow> False)
           then (Resolved, s)
           else let s' = s\<lparr>pc_pending := Some u, pc_accepted := pc_accepted s @ [u]\<rparr> in
             if pc_last_sent s' = None \<or> isTerminal u \<or> shouldFlush now u s' then flush s' else (Resolved, schedule s')))"

text \<open>The reactions: the timer, the end of a write, and what follows it.\<close>

definition timer_fires :: "coalescer \<Rightarrow> coalescer" where
  "timer_fires s = snd (flush (s\<lparr>pc_timer := False\<rparr>))"

definition write_done :: "int \<Rightarrow> progress_update \<Rightarrow> coalescer \<Rightarrow> coalescer" where
  "write_done now u s = s\<lparr>pc_last_sent := Some u, pc_last_sent_at := now, pc_in_flight := Some Settling\<rparr>"

definition write_failed :: "client_error \<Rightarrow> coalescer \<Rightarrow> coalescer" where
  "write_failed e s = s\<lparr>pc_failure := Some e, pc_in_flight := Some Settling\<rparr>"

definition write_settled :: "int \<Rightarrow> coalescer \<Rightarrow> coalescer" where
  "write_settled now s = (let s' = s\<lparr>pc_in_flight := None\<rparr> in
    case (pc_failure s', pc_pending s') of
      (None, Some u) \<Rightarrow> if isTerminal u \<or> shouldFlush now u s' then snd (flush s') else schedule s'
    | _ \<Rightarrow> s')"

section \<open>Closing\<close>

text \<open>
  \<open>close\<close> up to its loop, one wait for the write that is out, and the loop. \<open>writer\<close> answers with its error, if any;
  it is a function of the update, so that a writer which refuses an update refuses it always. \<open>clock\<close> gives the time of
  a round. Only \<open>close\<close> is followed to its end so; the steps below let every write end either way.
\<close>

definition begin_close :: "coalescer \<Rightarrow> coalescer" where
  "begin_close s = (if pc_closed s then s else s\<lparr>pc_closed := True, pc_timer := False\<rparr>)"

definition await_write :: "(progress_update \<Rightarrow> client_error option) \<Rightarrow> int \<Rightarrow> coalescer \<Rightarrow> coalescer" where
  "await_write writer now s = (case pc_in_flight s of
      None \<Rightarrow> s
    | Some Settling \<Rightarrow> write_settled now s
    | Some (Writing u) \<Rightarrow> (case writer u of
        None \<Rightarrow> write_settled now (write_done now u s)
      | Some e \<Rightarrow> write_settled now (write_failed e s)))"

fun close_loop :: "nat \<Rightarrow> (progress_update \<Rightarrow> client_error option) \<Rightarrow> (nat \<Rightarrow> int) \<Rightarrow> coalescer \<Rightarrow> ((client_error option) \<times> coalescer) option" where
  "close_loop 0 writer clock s = None"
| "close_loop (Suc n) writer clock s =
    (if pc_pending s = None \<and> pc_in_flight s = None then Some (pc_failure s, s)
     else case flush s of
       (Rejected e, s1) \<Rightarrow> Some (Some e, s1)
     | (_, s1) \<Rightarrow> (let s2 = await_write writer (clock n) s1 in
         case pc_failure s2 of
           Some e \<Rightarrow> Some (Some e, s2)
         | None \<Rightarrow> (let s3 = await_write writer (clock n) s2 in
             case pc_failure s3 of
               Some e \<Rightarrow> Some (Some e, s3)
             | None \<Rightarrow> close_loop n writer clock s3)))"

definition close :: "nat \<Rightarrow> (progress_update \<Rightarrow> client_error option) \<Rightarrow> (nat \<Rightarrow> int) \<Rightarrow> coalescer \<Rightarrow> ((client_error option) \<times> coalescer) option" where
  "close fuel writer clock s = (if pc_closed s then Some (None, s) else close_loop fuel writer clock (begin_close s))"

section \<open>Steps\<close>

inductive coalescer_step :: "coalescer \<Rightarrow> coalescer \<Rightarrow> bool" where
  reported: "coalescer_step s (snd (report now u s))"
| flushed: "coalescer_step s (snd (flush s))"
| timed: "pc_timer s \<Longrightarrow> coalescer_step s (timer_fires s)"
| written: "pc_in_flight s = Some (Writing u) \<Longrightarrow> coalescer_step s (write_done now u s)"
| refused: "pc_in_flight s = Some (Writing u) \<Longrightarrow> coalescer_step s (write_failed e s)"
| settled: "pc_in_flight s = Some Settling \<Longrightarrow> coalescer_step s (write_settled now s)"
| closing: "coalescer_step s (begin_close s)"

inductive coalescer_reached :: "coalescer \<Rightarrow> bool" where
  created: "createRhinoQProgressCoalescer interval delta = Inr s \<Longrightarrow> coalescer_reached s"
| stepped: "coalescer_reached s \<Longrightarrow> coalescer_step s s' \<Longrightarrow> coalescer_reached s'"

inductive_cases coalescer_stepE: "coalescer_step s s'"

section \<open>Nothing accepted is lost or reordered\<close>

text \<open>The newest accepted update is buffered, out, or written last; the calls of the writer follow the order of acceptance.\<close>

definition coalescer_ok :: "coalescer \<Rightarrow> bool" where
  "coalescer_ok s \<longleftrightarrow>
    subseq (pc_writes s @ (case pc_pending s of None \<Rightarrow> [] | Some u \<Rightarrow> [u])) (pc_accepted s) \<and>
    (case pc_pending s of
       Some u \<Rightarrow> pc_accepted s \<noteq> [] \<and> last (pc_accepted s) = u
     | None \<Rightarrow> (pc_writes s = [] \<longleftrightarrow> pc_accepted s = []) \<and> (pc_writes s \<noteq> [] \<longrightarrow> last (pc_writes s) = last (pc_accepted s))) \<and>
    (case pc_in_flight s of
       Some (Writing u) \<Rightarrow> pc_failure s = None \<and> pc_writes s \<noteq> [] \<and> last (pc_writes s) = u
     | _ \<Rightarrow> pc_failure s = None \<longrightarrow> pc_last_sent s = (if pc_writes s = [] then None else Some (last (pc_writes s)))) \<and>
    (\<forall>u \<in> set (pc_accepted s). validateUpdate u = None)"

lemma coalescer_ok_schedule [simp]: "coalescer_ok (schedule s) = coalescer_ok s"
  by (simp add: schedule_def coalescer_ok_def cong: option.case_cong write_phase.case_cong)

lemma coalescer_ok_timer [simp]: "coalescer_ok (s\<lparr>pc_timer := b\<rparr>) = coalescer_ok s"
  by (simp add: coalescer_ok_def cong: option.case_cong write_phase.case_cong)

lemma coalescer_ok_begin_close [simp]: "coalescer_ok (begin_close s) = coalescer_ok s"
  by (simp add: begin_close_def coalescer_ok_def cong: option.case_cong write_phase.case_cong)

lemma coalescer_ok_flush: "coalescer_ok s \<Longrightarrow> coalescer_ok (snd (flush s))"
  by (cases "pc_failure s"; cases "pc_in_flight s"; cases "pc_pending s")
    (simp_all add: flush_def, auto simp: coalescer_ok_def)

lemma coalescer_ok_accept:
  assumes "coalescer_ok s" and "validateUpdate u = None"
  shows "coalescer_ok (s\<lparr>pc_pending := Some u, pc_accepted := pc_accepted s @ [u]\<rparr>)"
proof -
  have "subseq (pc_writes s @ [u]) (pc_accepted s @ [u])"
    using assms(1) by (auto simp: coalescer_ok_def split: option.split_asm intro: subseq_order.trans list_emb_append_mono)
  then show ?thesis using assms by (auto simp: coalescer_ok_def split: option.split_asm write_phase.split_asm)
qed

lemma coalescer_ok_report: "coalescer_ok s \<Longrightarrow> coalescer_ok (snd (report now u s))"
  by (auto simp: report_def Let_def coalescer_ok_flush coalescer_ok_accept split: option.split)

lemma coalescer_ok_written:
  assumes "coalescer_ok s" and "pc_in_flight s = Some (Writing u)"
  shows "coalescer_ok (write_done now u s)" and "coalescer_ok (write_failed e s)"
  using assms by (auto simp: write_done_def write_failed_def coalescer_ok_def split: option.split_asm)

lemma coalescer_ok_settled:
  assumes "coalescer_ok s" and "pc_in_flight s = Some Settling"
  shows "coalescer_ok (write_settled now s)"
proof -
  have "coalescer_ok (s\<lparr>pc_in_flight := None\<rparr>)"
    using assms by (simp add: coalescer_ok_def cong: option.case_cong)
  then show ?thesis by (simp add: write_settled_def Let_def coalescer_ok_flush split: option.split)
qed

lemma coalescer_reached_ok: "coalescer_reached s \<Longrightarrow> coalescer_ok s"
proof (induction rule: coalescer_reached.induct)
  case created
  then show ?case by (auto simp: createRhinoQProgressCoalescer_def coalescer_ok_def split: sum.split_asm)
next
  case (stepped s s')
  from stepped(2,3) show ?case
    by (elim coalescer_stepE)
      (simp_all add: coalescer_ok_report coalescer_ok_flush coalescer_ok_written coalescer_ok_settled timer_fires_def)
qed

lemma coalescer_ok_idle:
  assumes "coalescer_ok s" "pc_pending s = None" "pc_in_flight s = None" "pc_failure s = None" "pc_accepted s \<noteq> []"
  shows "pc_last_sent s = Some (last (pc_accepted s)) \<and> last (pc_writes s) = last (pc_accepted s)"
  using assms by (simp add: coalescer_ok_def)

lemma coalescer_ok_writes: "coalescer_ok s \<Longrightarrow> subseq (pc_writes s) (pc_accepted s)"
  by (auto simp: coalescer_ok_def split: option.split_asm dest!: list_emb_appendD)

section \<open>Closing\<close>

lemma flush_kept [simp]:
  "pc_accepted (snd (flush s)) = pc_accepted s" "pc_closed (snd (flush s)) = pc_closed s" "pc_failure (snd (flush s)) = pc_failure s"
  by (simp_all add: flush_def split: option.split)

lemma schedule_closed: "pc_closed s \<Longrightarrow> schedule s = s"
  by (simp add: schedule_def)

lemma write_settled_kept [simp]:
  "pc_accepted (write_settled t s) = pc_accepted s" "pc_closed (write_settled t s) = pc_closed s" "pc_failure (write_settled t s) = pc_failure s"
  by (simp_all add: write_settled_def Let_def schedule_def split: option.split)

lemma await_write_kept [simp]:
  "pc_accepted (await_write w t s) = pc_accepted s" "pc_closed (await_write w t s) = pc_closed s"
  by (simp_all add: await_write_def write_done_def write_failed_def split: option.split write_phase.split)

lemma await_write_fine: "(\<And>u. w u = None) \<Longrightarrow> pc_failure (await_write w t s) = pc_failure s"
  by (simp add: await_write_def write_done_def split: option.split write_phase.split)

lemma coalescer_ok_await:
  assumes "coalescer_ok s"
  shows "coalescer_ok (await_write w t s)"
proof (cases "pc_in_flight s")
  case (Some p)
  then show ?thesis
  proof (cases p)
    case (Writing u)
    then have "coalescer_ok (write_done t u s)" "coalescer_ok (write_failed e s)" for e
      using coalescer_ok_written [OF assms] Some by simp_all
    then show ?thesis
      using Some Writing by (simp add: await_write_def coalescer_ok_settled write_done_def write_failed_def split: option.split)
  qed (use assms Some in \<open>simp add: await_write_def coalescer_ok_settled\<close>)
qed (simp add: await_write_def assms)

lemma close_loop_result:
  "close_loop n w c s = Some (r, s') \<Longrightarrow> coalescer_ok s \<Longrightarrow>
    coalescer_ok s' \<and> pc_accepted s' = pc_accepted s \<and> pc_failure s' = r \<and> (r = None \<longrightarrow> pc_pending s' = None \<and> pc_in_flight s' = None)"
proof (induction n arbitrary: s)
  case (Suc n)
  obtain p s1 where f: "flush s = (p, s1)" by fastforce
  then have s1: "coalescer_ok s1" "pc_accepted s1 = pc_accepted s" "pc_failure s1 = pc_failure s"
    using coalescer_ok_flush [OF Suc.prems(2)] flush_kept [of s] by simp_all
  have rej: "p = Rejected e \<Longrightarrow> pc_failure s = Some e" for e using f by (auto simp: flush_def split: option.split_asm if_split_asm)
  show ?case
    using Suc.prems s1 rej f Suc.IH [OF _ coalescer_ok_await [OF coalescer_ok_await [OF s1(1)]]] coalescer_ok_await [OF s1(1)]
      coalescer_ok_await [OF coalescer_ok_await [OF s1(1)]]
    by (cases p) (auto simp: Let_def split: if_split_asm option.split_asm)
qed simp

lemma close_loop_fine:
  "close_loop n w c s = Some (r, s') \<Longrightarrow> (\<And>u. w u = None) \<Longrightarrow> pc_failure s = None \<Longrightarrow> r = None"
proof (induction n arbitrary: s)
  case (Suc n)
  obtain p s1 where f: "flush s = (p, s1)" by fastforce
  then have "pc_failure s1 = None" "\<And>e. p \<noteq> Rejected e"
    using Suc.prems(3) flush_kept(3) [of s] by (auto simp: flush_def split: option.split_asm if_split_asm)
  then show ?case
    using Suc f by (cases p) (auto simp: Let_def await_write_fine split: if_split_asm)
qed simp

text \<open>The first round leaves at most a buffered update, which the second one writes.\<close>

lemma await_write_alone:
  "pc_pending s = None \<Longrightarrow> pc_pending (await_write w t s) = None \<and> pc_in_flight (await_write w t s) = None"
  by (auto simp: await_write_def write_settled_def write_done_def write_failed_def Let_def split: option.split write_phase.split)

lemma await_write_first:
  assumes "pc_closed s"
  shows "pc_failure (await_write w t s) \<noteq> None \<or> pc_pending (await_write w t s) = None \<or> pc_in_flight (await_write w t s) = None"
  using assms
  by (auto simp: await_write_def write_settled_def write_done_def write_failed_def Let_def flush_def schedule_closed
      split: option.split write_phase.split)

lemma close_loop_alone:
  assumes "pc_pending s = None \<or> pc_in_flight s = None"
  shows "\<exists>x. close_loop (Suc (Suc n)) w c s = Some x"
proof (cases "pc_pending s = None \<and> pc_in_flight s = None")
  case False
  obtain p s1 where f: "flush s = (p, s1)" by fastforce
  have "(\<exists>e. p = Rejected e) \<or> pc_pending s1 = None"
    using f assms False by (auto simp: flush_def split: option.split_asm if_split_asm)
  then show ?thesis
    using f False await_write_alone [of s1 w "c (Suc n)"] await_write_alone [of "await_write w (c (Suc n)) s1" w "c (Suc n)"]
    by (cases p) (auto simp: Let_def split: option.split)
qed simp

lemma close_loop_returns:
  assumes "pc_closed s"
  shows "\<exists>x. close_loop (Suc (Suc (Suc n))) w c s = Some x"
proof (cases "pc_pending s = None \<or> pc_in_flight s = None")
  case False
  obtain p s1 where f: "flush s = (p, s1)" by fastforce
  have c: "pc_closed s1" using f flush_kept(2) [of s] assms by simp
  let ?t = "c (Suc (Suc n))"
  have "pc_failure (await_write w ?t s1) \<noteq> None \<or> pc_failure (await_write w ?t (await_write w ?t s1)) \<noteq> None \<or>
      pc_pending (await_write w ?t (await_write w ?t s1)) = None \<or> pc_in_flight (await_write w ?t (await_write w ?t s1)) = None"
    using await_write_first [of "await_write w ?t s1" w ?t] c by auto
  then show ?thesis
    using f False close_loop_alone [of "await_write w ?t (await_write w ?t s1)" n w c]
    by (cases p) (auto simp: Let_def simp del: close_loop.simps(2) simp: close_loop.simps(2) [of "Suc (Suc n)"] split: option.split)
qed (use close_loop_alone [of s "Suc n"] in blast)

section \<open>Properties\<close>

text \<open>Units 1 are written; while 5 is being written, 3 is reported; the write of 5 ends and the timer fires.\<close>

definition units :: "int \<Rightarrow> progress_update" where
  "units n = \<lparr>pu_completed = n, pu_total = None, pu_message = None\<rparr>"

definition fresh :: coalescer where
  "fresh = \<lparr>pc_interval_ms = 100, pc_min_delta = 1, pc_pending = None, pc_last_sent = None,
    pc_last_sent_at = 0, pc_timer = False, pc_in_flight = None, pc_failure = None, pc_closed = False,
    pc_writes = [], pc_accepted = []\<rparr>"

definition crowded :: coalescer where
  "crowded = snd (report 201 (units 3) (snd (report 200 (units 5)
    (write_settled 5 (write_done 5 (units 1) (snd (report 0 (units 1) fresh)))))))"

definition overtaken :: coalescer where
  "overtaken = timer_fires (write_settled 210 (write_done 210 (units 5) crowded))"

definition at_rest :: coalescer where
  "at_rest = write_settled 400 (write_done 400 (units 3) overtaken)"

lemma fresh_reached: "coalescer_reached fresh"
  by (rule created [of None None]) code_simp

lemma crowded_reached: "coalescer_reached crowded"
  unfolding crowded_def
  by (intro stepped [OF _ reported] stepped [OF _ settled] stepped [OF _ written] fresh_reached; code_simp)

lemma overtaken_reached: "coalescer_reached overtaken"
  unfolding overtaken_def
  by (intro stepped [OF _ timed] stepped [OF _ settled] stepped [OF _ written] crowded_reached; code_simp)

lemma at_rest_reached: "coalescer_reached at_rest"
  unfolding at_rest_def
  by (intro stepped [OF _ settled] stepped [OF _ written] overtaken_reached; code_simp)

text \<open>
  C26: However calls, timer and ends of writes interleave, the writer is given accepted updates only, each at most
  once and in the order they were accepted; and whenever nothing is buffered or out and no write failed, the update
  accepted last is the one written last.
\<close>

theorem coalescer_keeps_order:
  assumes "coalescer_reached s"
  shows "subseq (pc_writes s) (pc_accepted s) \<and>
    (pc_pending s = None \<and> pc_in_flight s = None \<and> pc_failure s = None \<and> pc_accepted s \<noteq> [] \<longrightarrow>
      pc_last_sent s = Some (last (pc_accepted s)) \<and> last (pc_writes s) = last (pc_accepted s))"
  using coalescer_reached_ok [OF assms] coalescer_ok_idle coalescer_ok_writes by blast

theorem coalescer_keeps_order_witness:
  "subseq (pc_writes at_rest) (pc_accepted at_rest) \<and> pc_last_sent at_rest = Some (units 3) \<and> last (pc_writes at_rest) = units 3"
proof -
  have "pc_pending at_rest = None \<and> pc_in_flight at_rest = None \<and> pc_failure at_rest = None" "pc_accepted at_rest = map units [1, 5, 3]"
    by code_simp+
  with coalescer_keeps_order [OF at_rest_reached] show ?thesis by simp
qed

text \<open>
  C27: Closing a coalescer returns, whatever the writer answers and however the time passes, within three rounds of
  its loop. Unless it reports the error of a write, nothing is buffered or out any more and the update accepted last
  is the one written last; and while no write fails, it reports none.
\<close>

theorem close_writes_last:
  assumes "coalescer_reached s" and "\<not> pc_closed s"
  shows "\<exists>r s'. close (Suc (Suc (Suc n))) writer clock s = Some (r, s') \<and> pc_failure s' = r \<and>
    (r = None \<longrightarrow> pc_pending s' = None \<and> pc_in_flight s' = None \<and>
      (pc_accepted s \<noteq> [] \<longrightarrow> pc_last_sent s' = Some (last (pc_accepted s)) \<and> last (pc_writes s') = last (pc_accepted s))) \<and>
    (pc_failure s = None \<and> (\<forall>u. writer u = None) \<longrightarrow> r = None)"
proof -
  have b: "pc_closed (begin_close s)" "pc_failure (begin_close s) = pc_failure s" "pc_accepted (begin_close s) = pc_accepted s"
    by (simp_all add: begin_close_def)
  obtain r s' where l: "close_loop (Suc (Suc (Suc n))) writer clock (begin_close s) = Some (r, s')"
    using close_loop_returns [OF b(1), of n writer clock] by fastforce
  have ok: "coalescer_ok (begin_close s)" using coalescer_reached_ok [OF assms(1)] by simp
  note R = close_loop_result [OF l ok]
  have "r = None \<longrightarrow> pc_accepted s \<noteq> [] \<longrightarrow> pc_last_sent s' = Some (last (pc_accepted s)) \<and> last (pc_writes s') = last (pc_accepted s)"
    using R b(3) coalescer_ok_idle [of s'] by auto
  moreover have "pc_failure s = None \<and> (\<forall>u. writer u = None) \<longrightarrow> r = None" using close_loop_fine [OF l] b(2) by auto
  ultimately show ?thesis using R l assms(2) unfolding close_def by (simp del: close_loop.simps(2))
qed

theorem close_writes_last_witness:
  "\<exists>s'. close 3 (\<lambda>_. None) (\<lambda>n. int n) crowded = Some (None, s') \<and> pc_pending s' = None \<and> pc_in_flight s' = None \<and>
    pc_last_sent s' = Some (units 3) \<and> last (pc_writes s') = units 3"
proof -
  have "\<not> pc_closed crowded" "pc_failure crowded = None" "pc_accepted crowded = map units [1, 5, 3]" by code_simp+
  with close_writes_last [OF crowded_reached, of 0 "\<lambda>_. None" "\<lambda>n. int n"] show ?thesis by (auto simp: numeral_3_eq_3)
qed

text \<open>
  An older update can be written after a newer one. An update is compared with the buffered or the last
  written one, not with the one being written: reported while a larger one is out, it is accepted and written next.
\<close>

lemma overtaken_update_written:
  "coalescer_reached overtaken \<and> map pu_completed (pc_writes overtaken) = [1, 5, 3]"
  using overtaken_reached by (rule conjI) code_simp

end
