(* ===== verification/Recovery.thy ===== *)
theory Recovery
  imports Client
begin

text \<open>
  Guarded recovery (\<open>recovery/guarded.ts\<close>): a repair is proposed, previewed, approved by a second person, executed
  once and checked, under an idempotency key that a ledger holds. The repair service behind the port and the check
  are outside the SDK: every reply they can give is an input of a step. Calls of \<open>execute\<close> in one or more processes
  interleave at their awaits; \<open>resume_call\<close> is the code between two awaits. The two statements of the SQL ledger's
  \<open>begin\<close> are one step, since rows are never deleted.
\<close>

section \<open>Data\<close>

record finding_key =
  fk_rule_id :: string
  fk_subject_type :: string
  fk_subject_id :: string
  fk_invariant_version :: int

datatype repair_state = R_proposed | R_previewed | R_approved | R_running | R_succeeded | R_failed | R_stale | R_uncertain | R_aborted

record repair_record =
  rr_id :: string
  rr_finding :: finding_key
  rr_handler :: string
  rr_parameters :: js_value
  rr_state :: repair_state
  rr_proposed_by :: string
  rr_preview :: "string option"
  rr_precondition :: "string option"
  rr_version :: int

record recovery_request =
  rq_finding :: finding_key
  rq_handler :: string
  rq_parameters :: js_value
  rq_key :: string
  rq_requested_by :: string
  rq_approved_by :: "string option"
  rq_approval_reason :: "string option"
  rq_confirm :: bool

datatype check_status = Check_verified | Check_failed | Check_unknown

datatype recovery_stage = Previewed_stage | Verified_stage | Failed_stage | Uncertain_stage

record recovery_result =
  rv_key :: string
  rv_repair_id :: string
  rv_stage :: recovery_stage
  rv_plan :: repair_record
  rv_post_check :: "(check_status \<times> string) option"
  rv_replayed :: bool

section \<open>Ledgers\<close>

record ledger_entry =
  le_fingerprint :: string
  le_completed :: bool
  le_result :: "recovery_result option"

definition key_reused :: client_error where
  "key_reused = Type_error ''recovery idempotency key was reused with different repair parameters''"

type_synonym memory_ledger = "string \<rightharpoonup> ledger_entry"

definition memory_begin :: "string \<Rightarrow> string \<Rightarrow> memory_ledger \<Rightarrow> client_error + (ledger_entry option \<times> memory_ledger)" where
  "memory_begin key fp l = (case l key of
      None \<Rightarrow> Inr (None, l(key \<mapsto> \<lparr>le_fingerprint = fp, le_completed = False, le_result = None\<rparr>))
    | Some e \<Rightarrow> if le_fingerprint e \<noteq> fp then Inl key_reused else Inr (Some e, l))"

definition memory_complete :: "string \<Rightarrow> string \<Rightarrow> recovery_result \<Rightarrow> memory_ledger \<Rightarrow> client_error + memory_ledger" where
  "memory_complete key fp res l =
    (if (case l key of Some e \<Rightarrow> le_fingerprint e \<noteq> fp | None \<Rightarrow> False) then Inl key_reused
     else Inr (l(key \<mapsto> \<lparr>le_fingerprint = fp, le_completed = True, le_result = Some res\<rparr>)))"

text \<open>The table of the SQL ledger, keyed by \<open>idempotency_key\<close>.\<close>

record idempotency_row =
  ir_key :: string
  ir_fingerprint :: string
  ir_completed :: bool
  ir_result :: "recovery_result option"

definition ir_entry :: "idempotency_row \<Rightarrow> ledger_entry" where
  "ir_entry r = \<lparr>le_fingerprint = ir_fingerprint r, le_completed = ir_completed r, le_result = ir_result r\<rparr>"

definition sql_begin :: "string \<Rightarrow> string \<Rightarrow> idempotency_row list \<Rightarrow> client_error + (ledger_entry option \<times> idempotency_row list)" where
  "sql_begin key fp l =
    (if btrim key = '''' then Inl (Js_error ''new row violates check constraint'')
     else case find (\<lambda>r. ir_key r = key) l of
       None \<Rightarrow> Inr (None, l @ [\<lparr>ir_key = key, ir_fingerprint = fp, ir_completed = False, ir_result = None\<rparr>])
     | Some r \<Rightarrow> if ir_fingerprint r \<noteq> fp then Inl key_reused else Inr (Some (ir_entry r), l))"

definition sql_complete :: "string \<Rightarrow> string \<Rightarrow> recovery_result \<Rightarrow> idempotency_row list \<Rightarrow> client_error + idempotency_row list" where
  "sql_complete key fp res l = (let hit = (\<lambda>r. ir_key r = key \<and> ir_fingerprint r = fp \<and> \<not> ir_completed r) in
    if filter hit l = [] then Inl (Js_error ''recovery idempotency ledger completion lost its running fence'')
    else Inr (map (\<lambda>r. if hit r then r\<lparr>ir_completed := True, ir_result := Some res\<rparr> else r) l))"

section \<open>Requests\<close>

definition validateRequest :: "recovery_request \<Rightarrow> client_error option" where
  "validateRequest q =
    (if blank_text (rq_key q) then Some (Type_error ''recovery idempotencyKey is required'')
     else if blank_text (rq_requested_by q) then Some (Type_error ''recovery requestedBy is required'')
     else if blank_text (rq_handler q) then Some (Type_error ''recovery handler is required'')
     else if blank_text (fk_rule_id (rq_finding q)) \<or> blank_text (fk_subject_type (rq_finding q)) \<or> blank_text (fk_subject_id (rq_finding q))
     then Some (Type_error ''recovery finding identity is required'') else None)"

definition repairIdFor :: "(string \<Rightarrow> string) \<Rightarrow> recovery_request \<Rightarrow> string" where
  "repairIdFor sha256 q = ''repair_'' @ take 40 (sha256 (js_trim (rq_key q)))"

definition normalizedParameters :: "recovery_request \<Rightarrow> js_value" where
  "normalizedParameters q = (if rq_parameters q = Undefined then Obj [] else rq_parameters q)"

definition finding_value :: "finding_key \<Rightarrow> js_value" where
  "finding_value f = Obj [(''ruleId'', Str (fk_rule_id f)), (''subjectType'', Str (fk_subject_type f)),
    (''subjectId'', Str (fk_subject_id f)), (''invariantVersion'', Num (fk_invariant_version f))]"

definition fingerprintFor :: "recovery_request \<Rightarrow> string" where
  "fingerprintFor q = print_value (Obj [(''key'', Str (js_trim (rq_key q))), (''finding'', finding_value (rq_finding q)),
    (''handler'', Str (rq_handler q)), (''parameters'', normalizedParameters q)])"

definition lower_case :: "string \<Rightarrow> string" where
  "lower_case = map (\<lambda>c. if 65 \<le> (of_char c :: nat) \<and> of_char c \<le> (90 :: nat) then char_of (of_char c + 32 :: nat) else c)"

definition alreadyExists :: "client_error \<Rightarrow> bool" where
  "alreadyExists e \<longleftrightarrow>
    (\<exists>p \<in> set [''already exists'', ''duplicate'', ''unique'', ''conflict'']. includes_text (lower_case (error_message e)) p) \<or>
    (case e of Rhinoq_error r \<Rightarrow> re_code r \<in> {''RHINOQ_ALREADY_EXISTS'', ''23505'', ''409''} | _ \<Rightarrow> False)"

section \<open>A call\<close>

text \<open>What a call waits for. \<open>Completes\<close> waits for the ledger.\<close>

datatype recovery_pc =
    Begins
  | Proposes
  | Previews
  | Approves recovery_result
  | Executes recovery_result
  | Checks repair_record
  | Completes recovery_result
  | Returned recovery_result
  | Threw client_error

datatype port_reply = Repaired repair_record | Checked check_status string | Refused client_error

datatype port_call =
    Propose_repair string
  | Preview_repair string
  | Approve_repair string string string
  | Execute_repair string
  | Post_check

definition uncertain_result :: "recovery_request \<Rightarrow> string \<Rightarrow> client_error \<Rightarrow> repair_record option \<Rightarrow> recovery_result" where
  "uncertain_result q repairId e plan = \<lparr>rv_key = rq_key q, rv_repair_id = repairId, rv_stage = Uncertain_stage,
    rv_plan = coalesce plan \<lparr>rr_id = repairId, rr_finding = rq_finding q, rr_handler = rq_handler q,
      rr_parameters = normalizedParameters q, rr_state = R_uncertain, rr_proposed_by = rq_requested_by q,
      rr_preview = None, rr_precondition = None, rr_version = 1\<rparr>,
    rv_post_check = Some (Check_unknown, error_message e), rv_replayed = False\<rparr>"

definition preview_plan :: "recovery_request \<Rightarrow> repair_record \<Rightarrow> client_error + recovery_result" where
  "preview_plan q plan =
    (if rr_handler plan \<noteq> rq_handler q \<or> rr_finding plan \<noteq> rq_finding q \<or>
        stringify (rr_parameters plan) \<noteq> stringify (normalizedParameters q)
     then Inl key_reused
     else if blank_text (coalesce (rr_preview plan) '''') \<or> blank_text (coalesce (rr_precondition plan) '''')
     then Inl (Js_error ''recovery preview did not return a precondition and change summary'')
     else Inr \<lparr>rv_key = rq_key q, rv_repair_id = rr_id plan, rv_stage = Previewed_stage, rv_plan = plan,
       rv_post_check = None, rv_replayed = False\<rparr>)"

definition preview_failed :: "(string \<Rightarrow> string) \<Rightarrow> recovery_request \<Rightarrow> client_error \<Rightarrow> recovery_pc" where
  "preview_failed sha256 q e =
    (if rq_confirm q then Completes (uncertain_result q (repairIdFor sha256 q) e None) else Threw e)"

definition checked_result :: "recovery_request \<Rightarrow> repair_record \<Rightarrow> check_status \<Rightarrow> string \<Rightarrow> recovery_result" where
  "checked_result q plan status evidence = \<lparr>rv_key = rq_key q, rv_repair_id = rr_id plan,
    rv_stage = (if rr_state plan = R_succeeded \<and> status = Check_verified then Verified_stage
      else if status = Check_failed \<or> rr_state plan = R_failed then Failed_stage else Uncertain_stage),
    rv_plan = plan, rv_post_check = Some (status, evidence), rv_replayed = False\<rparr>"

text \<open>The first stretch of \<open>execute\<close>: the guards of a confirmed request, then the fence of the ledger.\<close>

definition start_call ::
  "(string \<Rightarrow> string \<Rightarrow> 'l \<Rightarrow> client_error + (ledger_entry option \<times> 'l)) \<Rightarrow> (string \<Rightarrow> string) \<Rightarrow> recovery_request \<Rightarrow> 'l \<Rightarrow>
    recovery_pc \<times> port_call list \<times> 'l" where
  "start_call begin_entry sha256 q l = (case validateRequest q of
      Some e \<Rightarrow> (Threw e, [], l)
    | None \<Rightarrow>
        if \<not> rq_confirm q then (Proposes, [Propose_repair (repairIdFor sha256 q)], l)
        else if blank_text (coalesce (rq_approved_by q) '''') \<or> blank_text (coalesce (rq_approval_reason q) '''')
        then (Threw (Type_error ''confirmed recovery requires approvedBy and approvalReason''), [], l)
        else if js_trim (coalesce (rq_approved_by q) '''') = js_trim (rq_requested_by q)
        then (Threw (Type_error ''recovery approval must be made by a different actor''), [], l)
        else case begin_entry (js_trim (rq_key q)) (fingerprintFor q) l of
          Inl e \<Rightarrow> (Threw e, [], l)
        | Inr (None, l') \<Rightarrow> (Proposes, [Propose_repair (repairIdFor sha256 q)], l')
        | Inr (Some e, l') \<Rightarrow> (case (le_completed e, le_result e) of
            (True, Some res) \<Rightarrow> (Returned (res\<lparr>rv_replayed := True\<rparr>), [], l')
          | (True, None) \<Rightarrow> (Proposes, [Propose_repair (repairIdFor sha256 q)], l')
          | (False, _) \<Rightarrow> (Threw (Named_error ''RecoveryInProgressError''
              (''recovery idempotency key '' @ quoted (rq_key q) @ '' is already running'')), [], l')))"

text \<open>A call goes on with a reply; \<open>None\<close> when that reply cannot come where the call waits.\<close>

fun resume_call ::
  "(string \<Rightarrow> string \<Rightarrow> 'l \<Rightarrow> client_error + (ledger_entry option \<times> 'l)) \<Rightarrow>
    (string \<Rightarrow> string \<Rightarrow> recovery_result \<Rightarrow> 'l \<Rightarrow> client_error + 'l) \<Rightarrow> (string \<Rightarrow> string) \<Rightarrow> recovery_request \<Rightarrow>
    recovery_pc \<Rightarrow> port_reply \<Rightarrow> 'l \<Rightarrow> (recovery_pc \<times> port_call list \<times> 'l) option" where
  "resume_call bg cm h q Begins r l = Some (start_call bg h q l)"
| "resume_call bg cm h q Proposes (Repaired p) l = Some (Previews, [Preview_repair (rr_id p)], l)"
| "resume_call bg cm h q Proposes (Refused e) l =
    Some (if alreadyExists e then (Previews, [Preview_repair (repairIdFor h q)], l) else (preview_failed h q e, [], l))"
| "resume_call bg cm h q Previews (Repaired p) l = Some (case preview_plan q p of
      Inl e \<Rightarrow> (preview_failed h q e, [], l)
    | Inr v \<Rightarrow> if rq_confirm q
        then (Approves v, [Approve_repair (rv_repair_id v) (coalesce (rq_approved_by q) '''') (coalesce (rq_approval_reason q) '''')], l)
        else (Returned v, [], l))"
| "resume_call bg cm h q Previews (Refused e) l = Some (preview_failed h q e, [], l)"
| "resume_call bg cm h q (Approves v) (Repaired p) l = Some (Executes v, [Execute_repair (rv_repair_id v)], l)"
| "resume_call bg cm h q (Approves v) (Refused e) l = Some (Completes (uncertain_result q (rv_repair_id v) e (Some (rv_plan v))), [], l)"
| "resume_call bg cm h q (Executes v) (Repaired p) l = Some (Checks p, [Post_check], l)"
| "resume_call bg cm h q (Executes v) (Refused e) l = Some (Completes (uncertain_result q (rv_repair_id v) e (Some (rv_plan v))), [], l)"
| "resume_call bg cm h q (Checks p) (Checked st ev) l = Some (Completes (checked_result q p st ev), [], l)"
| "resume_call bg cm h q (Checks p) (Refused e) l = Some (Completes (checked_result q p Check_unknown (error_message e)), [], l)"
| "resume_call bg cm h q (Completes v) r l = Some (case cm (js_trim (rq_key q)) (fingerprintFor q) v l of
      Inl e \<Rightarrow> (Threw e, [], l)
    | Inr l' \<Rightarrow> (Returned v, [], l'))"
| "resume_call bg cm h q _ _ l = None"

section \<open>Calls side by side\<close>

record 'l recovery_system =
  rs_ledger :: 'l
  rs_calls :: "(recovery_request \<times> recovery_pc) list"
  rs_log :: "(nat \<times> port_call) list"

definition waiting :: "recovery_pc \<Rightarrow> bool" where
  "waiting pc \<longleftrightarrow> (case pc of Returned _ \<Rightarrow> False | Threw _ \<Rightarrow> False | _ \<Rightarrow> True)"

text \<open>A call arrives, goes on, or is interrupted: its process ends or a statement of the ledger is not answered.\<close>

inductive recovery_step ::
  "(string \<Rightarrow> string \<Rightarrow> 'l \<Rightarrow> client_error + (ledger_entry option \<times> 'l)) \<Rightarrow>
    (string \<Rightarrow> string \<Rightarrow> recovery_result \<Rightarrow> 'l \<Rightarrow> client_error + 'l) \<Rightarrow> (string \<Rightarrow> string) \<Rightarrow>
    'l recovery_system \<Rightarrow> 'l recovery_system \<Rightarrow> bool" for bg cm h where
  arrives: "recovery_step bg cm h S (S\<lparr>rs_calls := rs_calls S @ [(q, Begins)]\<rparr>)"
| resumes: "i < length (rs_calls S) \<Longrightarrow> rs_calls S ! i = (q, pc) \<Longrightarrow>
    resume_call bg cm h q pc r (rs_ledger S) = Some (pc', cs, l') \<Longrightarrow>
    recovery_step bg cm h S (S\<lparr>rs_ledger := l', rs_calls := (rs_calls S)[i := (q, pc')], rs_log := rs_log S @ map (Pair i) cs\<rparr>)"
| interrupted: "i < length (rs_calls S) \<Longrightarrow> rs_calls S ! i = (q, pc) \<Longrightarrow> waiting pc \<Longrightarrow>
    recovery_step bg cm h S (S\<lparr>rs_calls := (rs_calls S)[i := (q, Threw e)]\<rparr>)"

definition recovery_start :: "'l \<Rightarrow> 'l recovery_system" where
  "recovery_start l = \<lparr>rs_ledger = l, rs_calls = [], rs_log = []\<rparr>"

text \<open>The port calls of one call, and the protocol they follow.\<close>

definition log_of :: "nat \<Rightarrow> 'l recovery_system \<Rightarrow> port_call list" where
  "log_of i S = map snd (filter (\<lambda>x. fst x = i) (rs_log S))"

definition protocol :: "(string \<Rightarrow> string) \<Rightarrow> recovery_request \<Rightarrow> string \<Rightarrow> string \<Rightarrow> port_call list" where
  "protocol h q p x = [Propose_repair (repairIdFor h q), Preview_repair p,
    Approve_repair x (coalesce (rq_approved_by q) '''') (coalesce (rq_approval_reason q) ''''), Execute_repair x, Post_check]"

definition approval_ok :: "recovery_request \<Rightarrow> bool" where
  "approval_ok q \<longleftrightarrow> \<not> blank_text (coalesce (rq_approved_by q) '''') \<and> \<not> blank_text (coalesce (rq_approval_reason q) '''') \<and>
    js_trim (coalesce (rq_approved_by q) '''') \<noteq> js_trim (rq_requested_by q)"

text \<open>How far along the protocol a call is, by where it waits.\<close>

definition trace_ok :: "(string \<Rightarrow> string) \<Rightarrow> recovery_request \<Rightarrow> recovery_pc \<Rightarrow> port_call list \<Rightarrow> bool" where
  "trace_ok h q pc tr \<longleftrightarrow> (case pc of
      Begins \<Rightarrow> tr = []
    | Proposes \<Rightarrow> \<exists>p x. tr = take 1 (protocol h q p x)
    | Previews \<Rightarrow> \<exists>p x. tr = take 2 (protocol h q p x)
    | Approves v \<Rightarrow> rq_confirm q \<and> (\<exists>p. tr = take 3 (protocol h q p (rv_repair_id v)))
    | Executes v \<Rightarrow> rq_confirm q \<and> (\<exists>p. tr = take 4 (protocol h q p (rv_repair_id v)))
    | Checks r \<Rightarrow> rq_confirm q \<and> (\<exists>p x. tr = protocol h q p x)
    | Completes v \<Rightarrow> rq_confirm q \<and> tr \<noteq> [] \<and> (\<exists>p x n. tr = take n (protocol h q p x))
    | _ \<Rightarrow> \<exists>p x n. tr = take n (protocol h q p x) \<and> (2 < n \<longrightarrow> rq_confirm q))"

lemma trace_ok_ended: "trace_ok h q pc tr \<Longrightarrow> \<exists>p x n. tr = take n (protocol h q p x) \<and> (2 < n \<longrightarrow> rq_confirm q)"
  unfolding trace_ok_def
  by (cases pc) (force intro: exI [of _ 0] exI [of _ 1] exI [of _ 2] exI [of _ 3] exI [of _ 4] exI [of _ 5] simp: protocol_def)+

text \<open>A call that goes on past \<open>begin\<close>, and one that ends there.\<close>

definition started :: "(string \<Rightarrow> string \<Rightarrow> 'l \<Rightarrow> client_error + (ledger_entry option \<times> 'l)) \<Rightarrow> recovery_request \<Rightarrow> 'l \<Rightarrow> 'l \<Rightarrow> bool" where
  "started bg q l l' \<longleftrightarrow> (if rq_confirm q
    then approval_ok q \<and> (\<exists>r. bg (js_trim (rq_key q)) (fingerprintFor q) l = Inr (r, l') \<and>
      (\<forall>e. r = Some e \<longrightarrow> le_completed e \<and> le_result e = None))
    else l' = l)"

definition not_started :: "(string \<Rightarrow> string \<Rightarrow> 'l \<Rightarrow> client_error + (ledger_entry option \<times> 'l)) \<Rightarrow> recovery_request \<Rightarrow> 'l \<Rightarrow> 'l \<Rightarrow> bool" where
  "not_started bg q l l' \<longleftrightarrow> l' = l \<or> (\<exists>e. bg (js_trim (rq_key q)) (fingerprintFor q) l = Inr (Some e, l'))"

lemma start_call_fence:
  assumes "approval_ok q" and "rq_confirm q" and "validateRequest q = None"
  shows "start_call bg h q l = (pc', cs, l') \<Longrightarrow>
    pc' = Proposes \<and> cs = [Propose_repair (repairIdFor h q)] \<and> started bg q l l' \<or> cs = [] \<and> \<not> waiting pc' \<and> not_started bg q l l'"
proof (cases "bg (js_trim (rq_key q)) (fingerprintFor q) l")
  case (Inr y)
  obtain r l1 where "y = (r, l1)" by fastforce
  then show "start_call bg h q l = (pc', cs, l') \<Longrightarrow> ?thesis"
    using assms Inr
    by (cases r; cases "le_completed (the r)"; cases "le_result (the r)")
      (auto simp: start_call_def approval_ok_def started_def not_started_def waiting_def)
qed (use assms in \<open>auto simp: start_call_def approval_ok_def not_started_def waiting_def\<close>)

lemma start_call_cases:
  assumes "start_call bg h q l = (pc', cs, l')"
  shows "pc' = Proposes \<and> cs = [Propose_repair (repairIdFor h q)] \<and> started bg q l l' \<or> cs = [] \<and> \<not> waiting pc' \<and> not_started bg q l l'"
proof (cases "approval_ok q \<and> rq_confirm q \<and> validateRequest q = None")
  case False
  show ?thesis
  proof (cases "validateRequest q")
    case None
    then show ?thesis
      using assms False
      by (cases "rq_confirm q") (auto simp: start_call_def approval_ok_def started_def not_started_def waiting_def split: if_split_asm)
  qed (use assms in \<open>auto simp: start_call_def not_started_def waiting_def\<close>)
qed (use start_call_fence [OF _ _ _ assms] in simp)

lemma trace_ok_simps [simp]:
  "trace_ok h q Begins tr \<longleftrightarrow> tr = []"
  "trace_ok h q Proposes [Propose_repair (repairIdFor h q)]"
  by (simp_all add: trace_ok_def protocol_def)

lemma trace_ok_endedI: "\<not> waiting pc \<Longrightarrow> tr = take n (protocol h q p x) \<Longrightarrow> (2 < n \<longrightarrow> rq_confirm q) \<Longrightarrow> trace_ok h q pc tr"
  by (cases pc) (auto simp: waiting_def trace_ok_def)

lemma trace_ok_uncertain:
  assumes "trace_ok h q pc tr" and "pc \<noteq> Begins" and "waiting pc"
  shows "rq_confirm q \<Longrightarrow> trace_ok h q (Completes v) tr" and "\<not> rq_confirm q \<Longrightarrow> trace_ok h q (Threw e) tr"
    and "\<not> rq_confirm q \<Longrightarrow> trace_ok h q (Returned v) tr"
proof -
  obtain p x n where t: "tr = take n (protocol h q p x)" "2 < n \<longrightarrow> rq_confirm q" using trace_ok_ended [OF assms(1)] by blast
  have "tr \<noteq> []" using assms by (cases pc) (auto simp: trace_ok_def protocol_def waiting_def)
  then show "rq_confirm q \<Longrightarrow> trace_ok h q (Completes v) tr" using t by (auto simp: trace_ok_def)
  show "trace_ok h q (Threw e) tr" "trace_ok h q (Returned v) tr" using t by (auto simp: trace_ok_def)
qed

lemma resume_call_trace:
  assumes "trace_ok h q pc tr" and "resume_call bg cm h q pc r l = Some (pc', cs, l')"
  shows "trace_ok h q pc' (tr @ cs)"
  using assms(2)
proof (cases rule: resume_call.elims)
  case 1
  then have "start_call bg h q l = (pc', cs, l')" by simp
  then show ?thesis
    using 1 assms(1) by (auto dest!: start_call_cases intro: trace_ok_endedI [of _ _ 0])
next
  case 2
  then show ?thesis using assms(1) by (auto simp: trace_ok_def protocol_def)
next
  case (3 e)
  then show ?thesis
    using assms(1) trace_ok_uncertain [OF assms(1)]
    by (auto simp: preview_failed_def waiting_def split: if_split_asm) (auto simp: trace_ok_def protocol_def)
next
  case (4 p)
  then show ?thesis
    using assms(1) trace_ok_uncertain [OF assms(1)]
    by (auto simp: preview_failed_def waiting_def split: sum.split_asm if_split_asm) (auto simp: trace_ok_def protocol_def)
next
  case (5 e)
  then show ?thesis using trace_ok_uncertain [OF assms(1)] by (auto simp: preview_failed_def waiting_def)
next
  case (6 v p)
  then show ?thesis using assms(1) by (auto simp: trace_ok_def protocol_def)
next
  case (8 v p)
  then show ?thesis using assms(1) by (auto simp: trace_ok_def protocol_def)
next
  case (12 v)
  obtain p x n where "tr = take n (protocol h q p x)" "2 < n \<longrightarrow> rq_confirm q" using trace_ok_ended [OF assms(1)] by blast
  then show ?thesis using 12 by (auto simp: waiting_def split: sum.split_asm intro!: trace_ok_endedI)
qed (use trace_ok_uncertain [OF assms(1)] assms(1) in \<open>auto simp: waiting_def trace_ok_def\<close>)

lemma resume_call_ledger:
  assumes "resume_call bg cm h q pc r l = Some (pc', cs, l')"
  shows "pc = Begins \<and> start_call bg h q l = (pc', cs, l') \<or>
    (\<exists>v. pc = Completes v) \<and> cs = [] \<and> \<not> waiting pc' \<and> (l' = l \<or> (\<exists>v. cm (js_trim (rq_key q)) (fingerprintFor q) v l = Inr l')) \<or>
    pc \<noteq> Begins \<and> waiting pc \<and> l' = l"
  using assms
  by (cases rule: resume_call.elims)
    (auto simp: waiting_def preview_failed_def split: sum.split_asm if_split_asm)

section \<open>What the ledgers promise\<close>

definition running_entry :: "string \<Rightarrow> ledger_entry" where
  "running_entry fp = \<lparr>le_fingerprint = fp, le_completed = False, le_result = None\<rparr>"

definition completed_entry :: "string \<Rightarrow> recovery_result \<Rightarrow> ledger_entry" where
  "completed_entry fp v = \<lparr>le_fingerprint = fp, le_completed = True, le_result = Some v\<rparr>"

text \<open>The calls that went past \<open>begin\<close> hold different keys, and the ledger has an entry for each.\<close>

definition holds_key :: "'l recovery_system \<Rightarrow> nat \<Rightarrow> bool" where
  "holds_key S i \<longleftrightarrow> i < length (rs_calls S) \<and> rq_confirm (fst (rs_calls S ! i)) \<and> log_of i S \<noteq> []"

definition call_key :: "'l recovery_system \<Rightarrow> nat \<Rightarrow> string" where
  "call_key S i = js_trim (rq_key (fst (rs_calls S ! i)))"

definition system_ok ::
  "('l \<Rightarrow> string \<rightharpoonup> ledger_entry) \<Rightarrow> ('l \<Rightarrow> bool) \<Rightarrow> (string \<Rightarrow> string) \<Rightarrow> 'l recovery_system \<Rightarrow> bool" where
  "system_ok entry ok h S \<longleftrightarrow> ok (rs_ledger S) \<and> (\<forall>x \<in> set (rs_log S). fst x < length (rs_calls S)) \<and>
    (\<forall>i < length (rs_calls S). trace_ok h (fst (rs_calls S ! i)) (snd (rs_calls S ! i)) (log_of i S)) \<and>
    (\<forall>i. holds_key S i \<longrightarrow> approval_ok (fst (rs_calls S ! i)) \<and> entry (rs_ledger S) (call_key S i) \<noteq> None) \<and>
    (\<forall>i j. holds_key S i \<and> holds_key S j \<and> call_key S i = call_key S j \<longrightarrow> i = j)"

locale recovery_ledger =
  fixes bg :: "string \<Rightarrow> string \<Rightarrow> 'l \<Rightarrow> client_error + (ledger_entry option \<times> 'l)"
    and cm :: "string \<Rightarrow> string \<Rightarrow> recovery_result \<Rightarrow> 'l \<Rightarrow> client_error + 'l"
    and entry :: "'l \<Rightarrow> string \<rightharpoonup> ledger_entry"
    and ok :: "'l \<Rightarrow> bool"
    and blank :: 'l
  assumes blank_ok: "ok blank" "entry blank = Map.empty"
    and begin_new: "ok l \<Longrightarrow> bg k f l = Inr (None, l') \<Longrightarrow> ok l' \<and> entry l k = None \<and> entry l' = (entry l)(k \<mapsto> running_entry f)"
    and begin_old: "ok l \<Longrightarrow> bg k f l = Inr (Some e, l') \<Longrightarrow>
      l' = l \<and> entry l k = Some e \<and> le_fingerprint e = f \<and> (le_completed e \<longrightarrow> le_result e \<noteq> None)"
    and complete_law: "ok l \<Longrightarrow> cm k f v l = Inr l' \<Longrightarrow> ok l' \<and> entry l' = (entry l)(k \<mapsto> completed_entry f v)"
begin

lemma entries_kept:
  assumes "ok l" and "resume_call bg cm h q pc r l = Some (pc', cs, l')"
  shows "ok l' \<and> (\<forall>k. entry l k \<noteq> None \<longrightarrow> entry l' k \<noteq> None)"
proof -
  have "l' = l \<or> (\<exists>r. bg (js_trim (rq_key q)) (fingerprintFor q) l = Inr (r, l')) \<or> (\<exists>v. cm (js_trim (rq_key q)) (fingerprintFor q) v l = Inr l')"
    using resume_call_ledger [OF assms(2)] by (auto dest!: start_call_cases simp: started_def not_started_def split: if_split_asm)
  then show ?thesis
  proof (elim disjE exE)
    fix r assume b: "bg (js_trim (rq_key q)) (fingerprintFor q) l = Inr (r, l')"
    then show ?thesis using begin_new [OF assms(1)] begin_old [OF assms(1)] assms(1) by (cases r) fastforce+
  next
    fix v assume "cm (js_trim (rq_key q)) (fingerprintFor q) v l = Inr l'"
    then show ?thesis using complete_law [OF assms(1)] by auto
  qed (use assms(1) in simp)
qed

lemma first_port_call:
  assumes "ok l" and "rq_confirm q" and "resume_call bg cm h q Begins r l = Some (pc', cs, l')" and "cs \<noteq> []"
  shows "approval_ok q \<and> entry l (js_trim (rq_key q)) = None \<and> entry l' (js_trim (rq_key q)) \<noteq> None"
proof -
  obtain x where "approval_ok q" "bg (js_trim (rq_key q)) (fingerprintFor q) l = Inr (x, l')"
      "\<forall>e. x = Some e \<longrightarrow> le_completed e \<and> le_result e = None"
    using start_call_cases [of bg h q l pc' cs l'] assms(2-4) by (auto simp: started_def)
  then show ?thesis using begin_new [OF assms(1)] begin_old [OF assms(1)] by (cases x) fastforce+
qed

end

lemma log_of_calls [simp]: "log_of j (S\<lparr>rs_calls := cs\<rparr>) = log_of j S" "log_of j (S\<lparr>rs_ledger := l\<rparr>) = log_of j S"
  by (simp_all add: log_of_def)

lemma log_of_append [simp]: "log_of j (S\<lparr>rs_log := rs_log S @ map (Pair i) cs\<rparr>) = log_of j S @ (if i = j then cs else [])"
  by (simp add: log_of_def filter_map o_def)

lemma log_of_fresh: "\<forall>x \<in> set (rs_log S). fst x < m \<Longrightarrow> m \<le> n \<Longrightarrow> log_of n S = []"
  by (auto simp: log_of_def filter_empty_conv)

lemma empty_trace: "trace_ok h q pc [] \<Longrightarrow> waiting pc \<Longrightarrow> pc = Begins"
  by (cases pc) (auto simp: trace_ok_def protocol_def waiting_def)

lemma resume_call_waiting: "resume_call bg cm h q pc r l = Some y \<Longrightarrow> waiting pc"
  by (erule resume_call.elims) (simp_all add: waiting_def)

text \<open>A step that leaves the ledger and the log alone.\<close>

lemma system_ok_calls:
  assumes ok: "system_ok entry ok h S" and len: "length (rs_calls S) \<le> length cs"
    and same: "\<And>i. i < length (rs_calls S) \<Longrightarrow> fst (cs ! i) = fst (rs_calls S ! i)"
    and tr: "\<And>i. i < length cs \<Longrightarrow> trace_ok h (fst (cs ! i)) (snd (cs ! i)) (log_of i S)"
  shows "system_ok entry ok h (S\<lparr>rs_calls := cs\<rparr>)"
proof -
  have held: "holds_key S i" "call_key (S\<lparr>rs_calls := cs\<rparr>) i = call_key S i" "fst (cs ! i) = fst (rs_calls S ! i)"
    if "holds_key (S\<lparr>rs_calls := cs\<rparr>) i" for i
  proof -
    have "i < length (rs_calls S)"
      using that log_of_fresh [of S "length (rs_calls S)" i] ok by (auto simp: holds_key_def system_ok_def not_le [symmetric])
    then show "holds_key S i" "call_key (S\<lparr>rs_calls := cs\<rparr>) i = call_key S i" "fst (cs ! i) = fst (rs_calls S ! i)"
      using that same by (simp_all add: holds_key_def call_key_def)
  qed
  then have "\<forall>i. holds_key (S\<lparr>rs_calls := cs\<rparr>) i \<longrightarrow> approval_ok (fst (cs ! i)) \<and> entry (rs_ledger S) (call_key (S\<lparr>rs_calls := cs\<rparr>) i) \<noteq> None"
      "\<forall>i j. holds_key (S\<lparr>rs_calls := cs\<rparr>) i \<and> holds_key (S\<lparr>rs_calls := cs\<rparr>) j \<and>
        call_key (S\<lparr>rs_calls := cs\<rparr>) i = call_key (S\<lparr>rs_calls := cs\<rparr>) j \<longrightarrow> i = j"
    using ok unfolding system_ok_def by auto
  then show ?thesis using ok len tr unfolding system_ok_def by fastforce
qed

context recovery_ledger
begin

lemma resumes_ok:
  assumes ok: "system_ok entry ok h S" and i: "i < length (rs_calls S)" "rs_calls S ! i = (q, pc)"
    and r: "resume_call bg cm h q pc r (rs_ledger S) = Some (pc', cs, l')"
  shows "system_ok entry ok h (S\<lparr>rs_ledger := l', rs_calls := (rs_calls S)[i := (q, pc')], rs_log := rs_log S @ map (Pair i) cs\<rparr>)"
    (is "system_ok entry ok h ?T")
proof -
  have log: "log_of j ?T = log_of j S @ (if i = j then cs else [])" for j by (simp add: log_of_def filter_map o_def)
  have call: "fst (rs_calls ?T ! j) = fst (rs_calls S ! j)" "snd (rs_calls ?T ! j) = (if j = i then pc' else snd (rs_calls S ! j))"
    if "j < length (rs_calls S)" for j using i that by (auto simp: nth_list_update)
  have tr: "trace_ok h q pc (log_of i S)" using ok i by (auto simp: system_ok_def)
  have L: "ok (rs_ledger S)" using ok by (simp add: system_ok_def)
  have led: "ok l' \<and> (\<forall>k. entry (rs_ledger S) k \<noteq> None \<longrightarrow> entry l' k \<noteq> None)" by (rule entries_kept [OF L r])
  have key: "call_key ?T j = call_key S j" if "j < length (rs_calls S)" for j using call(1) [OF that] by (simp add: call_key_def)
  have old: "holds_key S j \<or> j = i \<and> rq_confirm q \<and> log_of i S = [] \<and> cs \<noteq> []" if "holds_key ?T j" for j
    using that i log call(1) by (auto simp: holds_key_def split: if_split_asm)
  have new: "approval_ok q \<and> entry (rs_ledger S) (js_trim (rq_key q)) = None \<and> entry l' (js_trim (rq_key q)) \<noteq> None"
    if "rq_confirm q" "log_of i S = []" "cs \<noteq> []"
  proof -
    have "pc = Begins" using empty_trace tr that(2) resume_call_waiting [OF r] by metis
    then show ?thesis using first_port_call [OF L that(1) r [unfolded \<open>pc = Begins\<close>] that(3)] by simp
  qed
  have bound: "j < length (rs_calls S)" if "holds_key ?T j" for j using that by (simp add: holds_key_def)
  have a: "approval_ok (fst (rs_calls ?T ! j)) \<and> entry l' (call_key ?T j) \<noteq> None" if "holds_key ?T j" for j
    using old [OF that] new ok led key [OF bound [OF that]] call(1) [OF bound [OF that]] i
    by (auto simp: system_ok_def call_key_def)
  have b: "j = k" if "holds_key ?T j" "holds_key ?T k" "call_key ?T j = call_key ?T k" for j k
    using old [OF that(1)] old [OF that(2)] that(3) key [OF bound [OF that(1)]] key [OF bound [OF that(2)]] new ok i
    by (auto simp: system_ok_def call_key_def)
  have c: "trace_ok h (fst (rs_calls ?T ! j)) (snd (rs_calls ?T ! j)) (log_of j ?T)" if "j < length (rs_calls S)" for j
    using call [OF that] log ok i resume_call_trace [OF tr r] that by (auto simp: system_ok_def)
  have d: "\<forall>x \<in> set (rs_log ?T). fst x < length (rs_calls ?T)" using ok i by (auto simp: system_ok_def)
  show ?thesis using a b c d led unfolding system_ok_def by simp
qed

lemma system_ok_step:
  assumes "system_ok entry ok h S" and "recovery_step bg cm h S S'"
  shows "system_ok entry ok h S'"
  using assms(2)
proof cases
  case (arrives q)
  have "log_of (length (rs_calls S)) S = []" using assms(1) log_of_fresh [of S "length (rs_calls S)"] by (simp add: system_ok_def)
  then show ?thesis
    unfolding arrives using assms(1)
    by (intro system_ok_calls [OF assms(1)]) (auto simp: nth_append system_ok_def less_Suc_eq)
next
  case (interrupted i q pc e)
  then have "trace_ok h q pc (log_of i S)" using assms(1) by (auto simp: system_ok_def)
  from trace_ok_ended [OF this] have "trace_ok h q (Threw e) (log_of i S)" by (simp add: trace_ok_def)
  then show ?thesis
    unfolding interrupted(1) using assms(1) interrupted(2,3)
    by (intro system_ok_calls [OF assms(1)]) (auto simp: nth_list_update system_ok_def)
qed (use resumes_ok [OF assms(1)] in blast)

lemma system_ok_reached: "(recovery_step bg cm h)\<^sup>*\<^sup>* (recovery_start blank) S \<Longrightarrow> system_ok entry ok h S"
proof (induction rule: rtranclp_induct)
  case base
  then show ?case using blank_ok by (simp add: recovery_start_def system_ok_def holds_key_def)
qed (rule system_ok_step)

end

section \<open>The ledgers of the SDK\<close>

definition memory_ok :: "memory_ledger \<Rightarrow> bool" where
  "memory_ok l \<longleftrightarrow> (\<forall>k e. l k = Some e \<and> le_completed e \<longrightarrow> le_result e \<noteq> None)"

interpretation memory: recovery_ledger memory_begin memory_complete "\<lambda>l. l" memory_ok Map.empty
  by unfold_locales
    (auto simp: memory_ok_def memory_begin_def memory_complete_def running_entry_def completed_entry_def
      split: option.split_asm if_split_asm)

definition sql_entry :: "idempotency_row list \<Rightarrow> string \<rightharpoonup> ledger_entry" where
  "sql_entry l k = map_option ir_entry (find (\<lambda>r. ir_key r = k) l)"

definition sql_ok :: "idempotency_row list \<Rightarrow> bool" where
  "sql_ok l \<longleftrightarrow> distinct (map ir_key l) \<and> (\<forall>r \<in> set l. ir_completed r \<longrightarrow> ir_result r \<noteq> None)"

lemma find_snoc: "find p (xs @ [y]) = (case find p xs of Some r \<Rightarrow> Some r | None \<Rightarrow> if p y then Some y else None)"
  by (induction xs) simp_all

lemma sql_entry_snoc: "sql_entry l (ir_key r) = None \<Longrightarrow> sql_entry (l @ [r]) = (sql_entry l)(ir_key r \<mapsto> ir_entry r)"
  by (rule ext) (auto simp: sql_entry_def find_snoc split: option.split)

lemma map_absent: "ir_key r \<notin> ir_key ` set l \<Longrightarrow> map (\<lambda>x. if x = r then f x else x) l = l"
  by (rule map_idI) auto

lemma find_update:
  assumes "distinct (map ir_key l)" and "r \<in> set l" and "ir_key r = k" and "\<And>x. ir_key (f x) = ir_key x"
  shows "find (\<lambda>x. ir_key x = k') (map (\<lambda>x. if x = r then f x else x) l) =
    (if k' = k then Some (f r) else find (\<lambda>x. ir_key x = k') l)"
  using assms by (induction l) (auto simp: map_absent)

interpretation sql: recovery_ledger sql_begin sql_complete sql_entry sql_ok "[]"
proof
  fix l k f l' assume "sql_ok l" "sql_begin k f l = Inr (None, l')"
  then show "sql_ok l' \<and> sql_entry l k = None \<and> sql_entry l' = (sql_entry l)(k \<mapsto> running_entry f)"
    using sql_entry_snoc [of l "\<lparr>ir_key = k, ir_fingerprint = f, ir_completed = False, ir_result = None\<rparr>"]
    by (auto simp: sql_begin_def sql_ok_def sql_entry_def running_entry_def ir_entry_def find_None_iff
        split: if_split_asm option.split_asm)
next
  fix l k f e l' assume "sql_ok l" "sql_begin k f l = Inr (Some e, l')"
  then show "l' = l \<and> sql_entry l k = Some e \<and> le_fingerprint e = f \<and> (le_completed e \<longrightarrow> le_result e \<noteq> None)"
    by (auto simp: sql_begin_def sql_ok_def sql_entry_def ir_entry_def elim!: find_SomeE split: if_split_asm option.split_asm)
next
  fix l k f v l' assume ok: "sql_ok l" and c: "sql_complete k f v l = Inr l'"
  let ?hit = "\<lambda>r. ir_key r = k \<and> ir_fingerprint r = f \<and> \<not> ir_completed r"
  obtain r where r: "r \<in> set l" "?hit r"
    using c by (auto simp: sql_complete_def Let_def filter_empty_conv split: if_split_asm)
  have u: "?hit x \<longleftrightarrow> x = r" if "x \<in> set l" for x
    using distinct_map_eqD [of ir_key l x r] that r ok unfolding sql_ok_def by metis
  have l': "l' = map (\<lambda>x. if x = r then x\<lparr>ir_completed := True, ir_result := Some v\<rparr> else x) l"
    using c u by (auto simp: sql_complete_def Let_def split: if_split_asm intro!: map_cong)
  have "sql_entry l' = (sql_entry l)(k \<mapsto> completed_entry f v)"
    using find_update [of l r k "\<lambda>x. x\<lparr>ir_completed := True, ir_result := Some v\<rparr>"] ok r
    by (intro ext) (simp add: l' sql_entry_def sql_ok_def completed_entry_def ir_entry_def)
  moreover have keys: "map ir_key l' = map ir_key l" by (simp add: l')
  have "\<forall>x \<in> set l'. ir_completed x \<longrightarrow> ir_result x \<noteq> None" using ok by (auto simp: l' sql_ok_def)
  with keys ok have "sql_ok l'" by (simp add: sql_ok_def)
  ultimately show "sql_ok l' \<and> sql_entry l' = (sql_entry l)(k \<mapsto> completed_entry f v)" by simp
qed (simp_all add: sql_ok_def sql_entry_def fun_eq_iff)

section \<open>At most once\<close>

definition is_execute :: "port_call \<Rightarrow> bool" where
  "is_execute c \<longleftrightarrow> (case c of Execute_repair _ \<Rightarrow> True | _ \<Rightarrow> False)"

lemma protocol_executes_once: "length (filter is_execute (take n (protocol h q p x))) \<le> 1"
  by (simp add: protocol_def take_Cons is_execute_def split: nat.split)

lemma protocol_execute:
  assumes "Execute_repair y \<in> set (take n (protocol h q p x))"
  shows "2 < n \<and> y = x"
  using assms by (auto simp: protocol_def take_Cons split: nat.split_asm)

context recovery_ledger
begin

lemma executed:
  assumes ok: "system_ok entry ok h S" and c: "(i, c) \<in> set (rs_log S)" "is_execute c"
  shows "holds_key S i" "length (filter is_execute (log_of i S)) \<le> 1"
proof -
  have i: "i < length (rs_calls S)" using ok c(1) by (auto simp: system_ok_def)
  have mem: "c \<in> set (log_of i S)" using c(1) by (force simp: log_of_def)
  obtain p x n where t: "log_of i S = take n (protocol h (fst (rs_calls S ! i)) p x)" "2 < n \<longrightarrow> rq_confirm (fst (rs_calls S ! i))"
    using trace_ok_ended ok i unfolding system_ok_def by meson
  obtain y where "c = Execute_repair y" using c(2) by (cases c) (simp_all add: is_execute_def)
  then have "rq_confirm (fst (rs_calls S ! i))" using protocol_execute mem t by (metis (no_types))
  then show "holds_key S i" using i mem by (auto simp: holds_key_def)
  show "length (filter is_execute (log_of i S)) \<le> 1" using protocol_executes_once t(1) by metis
qed

lemma key_executed_once:
  assumes ok: "system_ok entry ok h S"
  shows "length (filter (\<lambda>(i, c). is_execute c \<and> call_key S i = k) (rs_log S)) \<le> 1"
proof (cases "\<exists>i c. (i, c) \<in> set (rs_log S) \<and> is_execute c \<and> call_key S i = k")
  case True
  then obtain i c where i: "(i, c) \<in> set (rs_log S)" "is_execute c" "call_key S i = k" by blast
  have "j = i" if "(j, d) \<in> set (rs_log S)" "is_execute d" "call_key S j = k" for j d
    using executed(1) [OF ok] that i ok unfolding system_ok_def by metis
  then have "filter (\<lambda>(j, d). is_execute d \<and> call_key S j = k) (rs_log S) = filter (\<lambda>(j, d). j = i \<and> is_execute d) (rs_log S)"
    using i(3) by (intro filter_cong) auto
  then have "length (filter (\<lambda>(j, d). is_execute d \<and> call_key S j = k) (rs_log S)) = length (filter is_execute (log_of i S))"
    by (simp add: log_of_def filter_map o_def case_prod_unfold conj_commute)
  then show ?thesis using executed(2) [OF ok i(1,2)] by simp
next
  case False
  then have "filter (\<lambda>(i, c). is_execute c \<and> call_key S i = k) (rs_log S) = []" by (auto simp: filter_empty_conv)
  then show ?thesis by simp
qed

lemma execution_approved:
  assumes ok: "system_ok entry ok h S" and c: "(i, Execute_repair y) \<in> set (rs_log S)"
  shows "approval_ok (fst (rs_calls S ! i)) \<and> (\<exists>p n. log_of i S = take n (protocol h (fst (rs_calls S ! i)) p y))"
proof -
  have H: "holds_key S i" using executed(1) [OF ok c] by (simp add: is_execute_def)
  then have "i < length (rs_calls S)" by (simp add: holds_key_def)
  then obtain p x n where t: "log_of i S = take n (protocol h (fst (rs_calls S ! i)) p x)"
    using trace_ok_ended ok unfolding system_ok_def by meson
  moreover have "Execute_repair y \<in> set (log_of i S)" using c by (force simp: log_of_def)
  ultimately have "x = y" using protocol_execute by metis
  then show ?thesis using t H ok unfolding system_ok_def by blast
qed

end

text \<open>
  C28: A repair is executed at most once per idempotency key. However many calls of \<open>execute\<close> with one key run side
  by side over the SQL ledger, in whatever order their awaits are answered, with whatever the repair service replies,
  and wherever processes end, \<open>executeRepair\<close> is called at most once for that key; and the call that did so had
  proposed and previewed the repair and had it approved, with a reason, by somebody other than the requester.
\<close>

theorem repair_executed_once:
  assumes "(recovery_step sql_begin sql_complete sha256)\<^sup>*\<^sup>* (recovery_start []) S"
  shows "length (filter (\<lambda>(i, c). is_execute c \<and> call_key S i = k) (rs_log S)) \<le> 1 \<and>
    (\<forall>i y. (i, Execute_repair y) \<in> set (rs_log S) \<longrightarrow>
      approval_ok (fst (rs_calls S ! i)) \<and> (\<exists>p n. log_of i S = take n (protocol sha256 (fst (rs_calls S ! i)) p y)))"
  using sql.key_executed_once sql.execution_approved sql.system_ok_reached [OF assms] by blast

text \<open>Two calls with one key: the first gets as far as the execution, the second is turned away.\<close>

definition resume_at ::
  "(string \<Rightarrow> string) \<Rightarrow> nat \<Rightarrow> port_reply \<Rightarrow> idempotency_row list recovery_system \<Rightarrow> idempotency_row list recovery_system" where
  "resume_at h i r S = (case rs_calls S ! i of (q, pc) \<Rightarrow>
    case resume_call sql_begin sql_complete h q pc r (rs_ledger S) of
      None \<Rightarrow> S
    | Some (pc', cs, l') \<Rightarrow> S\<lparr>rs_ledger := l', rs_calls := (rs_calls S)[i := (q, pc')], rs_log := rs_log S @ map (Pair i) cs\<rparr>)"

lemma resume_at_reached:
  assumes "(recovery_step sql_begin sql_complete h)\<^sup>*\<^sup>* A S" and "i < length (rs_calls S)"
  shows "(recovery_step sql_begin sql_complete h)\<^sup>*\<^sup>* A (resume_at h i r S)"
proof (cases "resume_call sql_begin sql_complete h (fst (rs_calls S ! i)) (snd (rs_calls S ! i)) r (rs_ledger S)")
  case None
  then show ?thesis using assms(1) by (simp add: resume_at_def split_beta)
next
  case (Some y)
  obtain pc' cs l' where "y = (pc', cs, l')" by (cases y) auto
  with Some have "recovery_step sql_begin sql_complete h S (resume_at h i r S)"
    using resumes [OF assms(2), of "fst (rs_calls S ! i)" "snd (rs_calls S ! i)" sql_begin sql_complete h r pc' cs l']
    by (simp add: resume_at_def split_beta)
  with assms(1) show ?thesis by (rule rtranclp.rtrancl_into_rtrancl)
qed

definition refund :: recovery_request where
  "refund = \<lparr>rq_finding = \<lparr>fk_rule_id = ''paid-twice'', fk_subject_type = ''order'', fk_subject_id = ''o1'', fk_invariant_version = 1\<rparr>,
    rq_handler = ''refund'', rq_parameters = Undefined, rq_key = ''k1'', rq_requested_by = ''ann'',
    rq_approved_by = Some ''bob'', rq_approval_reason = Some ''checked'', rq_confirm = True\<rparr>"

definition refund_plan :: repair_record where
  "refund_plan = \<lparr>rr_id = ''r1'', rr_finding = rq_finding refund, rr_handler = ''refund'', rr_parameters = Obj [], rr_state = R_previewed,
    rr_proposed_by = ''ann'', rr_preview = Some ''refund once'', rr_precondition = Some ''charged twice'', rr_version = 2\<rparr>"

definition two_refunds :: "idempotency_row list recovery_system" where
  "two_refunds = fold (\<lambda>(i, r). resume_at (\<lambda>x. x) i r)
    [(0, Repaired refund_plan), (0, Repaired refund_plan), (0, Repaired refund_plan), (1, Repaired refund_plan), (0, Repaired refund_plan)]
    \<lparr>rs_ledger = [], rs_calls = [(refund, Begins), (refund, Begins)], rs_log = []\<rparr>"

lemma two_refunds_reached: "(recovery_step sql_begin sql_complete (\<lambda>x. x))\<^sup>*\<^sup>* (recovery_start []) two_refunds"
proof -
  let ?S = "\<lparr>rs_ledger = [] :: idempotency_row list, rs_calls = [(refund, Begins)], rs_log = []\<rparr>"
  let ?T = "\<lparr>rs_ledger = [] :: idempotency_row list, rs_calls = [(refund, Begins), (refund, Begins)], rs_log = []\<rparr>"
  have "recovery_step sql_begin sql_complete (\<lambda>x. x) (recovery_start []) ?S" "recovery_step sql_begin sql_complete (\<lambda>x. x) ?S ?T"
    using arrives [of sql_begin sql_complete "\<lambda>x. x" "recovery_start []" refund] arrives [of sql_begin sql_complete "\<lambda>x. x" ?S refund]
    by (simp_all add: recovery_start_def)
  then have T: "(recovery_step sql_begin sql_complete (\<lambda>x. x))\<^sup>*\<^sup>* (recovery_start []) ?T" by simp
  have len: "length (rs_calls (resume_at h i r S)) = length (rs_calls S)" for h i r S
    by (simp add: resume_at_def split: prod.split option.split)
  show ?thesis unfolding two_refunds_def by (simp add: resume_at_reached T len)
qed

theorem repair_executed_once_witness:
  "length (filter (\<lambda>(i, c). is_execute c \<and> call_key two_refunds i = ''k1'') (rs_log two_refunds)) \<le> 1 \<and>
    (0, Execute_repair ''r1'') \<in> set (rs_log two_refunds) \<and> approval_ok (fst (rs_calls two_refunds ! 0)) \<and>
    (\<exists>p n. log_of 0 two_refunds = take n (protocol (\<lambda>x. x) (fst (rs_calls two_refunds ! 0)) p ''r1''))"
proof -
  have "(0, Execute_repair ''r1'') \<in> set (rs_log two_refunds)" by code_simp
  with repair_executed_once [OF two_refunds_reached, of "''k1''"] show ?thesis by blast
qed

text \<open>The same holds within one process over the in-memory ledger.\<close>

lemma memory_repair_executed_once:
  assumes "(recovery_step memory_begin memory_complete sha256)\<^sup>*\<^sup>* (recovery_start Map.empty) S"
  shows "length (filter (\<lambda>(i, c). is_execute c \<and> call_key S i = k) (rs_log S)) \<le> 1"
  using memory.key_executed_once memory.system_ok_reached [OF assms] by blast

end
