(* ===== verification/Task_Stores.thy ===== *)
theory Task_Stores
  imports Task_Client "HOL-Library.AList"
begin

text \<open>
  The browser stores: \<open>TaskStore\<close> (\<open>tasks/store.ts\<close>) follows one Task, \<open>TaskListStore\<close> (\<open>tasks/list-store.ts\<close>) a page
  of them. What the transport delivers is the input of a step. A loop of a store is the generation it was started for
  and the place it waits at; its steps are the code between two awaits. Listeners only observe and are left out, and
  so are the lengths of the delays.
\<close>

section \<open>One Task\<close>

datatype task_status = As_summary task_summary | As_snapshot task_snapshot

definition status_version :: "task_status \<Rightarrow> int" where
  "status_version x = (case x of As_summary t \<Rightarrow> sn_entity_version t | As_snapshot t \<Rightarrow> sn_entity_version t)"

definition status_state :: "task_status \<Rightarrow> task_state" where
  "status_state x = (case x of As_summary t \<Rightarrow> sn_state t | As_snapshot t \<Rightarrow> sn_state t)"

definition TERMINAL :: "task_state set" where
  "TERMINAL = {T_succeeded, T_failed, T_cancelled}"

datatype store_status = Idle | Loading | Connected | Reconnecting | Stopped

datatype transport = Polling | Live | Polling_fallback

record store_view =
  sv_snapshot :: "task_status option"
  sv_status :: store_status
  sv_error :: "client_error option"
  sv_transport :: "transport option"

text \<open>Where a loop waits, with the failures it counted.\<close>

datatype loop_pc =
    Poll_starts nat
  | Poll_hidden nat
  | Poll_reads nat
  | Poll_sleeps nat
  | Stream_starts nat
  | Streams nat
  | Falls_back nat
  | Fallback_sleeps nat
  | Loop_ended

text \<open>
  A controller is known by the generation that created it. \<open>ts_delivered\<close> records what \<open>accept\<close> was given.
\<close>

record task_store =
  ts_stop_on_terminal :: bool
  ts_streams :: bool
  ts_view :: store_view
  ts_generation :: nat
  ts_controller :: "nat option"
  ts_aborted :: "nat list"
  ts_loops :: "(nat \<times> loop_pc) list"
  ts_delivered :: "task_status list"

definition new_store :: "bool \<Rightarrow> bool \<Rightarrow> task_store" where
  "new_store stopOnTerminal streams = \<lparr>ts_stop_on_terminal = stopOnTerminal, ts_streams = streams,
    ts_view = \<lparr>sv_snapshot = None, sv_status = Idle, sv_error = None, sv_transport = None\<rparr>,
    ts_generation = 0, ts_controller = None, ts_aborted = [], ts_loops = [], ts_delivered = []\<rparr>"

definition accept_view :: "task_status \<Rightarrow> store_view \<Rightarrow> store_view" where
  "accept_view x v =
    (if (case sv_snapshot v of None \<Rightarrow> True | Some y \<Rightarrow> status_version x > status_version y)
     then \<lparr>sv_snapshot = Some x, sv_status = Connected, sv_error = None, sv_transport = None\<rparr>
     else if sv_status v \<in> {Reconnecting, Loading} then v\<lparr>sv_status := Connected, sv_error := None\<rparr> else v)"

definition accept :: "task_status \<Rightarrow> task_store \<Rightarrow> task_store" where
  "accept x s = s\<lparr>ts_view := accept_view x (ts_view s), ts_delivered := ts_delivered s @ [x]\<rparr>"

definition set_view :: "(store_view \<Rightarrow> store_view) \<Rightarrow> task_store \<Rightarrow> task_store" where
  "set_view f s = s\<lparr>ts_view := f (ts_view s)\<rparr>"

definition start_store :: "task_store \<Rightarrow> task_store" where
  "start_store s = (case ts_controller s of
      Some _ \<Rightarrow> s
    | None \<Rightarrow> (let g = ts_generation s + 1 in
        (set_view (\<lambda>v. v\<lparr>sv_status := (if sv_snapshot v = None then Loading else Connected), sv_error := None\<rparr>) s)
          \<lparr>ts_generation := g, ts_controller := Some g,
           ts_loops := ts_loops s @ [(g, if ts_streams s then Stream_starts 0 else Poll_starts 0)]\<rparr>))"

definition stop_store :: "task_store \<Rightarrow> task_store" where
  "stop_store s = (set_view (\<lambda>v. v\<lparr>sv_status := Stopped\<rparr>) s)
    \<lparr>ts_generation := ts_generation s + 1, ts_controller := None,
     ts_aborted := (case ts_controller s of None \<Rightarrow> ts_aborted s | Some c \<Rightarrow> c # ts_aborted s)\<rparr>"

definition stale :: "nat \<Rightarrow> task_store \<Rightarrow> bool" where
  "stale g s \<longleftrightarrow> g \<in> set (ts_aborted s) \<or> g \<noteq> ts_generation s"

text \<open>A loop saw a final state: the store stops by itself.\<close>

definition finish_terminal :: "transport option \<Rightarrow> task_store \<Rightarrow> task_store" where
  "finish_terminal tr s = (set_view (\<lambda>v. v\<lparr>sv_status := Stopped, sv_transport := (case tr of None \<Rightarrow> sv_transport v | Some t \<Rightarrow> Some t)\<rparr>) s)
    \<lparr>ts_controller := None\<rparr>"

definition ends_at :: "task_status \<Rightarrow> task_store \<Rightarrow> bool" where
  "ends_at x s \<longleftrightarrow> ts_stop_on_terminal s \<and> status_state x \<in> TERMINAL"

text \<open>What a loop is given: nothing, an answer of \<open>readStatus\<close>, or something of the stream.\<close>

datatype loop_input =
    Tick
  | Read task_status
  | Read_failed client_error
  | Event_snapshot task_status
  | Event_error string
  | Event_other
  | Stream_ended
  | Stream_threw client_error

definition stream_failed :: "nat \<Rightarrow> nat \<Rightarrow> client_error \<Rightarrow> task_store \<Rightarrow> loop_pc \<times> task_store" where
  "stream_failed g f e s =
    (if stale g s then (Loop_ended, s)
     else (Falls_back (f + 1), set_view (\<lambda>v. v\<lparr>sv_status := Reconnecting, sv_transport := Some Polling_fallback, sv_error := Some e\<rparr>) s))"

definition poll_answer :: "nat \<Rightarrow> task_status \<Rightarrow> task_store \<Rightarrow> loop_pc \<times> task_store" where
  "poll_answer g x s =
    (if stale g s then (Loop_ended, s)
     else let s1 = set_view (\<lambda>v. v\<lparr>sv_transport := (if sv_transport v = Some Polling_fallback then Some Polling_fallback else Some Polling)\<rparr>) (accept x s) in
       if ends_at x s then (Loop_ended, finish_terminal None s1) else (Poll_sleeps 0, s1))"

definition stream_snapshot :: "nat \<Rightarrow> nat \<Rightarrow> task_status \<Rightarrow> task_store \<Rightarrow> loop_pc \<times> task_store" where
  "stream_snapshot g f x s =
    (if stale g s then (Loop_ended, s)
     else let s1 = set_view (\<lambda>v. v\<lparr>sv_status := Connected, sv_transport := Some Live, sv_error := None\<rparr>) (accept x s) in
       if ends_at x s then (Loop_ended, finish_terminal (Some Live) s1) else (Streams f, s1))"

definition fallback_answer :: "nat \<Rightarrow> task_status \<Rightarrow> task_store \<Rightarrow> loop_pc \<times> task_store" where
  "fallback_answer f x s =
    (let s1 = set_view (\<lambda>v. v\<lparr>sv_transport := Some Polling_fallback\<rparr>) (accept x s) in
     if ends_at x s then (Loop_ended, finish_terminal (Some Polling_fallback) s1) else (Fallback_sleeps f, s1))"

definition loop_step :: "nat \<Rightarrow> loop_pc \<Rightarrow> loop_input \<Rightarrow> task_store \<Rightarrow> (loop_pc \<times> task_store) option" where
  "loop_step g pc inp s = (case pc of
      Poll_starts f \<Rightarrow> (case inp of Tick \<Rightarrow> Some (if stale g s then Loop_ended else Poll_hidden f, s) | _ \<Rightarrow> None)
    | Poll_hidden f \<Rightarrow> (case inp of Tick \<Rightarrow> Some (if g \<in> set (ts_aborted s) then Loop_ended else Poll_reads f, s) | _ \<Rightarrow> None)
    | Poll_reads f \<Rightarrow> (case inp of
          Read x \<Rightarrow> Some (poll_answer g x s)
        | Read_failed e \<Rightarrow> Some (if stale g s then (Loop_ended, s)
            else (Poll_sleeps (f + 1), set_view (\<lambda>v. v\<lparr>sv_status := Reconnecting, sv_error := Some e\<rparr>) s))
        | _ \<Rightarrow> None)
    | Poll_sleeps f \<Rightarrow> (case inp of Tick \<Rightarrow> Some (if g \<in> set (ts_aborted s) then Loop_ended else Poll_starts f, s) | _ \<Rightarrow> None)
    | Stream_starts f \<Rightarrow> (case inp of Tick \<Rightarrow> Some (if stale g s then Loop_ended else Streams f, s) | _ \<Rightarrow> None)
    | Streams f \<Rightarrow> (case inp of
          Event_snapshot x \<Rightarrow> Some (stream_snapshot g f x s)
        | Event_error code \<Rightarrow> Some (stream_failed g f (Js_error code) s)
        | Event_other \<Rightarrow> Some (if stale g s then Loop_ended else Streams f, s)
        | Stream_ended \<Rightarrow> Some (stream_failed g f (Js_error ''Task event stream ended before the Task became terminal'') s)
        | Stream_threw e \<Rightarrow> Some (stream_failed g f e s)
        | _ \<Rightarrow> None)
    | Falls_back f \<Rightarrow> (case inp of
          Read x \<Rightarrow> Some (fallback_answer f x s)
        | Read_failed e \<Rightarrow> Some (Fallback_sleeps f, s)
        | _ \<Rightarrow> None)
    | Fallback_sleeps f \<Rightarrow> (case inp of Tick \<Rightarrow> Some (if g \<in> set (ts_aborted s) then Loop_ended else Stream_starts f, s) | _ \<Rightarrow> None)
    | Loop_ended \<Rightarrow> None)"

text \<open>
  The steps of a store: its loops, the calls of the application, and the answers to its \<open>refresh\<close>, \<open>cancel\<close> and
  \<open>retry\<close>, which go through \<open>accept\<close> whenever they come.
\<close>

inductive store_step :: "task_store \<Rightarrow> task_store \<Rightarrow> bool" where
  looped: "i < length (ts_loops s) \<Longrightarrow> ts_loops s ! i = (g, pc) \<Longrightarrow> loop_step g pc inp s = Some (pc', s') \<Longrightarrow>
    store_step s (s'\<lparr>ts_loops := (ts_loops s')[i := (g, pc')]\<rparr>)"
| started: "store_step s (start_store s)"
| stopped: "store_step s (stop_store s)"
| answered: "store_step s (accept x s)"

section \<open>The newest status is shown\<close>

definition shows_newest :: "task_store \<Rightarrow> bool" where
  "shows_newest s \<longleftrightarrow> (case sv_snapshot (ts_view s) of
      None \<Rightarrow> ts_delivered s = []
    | Some x \<Rightarrow> x \<in> set (ts_delivered s) \<and> (\<forall>y \<in> set (ts_delivered s). status_version y \<le> status_version x))"

lemma shows_newest_accept: "shows_newest s \<Longrightarrow> shows_newest (accept x s)"
  by (fastforce simp: shows_newest_def accept_def accept_view_def split: option.split_asm if_split_asm)

lemma shows_newest_cong:
  "sv_snapshot (ts_view s') = sv_snapshot (ts_view s) \<Longrightarrow> ts_delivered s' = ts_delivered s \<Longrightarrow> shows_newest s' = shows_newest s"
  by (simp add: shows_newest_def split: option.split)

lemma shows_newest_step:
  assumes "shows_newest s" and "store_step s s'"
  shows "shows_newest s'"
  using assms(2)
proof cases
  case (looped i g pc inp pc' t)
  have "\<exists>x. sv_snapshot (ts_view t) = sv_snapshot (ts_view (accept x s)) \<and> ts_delivered t = ts_delivered (accept x s) \<or>
      sv_snapshot (ts_view t) = sv_snapshot (ts_view s) \<and> ts_delivered t = ts_delivered s"
    using looped(4)
    by (auto simp: loop_step_def poll_answer_def stream_snapshot_def fallback_answer_def stream_failed_def finish_terminal_def
        set_view_def Let_def split: loop_pc.split_asm loop_input.split_asm if_split_asm)
  then have "shows_newest t" using assms(1) shows_newest_accept shows_newest_cong by metis
  then show ?thesis unfolding looped(1) by (subst shows_newest_cong [of _ t]) simp_all
next
  case started
  then show ?thesis
    using assms(1) by (subst shows_newest_cong [of _ s]) (auto simp: start_store_def set_view_def Let_def split: option.split)
next
  case stopped
  then show ?thesis using assms(1) by (subst shows_newest_cong [of _ s]) (simp_all add: stop_store_def set_view_def)
next
  case answered
  then show ?thesis using assms(1) shows_newest_accept by simp
qed

lemma shows_newest_reached: "store_step\<^sup>*\<^sup>* (new_store b c) s \<Longrightarrow> shows_newest s"
proof (induction rule: rtranclp_induct)
  case base
  then show ?case by (simp add: new_store_def shows_newest_def)
qed (rule shows_newest_step)

section \<open>A page of Tasks\<close>

record list_query =
  lq_states :: "task_state list"
  lq_types :: "string list"

record list_view =
  lv_tasks :: "task_snapshot list"
  lv_status :: store_status
  lv_error :: "client_error option"
  lv_transport :: "transport option"
  lv_reconnects :: int

record list_store =
  ls_query :: list_query
  ls_view :: list_view
  ls_running :: bool

definition new_list_store :: "list_query \<Rightarrow> list_store" where
  "new_list_store q = \<lparr>ls_query = q,
    ls_view = \<lparr>lv_tasks = [], lv_status = Idle, lv_error = None, lv_transport = None, lv_reconnects = 0\<rparr>, ls_running = False\<rparr>"

definition matches :: "list_query \<Rightarrow> task_snapshot \<Rightarrow> bool" where
  "matches q t \<longleftrightarrow> (lq_states q = [] \<or> sn_state t \<in> set (lq_states q)) \<and> (lq_types q = [] \<or> sn_type t \<in> set (lq_types q))"

text \<open>
  A \<open>Map\<close> keeps the place at which a key was first set; the sort is stable. The time of a change is a number here. The
  code compares the ISO texts of two times with \<open>localeCompare\<close>, which orders texts of the one format the server
  writes as the times they stand for.
\<close>

definition by_id :: "task_snapshot list \<Rightarrow> (string \<times> task_snapshot) list" where
  "by_id ts = fold (\<lambda>t m. AList.update (sn_id t) t m) ts []"

definition newest_first :: "(string \<times> task_snapshot) list \<Rightarrow> task_snapshot list" where
  "newest_first m = sort_key (\<lambda>t. - sn_updated_at t) (map snd m)"

definition mergeNewestPage :: "task_snapshot list \<Rightarrow> task_snapshot list \<Rightarrow> task_snapshot list" where
  "mergeNewestPage current incoming = newest_first (fold (\<lambda>t m.
      case map_of (by_id current) (sn_id t) of
        None \<Rightarrow> AList.update (sn_id t) t m
      | Some old \<Rightarrow> AList.update (sn_id t) (if sn_entity_version t \<ge> sn_entity_version old then t else old) m) incoming [])"

definition mergeNewestSnapshots :: "task_snapshot list \<Rightarrow> task_snapshot list \<Rightarrow> task_snapshot list" where
  "mergeNewestSnapshots current incoming = newest_first (fold (\<lambda>t m.
      case map_of m (sn_id t) of
        None \<Rightarrow> AList.update (sn_id t) t m
      | Some old \<Rightarrow> if sn_entity_version t \<ge> sn_entity_version old then AList.update (sn_id t) t m else m) incoming (by_id current))"

definition list_refreshed :: "task_snapshot list \<Rightarrow> list_store \<Rightarrow> list_store" where
  "list_refreshed page s = s\<lparr>ls_view := (ls_view s)
    \<lparr>lv_tasks := filter (matches (ls_query s)) (mergeNewestPage (lv_tasks (ls_view s)) page), lv_status := Connected, lv_error := None\<rparr>\<rparr>"

definition list_page_event :: "task_snapshot list \<Rightarrow> list_store \<Rightarrow> list_store" where
  "list_page_event page s = s\<lparr>ls_view := \<lparr>lv_tasks = filter (matches (ls_query s)) (mergeNewestPage [] page), lv_status = Connected,
    lv_error = None, lv_transport = Some Live, lv_reconnects = 0\<rparr>\<rparr>"

definition list_snapshot_event :: "task_snapshot \<Rightarrow> list_store \<Rightarrow> list_store" where
  "list_snapshot_event t s = s\<lparr>ls_view := \<lparr>lv_tasks = filter (matches (ls_query s)) (mergeNewestSnapshots (lv_tasks (ls_view s)) [t]),
    lv_status = Connected, lv_error = None, lv_transport = Some Live, lv_reconnects = 0\<rparr>\<rparr>"

definition list_failed :: "transport option \<Rightarrow> client_error \<Rightarrow> int \<Rightarrow> list_store \<Rightarrow> list_store" where
  "list_failed tr e failures s = s\<lparr>ls_view := (ls_view s)\<lparr>lv_status := Reconnecting, lv_error := Some e, lv_reconnects := failures,
    lv_transport := (case tr of None \<Rightarrow> lv_transport (ls_view s) | Some t \<Rightarrow> Some t)\<rparr>\<rparr>"

definition list_transport :: "transport \<Rightarrow> list_store \<Rightarrow> list_store" where
  "list_transport tr s = s\<lparr>ls_view := (ls_view s)\<lparr>lv_transport := Some tr\<rparr>\<rparr>"

definition start_list :: "list_store \<Rightarrow> list_store" where
  "start_list s = (if ls_running s then s else s\<lparr>ls_running := True,
    ls_view := (ls_view s)\<lparr>lv_status := (if lv_tasks (ls_view s) = [] then Loading else Connected), lv_error := None\<rparr>\<rparr>)"

definition stop_list :: "list_store \<Rightarrow> list_store" where
  "stop_list s = s\<lparr>ls_running := False, ls_view := (ls_view s)\<lparr>lv_status := Stopped\<rparr>\<rparr>"

text \<open>
  What happens between two awaits. The stream loop looks at its signal before it shows anything; \<open>refresh\<close> and the
  loop that polls do not, so that an answer or an error that arrives after \<open>stop\<close> is still shown.
\<close>

inductive list_step :: "list_store \<Rightarrow> list_store \<Rightarrow> bool" where
  refreshed: "list_step s (list_refreshed page s)"
| page: "ls_running s \<Longrightarrow> list_step s (list_page_event page s)"
| snapshot: "ls_running s \<Longrightarrow> list_step s (list_snapshot_event t s)"
| poll_failed: "list_step s (list_failed None e n s)"
| stream_failed: "ls_running s \<Longrightarrow> list_step s (list_failed (Some Polling_fallback) e n s)"
| transport_shown: "list_step s (list_transport tr s)"
| list_started: "list_step s (start_list s)"
| list_stopped: "list_step s (stop_list s)"

section \<open>What a page shows\<close>

definition page_ok :: "list_query \<Rightarrow> task_snapshot list \<Rightarrow> bool" where
  "page_ok q ts \<longleftrightarrow> distinct (map sn_id ts) \<and> sorted (map (\<lambda>t. - sn_updated_at t) ts) \<and> (\<forall>t \<in> set ts. matches q t)"

text \<open>An entry is filed under the id of its Task, and ids are filed once.\<close>

definition filed :: "(string \<times> task_snapshot) list \<Rightarrow> bool" where
  "filed m \<longleftrightarrow> distinct (map fst m) \<and> (\<forall>(k, t) \<in> set m. k = sn_id t)"

lemma update_entry: "x \<in> set (AList.update k v m) \<Longrightarrow> x = (k, v) \<or> x \<in> set m"
  by (induction m) (auto split: if_split_asm)

lemma filed_update: "filed m \<Longrightarrow> k = sn_id t \<Longrightarrow> filed (AList.update k t m)"
  unfolding filed_def using distinct_update by (auto dest: update_entry)

lemma filed_fold:
  assumes "\<And>t m. filed m \<Longrightarrow> filed (f t m)" and "filed m"
  shows "filed (fold f ts m)"
  using assms(2) by (induction ts arbitrary: m) (simp_all add: assms(1))

lemma filed_by_id: "filed (by_id ts)"
  unfolding by_id_def by (rule filed_fold) (simp_all add: filed_update, simp add: filed_def)

lemma filed_map_of: "filed m \<Longrightarrow> map_of m k = Some t \<Longrightarrow> sn_id t = k"
  by (fastforce simp: filed_def dest: map_of_SomeD)

lemma filed_page: "filed (fold (\<lambda>t m. case map_of (by_id current) (sn_id t) of
      None \<Rightarrow> AList.update (sn_id t) t m
    | Some old \<Rightarrow> AList.update (sn_id t) (if sn_entity_version t \<ge> sn_entity_version old then t else old) m) incoming [])"
  by (rule filed_fold) (auto simp: filed_def [of "[]"] intro!: filed_update dest: filed_map_of [OF filed_by_id] split: option.split)

lemma filed_snapshots: "filed (fold (\<lambda>t m. case map_of m (sn_id t) of
      None \<Rightarrow> AList.update (sn_id t) t m
    | Some old \<Rightarrow> if sn_entity_version t \<ge> sn_entity_version old then AList.update (sn_id t) t m else m) incoming (by_id current))"
  by (rule filed_fold) (auto simp: filed_update filed_by_id split: option.split)

lemma newest_first_ok:
  assumes "filed m"
  shows "page_ok q (filter (matches q) (newest_first m))"
proof -
  have "map sn_id (map snd m) = map fst m" using assms by (auto simp: filed_def)
  then have "distinct (map sn_id (newest_first m))" using assms unfolding newest_first_def filed_def
    by (metis (no_types, lifting) distinct_map distinct_sort set_sort)
  moreover have "sorted (map (\<lambda>t. - sn_updated_at t) (newest_first m))" by (simp add: newest_first_def)
  ultimately show ?thesis by (simp add: page_ok_def distinct_map_filter sorted_filter)
qed

lemma merged_ok:
  "page_ok q (filter (matches q) (mergeNewestPage current incoming))"
  "page_ok q (filter (matches q) (mergeNewestSnapshots current incoming))"
  unfolding mergeNewestPage_def mergeNewestSnapshots_def by (intro newest_first_ok filed_page filed_snapshots)+

lemma page_ok_step:
  assumes "list_step s s'" and "page_ok (ls_query s) (lv_tasks (ls_view s))"
  shows "page_ok (ls_query s') (lv_tasks (ls_view s'))"
  using assms
  by cases
    (simp_all add: list_refreshed_def list_page_event_def list_snapshot_event_def list_failed_def list_transport_def start_list_def
      stop_list_def merged_ok)

lemma page_ok_reached: "list_step\<^sup>*\<^sup>* (new_list_store q) s \<Longrightarrow> page_ok (ls_query s) (lv_tasks (ls_view s))"
proof (induction rule: rtranclp_induct)
  case base
  then show ?case by (simp add: new_list_store_def page_ok_def)
qed (use page_ok_step in blast)

section \<open>A shown Task never goes back\<close>

text \<open>Every entry of \<open>m\<close> is at least as new as the one of the same id in \<open>base\<close>.\<close>

definition not_older :: "(string \<rightharpoonup> task_snapshot) \<Rightarrow> (string \<times> task_snapshot) list \<Rightarrow> bool" where
  "not_older base m \<longleftrightarrow> (\<forall>(k, t) \<in> set m. \<forall>old. base k = Some old \<longrightarrow> sn_entity_version old \<le> sn_entity_version t)"

lemma not_older_update:
  "not_older base m \<Longrightarrow> (\<And>old. base k = Some old \<Longrightarrow> sn_entity_version old \<le> sn_entity_version t) \<Longrightarrow> not_older base (AList.update k t m)"
  unfolding not_older_def by (auto dest!: update_entry)

lemma not_older_fold:
  assumes "\<And>t m. not_older base m \<Longrightarrow> not_older base (f t m)" and "not_older base m"
  shows "not_older base (fold f ts m)"
  using assms(2) by (induction ts arbitrary: m) (simp_all add: assms(1))

lemma not_older_page: "not_older (map_of (by_id current)) (fold (\<lambda>t m. case map_of (by_id current) (sn_id t) of
      None \<Rightarrow> AList.update (sn_id t) t m
    | Some old \<Rightarrow> AList.update (sn_id t) (if sn_entity_version t \<ge> sn_entity_version old then t else old) m) incoming [])"
  by (rule not_older_fold) (auto simp: not_older_def [of _ "[]"] intro!: not_older_update split: option.split)

lemma update_absent:
  "k \<notin> sn_id ` set ts \<Longrightarrow> map_of (fold (\<lambda>t m. AList.update (sn_id t) t m) ts m) k = map_of m k"
  by (induction ts arbitrary: m) (auto simp: update_conv')

lemma by_id_current:
  assumes "distinct (map sn_id ts)" and "c \<in> set ts"
  shows "map_of (by_id ts) (sn_id c) = Some c"
proof -
  have "map_of (fold (\<lambda>t m. AList.update (sn_id t) t m) ts m) (sn_id c) = Some c" for m
    using assms by (induction ts arbitrary: m) (auto simp: update_absent update_conv')
  then show ?thesis by (simp add: by_id_def)
qed

lemma merged_page_not_older:
  assumes "distinct (map sn_id current)" and "c \<in> set current" and "t \<in> set (mergeNewestPage current incoming)" and "sn_id t = sn_id c"
  shows "sn_entity_version c \<le> sn_entity_version t"
proof -
  obtain k where "(k, t) \<in> set (fold (\<lambda>t m. case map_of (by_id current) (sn_id t) of
      None \<Rightarrow> AList.update (sn_id t) t m
    | Some old \<Rightarrow> AList.update (sn_id t) (if sn_entity_version t \<ge> sn_entity_version old then t else old) m) incoming [])"
    using assms(3) by (auto simp: mergeNewestPage_def newest_first_def)
  moreover from this have "k = sn_id t" using filed_page [of current incoming] by (auto simp: filed_def)
  ultimately show ?thesis using not_older_page [of current incoming] by_id_current [OF assms(1,2)] assms(4) by (auto simp: not_older_def)
qed

lemma merged_snapshot_not_older:
  assumes "distinct (map sn_id current)" and "c \<in> set current" and "t \<in> set (mergeNewestSnapshots current [x])" and "sn_id t = sn_id c"
  shows "sn_entity_version c \<le> sn_entity_version t"
proof -
  have cur: "map_of (by_id current) (sn_id c) = Some c" by (rule by_id_current [OF assms(1,2)])
  have same: "t = c" if "(k, t) \<in> set (by_id current)" for k
  proof -
    have F: "distinct (map fst (by_id current))" "k = sn_id t" using that filed_by_id [of current] by (auto simp: filed_def)
    have "map_of (by_id current) (sn_id c) = Some t" using map_of_is_SomeI [OF F(1) that] unfolding F(2) assms(4) .
    then show ?thesis unfolding cur by simp
  qed
  show ?thesis
    using assms(3,4) cur same
    by (auto simp: mergeNewestSnapshots_def newest_first_def dest!: update_entry split: option.split_asm if_split_asm)
qed

section \<open>Properties\<close>

definition clip_status :: "int \<Rightarrow> task_state \<Rightarrow> task_snapshot" where
  "clip_status v st = \<lparr>sn_entity_version = v, sn_id = ''t1'', sn_type = ''video'', sn_owner_id = None, sn_state = st,
    sn_cancellation_status = C_none, sn_cancellation_reason = None,
    sn_progress = \<lparr>p_completed = 0, p_total = None, p_message = None\<rparr>, sn_has_result = False,
    sn_created_at = 100, sn_updated_at = 100 + v, sn_executions = []\<rparr>"

lemma store_reached_more:
  assumes "store_step\<^sup>*\<^sup>* a s"
  shows "store_step\<^sup>*\<^sup>* a (accept x s)" "store_step\<^sup>*\<^sup>* a (start_store s)" "store_step\<^sup>*\<^sup>* a (stop_store s)"
  using assms answered started stopped by (meson rtranclp.rtrancl_into_rtrancl)+

text \<open>
  C29: A Task store shows the newest status it was given. However answers of polls, stream events, calls of the
  application and answers to its commands interleave, over any number of starts and stops, what is shown is one of
  the delivered statuses and none of them has a higher version.
\<close>

theorem store_shows_newest:
  assumes "store_step\<^sup>*\<^sup>* (new_store stopOnTerminal streams) s"
  shows "case sv_snapshot (ts_view s) of
      None \<Rightarrow> ts_delivered s = []
    | Some x \<Rightarrow> x \<in> set (ts_delivered s) \<and> Max (status_version ` set (ts_delivered s)) = status_version x"
  using shows_newest_reached [OF assms]
  by (fastforce simp: shows_newest_def intro!: Max_eqI split: option.split)

definition late_answers :: task_store where
  "late_answers = accept (As_snapshot (clip_status 3 T_queued)) (accept (As_snapshot (clip_status 5 T_running)) (start_store (new_store True True)))"

theorem store_shows_newest_witness:
  "sv_snapshot (ts_view late_answers) = Some (As_snapshot (clip_status 5 T_running)) \<and>
    Max (status_version ` set (ts_delivered late_answers)) = 5"
proof -
  have "store_step\<^sup>*\<^sup>* (new_store True True) late_answers"
    unfolding late_answers_def by (intro store_reached_more rtranclp.rtrancl_refl)
  moreover have "sv_snapshot (ts_view late_answers) = Some (As_snapshot (clip_status 5 T_running))" by code_simp
  ultimately show ?thesis using store_shows_newest [of True True late_answers] by (simp add: status_version_def clip_status_def)
qed

definition store_event :: "loop_input \<Rightarrow> task_store \<Rightarrow> task_store" where
  "store_event inp s = (case ts_loops s of
      (g, pc) # _ \<Rightarrow> (case loop_step g pc inp s of
        Some (pc', s') \<Rightarrow> s'\<lparr>ts_loops := (ts_loops s')[0 := (g, pc')]\<rparr>
      | None \<Rightarrow> s)
    | [] \<Rightarrow> s)"

lemma store_event_reached: "store_step\<^sup>*\<^sup>* a s \<Longrightarrow> store_step\<^sup>*\<^sup>* a (store_event inp s)"
proof (cases "ts_loops s")
  case (Cons l ls)
  obtain g pc where l: "l = (g, pc)" by fastforce
  assume a: "store_step\<^sup>*\<^sup>* a s"
  show ?thesis
  proof (cases "loop_step g pc inp s")
    case (Some y)
    obtain pc' s' where "y = (pc', s')" by fastforce
    then have "store_step s (store_event inp s)"
      using looped [of 0 s g pc inp pc' s'] Cons l Some by (simp add: store_event_def)
    with a show ?thesis by (rule rtranclp.rtrancl_into_rtrancl)
  qed (use a Cons l in \<open>simp add: store_event_def\<close>)
qed (simp add: store_event_def)

definition outlived :: task_store where
  "outlived = store_event Tick (store_event (Read (As_snapshot (clip_status 5 T_running)))
    (stop_store (store_event Stream_ended (store_event Tick (start_store (new_store True True))))))"

text \<open>
  A stopped store can show itself as connected. When the stream fails and the store is stopped while the read
  that follows is out, the answer sets the status back to connected, although no loop is left to keep the store
  up to date.
\<close>

lemma stopped_store_connected:
  "store_step\<^sup>*\<^sup>* (new_store True True) outlived \<and> ts_controller outlived = None \<and> map snd (ts_loops outlived) = [Loop_ended] \<and>
    sv_status (ts_view outlived) = Connected"
proof -
  have "store_step\<^sup>*\<^sup>* (new_store True True) outlived"
    unfolding outlived_def
    by (intro store_event_reached store_reached_more rtranclp.rtrancl_refl)
  moreover have "ts_controller outlived = None \<and> map snd (ts_loops outlived) = [Loop_ended] \<and> sv_status (ts_view outlived) = Connected"
    by code_simp
  ultimately show ?thesis by blast
qed

text \<open>
  C30: The page of a list store is well formed after every step: each Task once, newest change first, and only Tasks
  the query asks for. And a Task that stays on the page across a refresh or a snapshot event is never shown with a
  lower version than before.
\<close>

theorem list_page_well_formed:
  assumes "list_step\<^sup>*\<^sup>* (new_list_store q) s"
  shows "page_ok (ls_query s) (lv_tasks (ls_view s)) \<and>
    (\<forall>s' c t. (s' = list_refreshed page s \<or> s' = list_snapshot_event x s) \<and> c \<in> set (lv_tasks (ls_view s)) \<and>
      t \<in> set (lv_tasks (ls_view s')) \<and> sn_id t = sn_id c \<longrightarrow> sn_entity_version c \<le> sn_entity_version t)"
proof -
  have ok: "page_ok (ls_query s) (lv_tasks (ls_view s))" by (rule page_ok_reached [OF assms])
  then have "distinct (map sn_id (lv_tasks (ls_view s)))" by (simp add: page_ok_def)
  then show ?thesis
    using ok merged_page_not_older merged_snapshot_not_older
    by (fastforce simp: list_refreshed_def list_snapshot_event_def)
qed

definition video_page :: list_store where
  "video_page = list_refreshed [clip_status 5 T_running] (new_list_store \<lparr>lq_states = [], lq_types = [''video'']\<rparr>)"

theorem list_page_well_formed_witness:
  "page_ok (ls_query video_page) (lv_tasks (ls_view video_page)) \<and>
    lv_tasks (ls_view (list_refreshed [clip_status 3 T_queued] video_page)) = [clip_status 5 T_running] \<and>
    sn_entity_version (clip_status 5 T_running) \<le> sn_entity_version (hd (lv_tasks (ls_view (list_refreshed [clip_status 3 T_queued] video_page))))"
proof -
  have "list_step\<^sup>*\<^sup>* (new_list_store \<lparr>lq_states = [], lq_types = [''video'']\<rparr>) video_page"
    unfolding video_page_def by (intro r_into_rtranclp refreshed)
  from list_page_well_formed [OF this, of "[clip_status 3 T_queued]"] have
    P: "page_ok (ls_query video_page) (lv_tasks (ls_view video_page))" and
    V: "\<And>c t. c \<in> set (lv_tasks (ls_view video_page)) \<Longrightarrow> t \<in> set (lv_tasks (ls_view (list_refreshed [clip_status 3 T_queued] video_page))) \<Longrightarrow>
      sn_id t = sn_id c \<Longrightarrow> sn_entity_version c \<le> sn_entity_version t" by blast+
  have "lv_tasks (ls_view video_page) = [clip_status 5 T_running]"
    "lv_tasks (ls_view (list_refreshed [clip_status 3 T_queued] video_page)) = [clip_status 5 T_running]" by code_simp+
  with P V show ?thesis by simp
qed

end
