(* ===== verification/Task_Handle.thy ===== *)
theory Task_Handle
  imports Quiet_Client Samples
begin

text \<open>
  The Task handle (\<open>tasks/handle.ts\<close>) and the methods of \<open>PostgresTaskClient\<close> built on it. A handle is the snapshot
  it observed last; its methods return the handle they leave behind also when they throw.
\<close>

section \<open>Model\<close>

type_synonym on_handle = "task_snapshot \<Rightarrow> world \<Rightarrow> (client_error + unit) \<times> task_snapshot \<times> world"

definition set_current :: "task_snapshot io \<Rightarrow> on_handle" where
  "set_current m h w = (case m w of (Inl e, w') \<Rightarrow> (Inl e, h, w') | (Inr sn, w') \<Rightarrow> (Inr (), sn, w'))"

definition and_then :: "on_handle \<Rightarrow> on_handle \<Rightarrow> on_handle" where
  "and_then m n h w = (case m h w of (Inl e, h', w') \<Rightarrow> (Inl e, h', w') | (Inr _, h', w') \<Rightarrow> n h' w')"

definition when_handle :: "(task_snapshot \<Rightarrow> bool) \<Rightarrow> on_handle \<Rightarrow> on_handle" where
  "when_handle b m h w = (if b h then m h w else (Inr (), h, w))"

definition handle_isTerminal :: "task_snapshot \<Rightarrow> bool" where
  "handle_isTerminal h \<longleftrightarrow> sn_state h = T_succeeded \<or> sn_state h = T_failed \<or> sn_state h = T_cancelled"

definition transitionTo :: "session \<Rightarrow> task_state \<Rightarrow> on_handle" where
  "transitionTo s g h = set_current (transitionTask s (sn_id h) (sn_entity_version h) g) h"

definition handle_start :: "session \<Rightarrow> on_handle" where
  "handle_start s = and_then (when_handle (\<lambda>h. sn_state h = T_pending) (transitionTo s T_queued))
    (when_handle (\<lambda>h. sn_state h = T_queued) (transitionTo s T_running))"

definition reportProgress :: "session \<Rightarrow> task_progress \<Rightarrow> on_handle" where
  "reportProgress s p h = set_current (reportTaskProgress s (sn_id h) (sn_entity_version h) p) h"

definition succeed :: "session \<Rightarrow> on_handle" where
  "succeed s = transitionTo s T_succeeded"

definition handle_fail :: "session \<Rightarrow> on_handle" where
  "handle_fail s = transitionTo s T_failed"

definition requestCancel :: "session \<Rightarrow> on_handle" where
  "requestCancel s h = set_current (requestTaskCancellation s (sn_id h) (sn_entity_version h)) h"

definition handle_refresh :: "session \<Rightarrow> on_handle" where
  "handle_refresh s h = set_current (getTask s (sn_id h)) h"

definition attachResult :: "session \<Rightarrow> string \<Rightarrow> on_handle" where
  "attachResult s ref h w = (case attachTaskResult s (sn_id h) (sn_entity_version h) ref w of
      (Inl e, w') \<Rightarrow> (Inl e, h, w')
    | (Inr _, w') \<Rightarrow> handle_refresh s h w')"

definition handle_complete :: "session \<Rightarrow> string option \<Rightarrow> on_handle" where
  "handle_complete s resultRef = and_then (handle_start s)
    (and_then (case resultRef of None \<Rightarrow> (\<lambda>h w. (Inr (), h, w)) | Some ref \<Rightarrow> attachResult s ref)
      (when_handle (\<lambda>h. sn_state h \<noteq> T_succeeded) (succeed s)))"

definition openTask :: "session \<Rightarrow> string \<Rightarrow> task_snapshot io" where
  "openTask s taskId = await (getTask s taskId) (\<lambda>sn.
    guarded (sn_id sn = '''') (Type_error ''TaskHandle requires a Task snapshot'') (return sn))"

definition on_opened :: "session \<Rightarrow> string \<Rightarrow> on_handle \<Rightarrow> task_snapshot io" where
  "on_opened s taskId m = await (openTask s taskId) (\<lambda>h w. case m h w of
      (Inl e, _, w') \<Rightarrow> (Inl e, w')
    | (Inr _, h', w') \<Rightarrow> (Inr h', w'))"

definition reportTaskProgressAutoVersion :: "session \<Rightarrow> string \<Rightarrow> task_progress \<Rightarrow> task_snapshot io" where
  "reportTaskProgressAutoVersion s taskId p = on_opened s taskId (reportProgress s p)"

definition completeTask :: "session \<Rightarrow> string \<Rightarrow> string option \<Rightarrow> task_snapshot io" where
  "completeTask s taskId resultRef = on_opened s taskId (handle_complete s resultRef)"

section \<open>A handle while no other client acts\<close>

text \<open>The handle shows the Task as it is.\<close>

definition follows :: "session \<Rightarrow> world \<Rightarrow> task_row \<Rightarrow> task_snapshot \<Rightarrow> bool" where
  "follows s w t h \<longleftrightarrow> sees_task s w t \<and> shows_task t h"

lemma followsI: "stepped s w w' t \<Longrightarrow> shows_task t h \<Longrightarrow> follows s w' t h"
  by (simp add: follows_def stepped_def)

lemma when_transition_quiet:
  assumes f: "follows s w t h" and ok: "b h \<Longrightarrow> task_transition_allowed (t_state t) g"
  shows "\<exists>h' w' t'. when_handle b (transitionTo s g) h w = (Inr (), h', w') \<and> follows s w' t' h' \<and>
    t_id t' = t_id t \<and> t_result_ref t' = t_result_ref t \<and> t_state t' = (if b h then g else t_state t)"
proof -
  have t: "sees_task s w t" and h: "shows_task t h" using f by (simp_all add: follows_def)
  obtain h' w' t' where "(if b h then transitionTask s (sn_id h) (sn_entity_version h) g else return h) w = (Inr h', w')"
      "stepped s w w' t'" "shows_task t' h'" "t_state t' = (if b h then g else t_state t)" "same_work t t'" "\<not> b h \<longrightarrow> w' = w"
    using maybe_transition_quiet [OF t h, of "b h" g] ok by blast
  moreover from this have "when_handle b (transitionTo s g) h w = (Inr (), h', w')"
    by (auto simp: when_handle_def transitionTo_def set_current_def return_def split: if_split_asm)
  ultimately show ?thesis using followsI by (fastforce simp: same_work_def)
qed

lemma start_quiet:
  assumes "follows s w t h"
  shows "\<exists>h' w' t'. handle_start s h w = (Inr (), h', w') \<and> follows s w' t' h' \<and> t_id t' = t_id t \<and>
    t_result_ref t' = t_result_ref t \<and> t_state t' = (if t_state t \<in> {T_pending, T_queued} then T_running else t_state t)"
proof -
  have st: "sn_state h = t_state t" using assms by (simp add: follows_def)
  obtain h1 w1 t1 where 1: "when_handle (\<lambda>h. sn_state h = T_pending) (transitionTo s T_queued) h w = (Inr (), h1, w1)"
      "follows s w1 t1 h1" "t_id t1 = t_id t" "t_result_ref t1 = t_result_ref t" "t_state t1 = (if t_state t = T_pending then T_queued else t_state t)"
    using when_transition_quiet [OF assms, of "\<lambda>h. sn_state h = T_pending" T_queued] st by (auto simp: task_transition_allowed_def)
  have st1: "sn_state h1 = t_state t1" using 1(2) by (simp add: follows_def)
  obtain h2 w2 t2 where 2: "when_handle (\<lambda>h. sn_state h = T_queued) (transitionTo s T_running) h1 w1 = (Inr (), h2, w2)"
      "follows s w2 t2 h2" "t_id t2 = t_id t1" "t_result_ref t2 = t_result_ref t1" "t_state t2 = (if t_state t1 = T_queued then T_running else t_state t1)"
    using when_transition_quiet [OF 1(2), of "\<lambda>h. sn_state h = T_queued" T_running] st1 by (auto simp: task_transition_allowed_def)
  have "handle_start s h w = (Inr (), h2, w2)" by (simp add: handle_start_def and_then_def 1(1) 2(1))
  then show ?thesis using 1 2 by auto
qed

lemma attach_again_quiet:
  assumes t: "sees_task s w t" and ref: "\<not> blank_text ref" and same: "t_result_ref t = Some (btrim ref)"
  shows "\<exists>r. attachTaskResult s (t_id t) (t_version t) ref w = (Inr r, w)"
proof -
  note S = sees_taskD [OF t]
  have "attach_task_result s (at_now w) (t_id t) (t_version t) ref (at_db w) = Inr (t_version t, at_db w)"
    using S(4) nonblank_btrim [OF ref] same by (simp add: attach_task_result_def)
  then have e: "execute (\<lambda>now. attach_task_result s now (t_id t) (t_version t) ref) w = (Inr (t_version t), w)"
    using quiet_execute(1) [OF S(1), of "\<lambda>now. attach_task_result s now (t_id t) (t_version t) ref"] by simp
  obtain sn where sn: "getTask s (t_id t) w = (Inr sn, w)" "shows_task t sn" using getTask_quiet [OF t] by blast
  have "\<exists>r. getTaskResult s (t_id t) w = (Inr r, w)"
    unfolding getTaskResult_def using S(4) sn nonblank_btrim [OF ref] same
    by (simp add: await_def quiet_query [OF S(1)] truthy_def nullif_def return_def)
  then show ?thesis using S(9) ref e by (auto simp: attachTaskResult_def validateVersion_def guarded_def await_def)
qed

lemma attachResult_quiet:
  assumes f: "follows s w t h" and ref: "\<not> blank_text ref"
  shows "\<exists>h' w' t'. attachResult s ref h w = (Inr (), h', w') \<and> follows s w' t' h' \<and> t_id t' = t_id t \<and>
    t_state t' = t_state t \<and> t_result_ref t' = Some (btrim ref)"
proof -
  have t: "sees_task s w t" and h: "shows_task t h" using f by (simp_all add: follows_def)
  obtain r w' t' where a: "attachTaskResult s (t_id t) (t_version t) ref w = (Inr r, w')" "sees_task s w' t'" "t_id t' = t_id t"
      "t_state t' = t_state t" "t_result_ref t' = Some (btrim ref)"
    using attach_statement_quiet [OF t ref] attach_again_quiet [OF t ref] t by (cases "t_result_ref t = Some (btrim ref)") (auto simp: stepped_def)
  obtain sn where "getTask s (t_id t') w' = (Inr sn, w')" "shows_task t' sn" using getTask_quiet [OF a(2)] by blast
  then show ?thesis
    using a h by (auto simp: attachResult_def handle_refresh_def set_current_def follows_def intro!: exI [of _ t'])
qed

lemma complete_quiet:
  assumes f: "follows s w t h" and st: "t_state t \<notin> {T_failed, T_cancelled}" and ref: "\<And>x. resultRef = Some x \<Longrightarrow> \<not> blank_text x"
  shows "\<exists>h' w' t'. handle_complete s resultRef h w = (Inr (), h', w') \<and> follows s w' t' h' \<and> t_id t' = t_id t \<and>
    t_state t' = T_succeeded \<and> t_result_ref t' = (case resultRef of None \<Rightarrow> t_result_ref t | Some x \<Rightarrow> Some (btrim x))"
proof -
  obtain h1 w1 t1 where 1: "handle_start s h w = (Inr (), h1, w1)" "follows s w1 t1 h1" "t_id t1 = t_id t"
      "t_result_ref t1 = t_result_ref t" "t_state t1 = (if t_state t \<in> {T_pending, T_queued} then T_running else t_state t)"
    using start_quiet [OF f] by blast
  let ?m = "case resultRef of None \<Rightarrow> (\<lambda>h w. (Inr (), h, w)) | Some ref \<Rightarrow> attachResult s ref"
  obtain h2 w2 t2 where 2: "?m h1 w1 = (Inr (), h2, w2)" "follows s w2 t2 h2" "t_id t2 = t_id t1" "t_state t2 = t_state t1"
      "t_result_ref t2 = (case resultRef of None \<Rightarrow> t_result_ref t | Some x \<Rightarrow> Some (btrim x))"
    using attachResult_quiet [OF 1(2)] ref 1(2,4) by (cases resultRef) fastforce+
  have st2: "sn_state h2 = t_state t2" using 2(2) by (simp add: follows_def)
  have "t_state t2 = T_succeeded \<or> task_transition_allowed (t_state t2) T_succeeded"
    using 1(5) 2(4) st by (cases "t_state t") (simp_all add: task_transition_allowed_def)
  then obtain h3 w3 t3 where 3: "when_handle (\<lambda>h. sn_state h \<noteq> T_succeeded) (succeed s) h2 w2 = (Inr (), h3, w3)"
      "follows s w3 t3 h3" "t_id t3 = t_id t2" "t_result_ref t3 = t_result_ref t2" "t_state t3 = T_succeeded"
    using when_transition_quiet [OF 2(2), of "\<lambda>h. sn_state h \<noteq> T_succeeded" T_succeeded] st2 unfolding succeed_def by (auto split: if_split_asm)
  have "handle_complete s resultRef h w = (Inr (), h3, w3)" by (simp add: handle_complete_def and_then_def 1(1) 2(1) 3(1))
  then show ?thesis using 1 2 3 by auto
qed

text \<open>
  C31: \<open>completeTask\<close> completes. While no other client acts, it returns for every Task that is neither failed nor
  cancelled, whatever its state was, with a snapshot of the Task as it then is: succeeded, and with the given result
  attached if one was given.
\<close>

theorem completeTask_succeeds:
  assumes "at_db w = fold serve rs empty_db" and "at_plan w = []" and "select_task s tid (at_db w) = Some t" and "\<not> blank_text tid"
    and "t_state t \<noteq> T_failed \<and> t_state t \<noteq> T_cancelled" and "\<And>x. resultRef = Some x \<Longrightarrow> \<not> blank_text x"
  shows "\<exists>sn w' t'. completeTask s tid resultRef w = (Inr sn, w') \<and> select_task s tid (at_db w') = Some t' \<and>
    t_state t' = T_succeeded \<and> t_result_ref t' = (case resultRef of None \<Rightarrow> t_result_ref t | Some x \<Rightarrow> Some (btrim x)) \<and>
    sn_state sn = T_succeeded \<and> sn_entity_version sn = t_version t' \<and> sn_has_result sn = (t_result_ref t' \<noteq> None)"
proof -
  have tid: "tid = t_id t" using select_taskD(3) [OF assms(3)] by simp
  have t: "sees_task s w t" using reached_inv [of rs] assms tid by (simp add: sees_task_def quiet_def)
  obtain h where h: "getTask s tid w = (Inr h, w)" "shows_task t h" using getTask_quiet [OF t] tid by blast
  then have o: "openTask s tid w = (Inr h, w)"
    using assms(4) tid by (auto simp: openTask_def await_def guarded_def return_def js_trim_def)
  obtain h' w' t' where "handle_complete s resultRef h w = (Inr (), h', w')" "follows s w' t' h'" "t_id t' = t_id t"
      "t_state t' = T_succeeded" "t_result_ref t' = (case resultRef of None \<Rightarrow> t_result_ref t | Some x \<Rightarrow> Some (btrim x))"
    using complete_quiet [of s w t h resultRef] t h(2) assms(5,6) by (auto simp: follows_def)
  then show ?thesis
    using o tid by (auto simp: completeTask_def on_opened_def await_def follows_def sees_task_def)
qed

definition quiet_sample :: world where
  "quiet_sample = \<lparr>at_db = sample_db, at_now = 500, at_plan = []\<rparr>"

theorem completeTask_succeeds_witness:
  "\<exists>sn w' t'. completeTask acme ''t1'' (Some ''s3://out'') quiet_sample = (Inr sn, w') \<and> select_task acme ''t1'' (at_db w') = Some t' \<and>
    t_state t' = T_succeeded \<and> t_result_ref t' = Some ''s3://out'' \<and>
    sn_state sn = T_succeeded \<and> sn_entity_version sn = t_version t' \<and> sn_has_result sn"
proof -
  let ?t = "the (select_task acme ''t1'' sample_db)"
  have "select_task acme ''t1'' sample_db = Some ?t" "\<not> blank_text ''t1''" "t_state ?t \<noteq> T_failed \<and> t_state ?t \<noteq> T_cancelled"
    "\<not> blank_text ''s3://out''" "btrim ''s3://out'' = ''s3://out''" by code_simp+
  with completeTask_succeeds [of quiet_sample sample_run acme "''t1''" ?t "Some ''s3://out''"] sample_reached show ?thesis
    by (auto simp: quiet_sample_def)
qed

end
