(* ===== verification/Waiting.thy ===== *)
theory Waiting
  imports Work_Client Samples
begin

text \<open>
  Waiting for people: \<open>waitForInput\<close>, \<open>waitForApproval\<close> and \<open>waitForWebhook\<close> (\<open>tasks/waitpoint.ts\<close>) over the waitpoint methods of the Task client.
\<close>

section \<open>Waiting in a worker\<close>

datatype 'a waitpoint_outcome =
    Unanswered waitpoint_state task_waitpoint
  | Answered 'a task_waitpoint

record wait_options =
  wo_task_id :: string
  wo_id :: string
  wo_key :: string
  wo_kind :: string
  wo_payload_version :: int
  wo_deadline :: "int option"

definition waitForInput :: "session \<Rightarrow> (js_value \<Rightarrow> client_error + 'a) \<Rightarrow> wait_options \<Rightarrow> 'a waitpoint_outcome io" where
  "waitForInput s parse opts =
    await (createTaskWaitpoint s (wo_task_id opts) (wo_id opts) (wo_key opts) (wo_kind opts) (wo_payload_version opts) (wo_deadline opts)) (\<lambda>wp.
      if wp_state wp \<noteq> W_resolved then return (Unanswered (wp_state wp) wp)
      else await (of_sum (parse (wp_resolution wp))) (\<lambda>v. return (Answered v wp)))"

definition parse_approval :: "js_value \<Rightarrow> client_error + bool" where
  "parse_approval v = (case v of
      Bool b \<Rightarrow> Inr b
    | _ \<Rightarrow> (case own_property ''approved'' v of
        Some (Bool b) \<Rightarrow> Inr b
      | _ \<Rightarrow> Inl (Type_error ''approval resolution must be boolean or { approved: boolean }'')))"

definition waitForApproval :: "session \<Rightarrow> wait_options \<Rightarrow> bool waitpoint_outcome io" where
  "waitForApproval s opts = waitForInput s parse_approval (opts\<lparr>wo_kind := ''approval''\<rparr>)"

definition waitForWebhook :: "session \<Rightarrow> (js_value \<Rightarrow> client_error + 'a) \<Rightarrow> wait_options \<Rightarrow> 'a waitpoint_outcome io" where
  "waitForWebhook s parse opts = waitForInput s parse (opts\<lparr>wo_kind := ''webhook''\<rparr>)"

lemma runs_waitForInput [client_runs]: "runs (waitForInput s parse opts)"
  unfolding waitForInput_def by (intro client_runs)

section \<open>Entering again\<close>

lemma select_one_only:
  assumes "v \<in> set rows" and "visible s (tb_tenant T v)" and "p v" and "\<And>x. x \<in> set rows \<Longrightarrow> p x \<Longrightarrow> x = v"
  shows "select_one s T p rows = Some v"
proof (cases "select_one s T p rows")
  case None
  then show ?thesis using assms(1-3) by (auto simp: select_one_None_iff)
next
  case (Some x)
  then have "x = v" using select_one_SomeD [OF Some] by (intro assms(4)) simp_all
  with Some show ?thesis by simp
qed

lemma waitpoint_readable:
  assumes ok: "inv d" and v: "v \<in> set (waitpoints d)" and vis: "visible s (w_tenant_id v)"
  shows "select_one s waitpoint_table (\<lambda>x. w_id x = w_id v \<and> task_of_scope s (w_task_id x) None None d) (waitpoints d) = Some v"
proof -
  have W: "table_ok waitpoint_table (waitpoints d)" "(w_task_id v, w_tenant_id v) \<in> set (task_keys d)"
    using inv_parts(2) [OF ok] v by (auto simp: waitpoints_ok_def list_all_iff)
  then obtain t where "t \<in> set (tasks d)" "t_id t = w_task_id v" "t_tenant_id t = w_tenant_id v" by (auto simp: task_keys_def)
  then have "task_of_scope s (w_task_id v) None None d"
    using vis by (force simp: task_of_scope_def select_one_None_iff task_scope_def)
  then show ?thesis using waitpoint_key.key_inj [OF W(1)] v vis by (intro select_one_only) auto
qed

lemma waitpoint_of_key:
  assumes ok: "inv d" and v: "v \<in> set (waitpoints d)" and vis: "visible s (w_tenant_id v)"
  shows "select_one s waitpoint_table (\<lambda>x. w_task_id x = w_task_id v \<and> w_key x = w_key v) (waitpoints d) = Some v"
proof (rule select_one_only [OF v])
  fix x assume x: "x \<in> set (waitpoints d)" "w_task_id x = w_task_id v \<and> w_key x = w_key v"
  have "unique_by waitpoint_conflict (waitpoints d)"
    using inv_parts(2) [OF ok] by (simp add: waitpoints_ok_def table_ok_def waitpoint_table_def)
  moreover obtain i j where "i < length (waitpoints d)" "waitpoints d ! i = x" "j < length (waitpoints d)" "waitpoints d ! j = v"
    using x(1) v by (metis in_set_conv_nth)
  moreover have "waitpoint_conflict x v" "waitpoint_conflict v x" using x(2) by (simp_all add: waitpoint_conflict_def)
  ultimately show "x = v" unfolding unique_by_def sorted_wrt_iff_nth_less by (metis linorder_neqE_nat)
qed (use vis in simp_all)

lemma waitpoint_row_check: "inv d \<Longrightarrow> v \<in> set (waitpoints d) \<Longrightarrow> waitpoint_check v"
  using inv_parts(2) by (auto simp: waitpoints_ok_def table_ok_def waitpoint_table_def list_all_iff)

lemma create_waitpoint_again:
  assumes ok: "inv d" and v: "v \<in> set (waitpoints d)" and ten: "current_tenant s = Some (w_tenant_id v)"
  shows "create_waitpoint s now (w_id v) (w_task_id v) (w_key v) (w_kind v) (w_payload_version v) (w_deadline v) d =
    (if \<exists>x. w_deadline v = Some x \<and> x \<le> now then Inl check_violation else Inr (True, d))"
proof -
  have vis: "visible s (w_tenant_id v)" using ten by (simp add: visible_def)
  let ?new = "new_waitpoint now (w_id v) (w_task_id v) (w_tenant_id v) (w_key v) (w_kind v) (w_payload_version v) (w_deadline v)"
  have "waitpoint_check ?new \<longleftrightarrow> \<not> (\<exists>x. w_deadline v = Some x \<and> x \<le> now)"
    using waitpoint_row_check [OF ok v] by (auto simp: waitpoint_check_def new_waitpoint_def split: option.split)
  moreover have "waitpoint_conflict v ?new" by (simp add: waitpoint_conflict_def new_waitpoint_def)
  then have "\<not> list_all (\<lambda>x. \<not> waitpoint_conflict x ?new) (waitpoints d)" using v by (auto simp: list_all_iff)
  ultimately show ?thesis
    using ten vis waitpoint_of_key [OF ok v vis]
    by (simp add: create_waitpoint_def default_tenant_def insert_row_or_nothing_def waitpoint_table_def)
      (simp add: new_waitpoint_def)
qed

text \<open>What a row answers.\<close>

definition row_outcome :: "(js_value \<Rightarrow> client_error + 'a) \<Rightarrow> waitpoint_row \<Rightarrow> client_error + 'a waitpoint_outcome" where
  "row_outcome parse v = (if w_state v \<noteq> W_resolved then Inr (Unanswered (w_state v) (mapWaitpoint v))
    else map_sum id (\<lambda>x. Answered x (mapWaitpoint v)) (parse (json_field (w_resolution v))))"

definition options_of :: "waitpoint_row \<Rightarrow> wait_options" where
  "options_of v = \<lparr>wo_task_id = w_task_id v, wo_id = w_id v, wo_key = w_key v, wo_kind = w_kind v,
    wo_payload_version = w_payload_version v, wo_deadline = w_deadline v\<rparr>"

text \<open>
  C32: Entering \<open>waitForInput\<close> again. While no other client acts, a worker that waits with the same identity as before
  gets what the waitpoint holds by now, its answer once it is resolved, and changes nothing \<^emph>\<open>as long as the deadline has
  not passed\<close>. After the deadline the call fails, also for a waitpoint that was answered in time, with an error that
  asks to be retried.
\<close>

theorem waitForInput_again:
  assumes "at_db w = fold serve rs empty_db" and plan: "at_plan w = []" and v: "v \<in> set (waitpoints (at_db w))"
    and ten: "current_tenant s = Some (w_tenant_id v)"
    and ids: "\<not> blank_text (w_task_id v) \<and> \<not> blank_text (w_id v) \<and> \<not> blank_text (w_key v)"
  shows "waitForInput s parse (options_of v) w =
    (if \<exists>x. w_deadline v = Some x \<and> x \<le> at_now w
     then (Inl (Rhinoq_error \<lparr>re_code = ''RHINOQ_POSTGRES_UNREACHABLE'', re_message = ''23514'', re_retryable = True,
       re_status = None, re_next_action = None\<rparr>), w)
     else (row_outcome parse v, w))"
proof -
  have ok: "inv (at_db w)" using full_invD(1) [OF reached_inv [of rs]] assms(1) by simp
  have vis: "visible s (w_tenant_id v)" using ten by (simp add: visible_def)
  note C = create_waitpoint_again [OF ok v ten, of "at_now w"]
  let ?c = "\<lambda>now. create_waitpoint s now (w_id v) (w_task_id v) (w_key v) (w_kind v) (w_payload_version v) (w_deadline v)"
  have kind: "w_kind v \<in> {''input'', ''approval'', ''webhook''}" "w_payload_version v > 0"
    using waitpoint_row_check [OF ok v] by (simp_all add: waitpoint_check_def)
  have read: "readWaitpoint s (w_id v) None None w = (Inr (mapWaitpoint v), w)"
    using waitpoint_readable [OF ok v vis] by (simp add: readWaitpoint_def await_def quiet_query [OF plan] return_def)
  show ?thesis
  proof (cases "\<exists>x. w_deadline v = Some x \<and> x \<le> at_now w")
    case True
    then have "execute ?c w = (Inl (mapDatabaseError check_violation), w)" using quiet_execute(2) [OF plan, of ?c] C by simp
    then show ?thesis
      using True kind ids by (simp add: waitForInput_def options_of_def createTaskWaitpoint_def guarded_def await_def mapDatabaseError_def)
  next
    case False
    then have "execute ?c w = (Inr True, w)" using quiet_execute(1) [OF plan, of ?c] C by simp
    then have "createTaskWaitpoint s (w_task_id v) (w_id v) (w_key v) (w_kind v) (w_payload_version v) (w_deadline v) w = (Inr (mapWaitpoint v), w)"
      using kind ids read by (simp add: createTaskWaitpoint_def guarded_def await_def)
    then have "waitForInput s parse (options_of v) w = (row_outcome parse v, w)"
      by (cases "parse (json_field (w_resolution v))")
        (simp_all add: waitForInput_def options_of_def row_outcome_def await_def return_def of_sum_def throw_def mapWaitpoint_def)
    then show ?thesis by (simp only: False if_False)
  qed
qed

text \<open>An approval asked for at 200 with deadline 900, given at 300.\<close>

definition approve_run :: "request list" where
  "approve_run = sample_run @ [(acme, 200, Waitpoint_call (Create_waitpoint ''w1'' ''t1'' ''approve'' ''approval'' 1 (Some 900))),
    (acme, 300, Waitpoint_call (Resolve_waitpoint ''w1'' ''acme'' ''ann'' 1 ''r1'' ''bob'' ''true'' ''h1''))]"

definition approve_db :: db where
  "approve_db = fold serve (drop 4 approve_run) sample_db"

lemma approve_reached: "fold serve approve_run empty_db = approve_db"
  by (simp add: approve_run_def approve_db_def sample_reached sample_length)

definition approve_at :: "int \<Rightarrow> world" where
  "approve_at now = \<lparr>at_db = approve_db, at_now = now, at_plan = []\<rparr>"

definition approval :: waitpoint_row where
  "approval = hd (waitpoints approve_db)"

theorem waitForInput_again_witness:
  "waitForInput acme parse_approval (options_of approval) (approve_at 899) = (Inr (Answered True (mapWaitpoint approval)), approve_at 899) \<and>
    (\<exists>e. waitForInput acme parse_approval (options_of approval) (approve_at 900) = (Inl (Rhinoq_error e), approve_at 900) \<and> re_retryable e)"
proof -
  have row: "approval \<in> set (waitpoints approve_db)" "current_tenant acme = Some (w_tenant_id approval)"
    "\<not> blank_text (w_task_id approval) \<and> \<not> blank_text (w_id approval) \<and> \<not> blank_text (w_key approval)"
    "w_deadline approval = Some 900" "row_outcome parse_approval approval = Inr (Answered True (mapWaitpoint approval))"
    by code_simp+
  have db: "at_db (approve_at now) = fold serve approve_run empty_db" "at_plan (approve_at now) = []" for now
    by (simp_all add: approve_at_def approve_reached)
  show ?thesis
    using waitForInput_again [OF db, of approval 899 acme parse_approval] waitForInput_again [OF db, of approval 900 acme parse_approval] row
    by (simp add: approve_at_def)
qed

end
