(* ===== verification/Evidence_Client.thy ===== *)
theory Evidence_Client
  imports Work_Client Samples
begin

text \<open>
  The methods of \<open>PostgresTaskClient\<close> (\<open>postgres/task-client.ts\<close>) for verifications and artifacts.
  A timestamp in a request is the instant it denotes, \<open>None\<close> where \<open>Date.parse\<close> finds none.
  \<open>clock\<close> is the clock of the client.
\<close>

section \<open>Verifications\<close>

record verification_finding =
  vf_rule_id :: string
  vf_subject_type :: string
  vf_subject_id :: string
  vf_invariant_version :: int
  vf_deep_link :: "string option"

record task_verification =
  tv_id :: string
  tv_task_id :: string
  tv_verifier :: string
  tv_status :: string
  tv_summary :: "string option"
  tv_evidence :: js_value
  tv_finding :: "verification_finding option"
  tv_verified_at :: int
  tv_created_at :: int

record verification_request =
  vr_id :: string
  vr_verifier :: string
  vr_status :: string
  vr_summary :: "string option"
  vr_evidence :: js_value
  vr_finding :: "verification_finding option"
  vr_verified_at :: "int option option"

text \<open>\<open>hasFinding\<close>: all four columns of the key are there, and neither empty nor zero.\<close>

definition row_finding :: "verification_row \<Rightarrow> verification_finding option" where
  "row_finding v = (case (truthy (v_finding_rule_id v), truthy (v_finding_subject_type v), truthy (v_finding_subject_id v),
      v_finding_invariant_version v) of
      (Some rule, Some sty, Some sid, Some n) \<Rightarrow> if n = 0 then None
        else Some \<lparr>vf_rule_id = rule, vf_subject_type = sty, vf_subject_id = sid, vf_invariant_version = n,
          vf_deep_link = truthy (v_finding_deep_link v)\<rparr>
    | _ \<Rightarrow> None)"

definition mapVerification :: "verification_row \<Rightarrow> task_verification" where
  "mapVerification v = \<lparr>tv_id = v_id v, tv_task_id = v_task_id v, tv_verifier = v_verifier v, tv_status = v_status v,
    tv_summary = truthy (v_summary v), tv_evidence = json_field (v_evidence v), tv_finding = row_finding v,
    tv_verified_at = v_verified_at v, tv_created_at = v_created_at v\<rparr>"

definition complete_finding :: "verification_finding \<Rightarrow> bool" where
  "complete_finding f \<longleftrightarrow> \<not> blank_text (vf_rule_id f) \<and> \<not> blank_text (vf_subject_type f) \<and>
    \<not> blank_text (vf_subject_id f) \<and> vf_invariant_version f \<ge> 1"

definition validateVerification :: "verification_request \<Rightarrow> 'a io \<Rightarrow> 'a io" where
  "validateVerification r m =
    guarded (blank_text (vr_id r) \<or> blank_text (vr_verifier r) \<or> vr_status r \<notin> {''verified'', ''mismatch'', ''unverifiable''})
      (Type_error ''verification id, verifier and valid status are required'')
    (guarded (len (coalesce (vr_summary r) '''') > 1024) (Range_error ''verification summary must be at most 1024 characters'')
    (guarded (byteLength (coalesce (stringify (vr_evidence r)) '''') > 65536)
      (Range_error ''verification evidence must be JSON up to 64 KiB'')
    (guarded (vr_verified_at r = Some None) (Type_error ''verification verifiedAt must be an ISO timestamp'')
    (guarded (case vr_finding r of None \<Rightarrow> False | Some f \<Rightarrow> \<not> complete_finding f)
      (Type_error ''verification finding requires a complete Finding key'') m))))"

definition getTaskVerification :: "session \<Rightarrow> string \<Rightarrow> task_verification io" where
  "getTaskVerification s vid =
    await (query (\<lambda>now d. select_one s verification_table (\<lambda>v. v_id v = vid) (verifications d))) (\<lambda>row. case row of
        None \<Rightarrow> throw (taskError ''RHINOQ_VERIFICATION_NOT_FOUND'' vid)
      | Some v \<Rightarrow> return (mapVerification v))"

definition record_request :: "session \<Rightarrow> int \<Rightarrow> string \<Rightarrow> verification_request \<Rightarrow> int \<Rightarrow> bool command" where
  "record_request s now taskId r at = record_verification s now (vr_id r) taskId (vr_verifier r) (vr_status r) (vr_summary r)
    (stringify (vr_evidence r)) (map_option vf_rule_id (vr_finding r)) (map_option vf_subject_type (vr_finding r))
    (map_option vf_subject_id (vr_finding r)) (map_option vf_invariant_version (vr_finding r))
    (Option.bind (vr_finding r) vf_deep_link) at"

definition verified_time :: "int \<Rightarrow> verification_request \<Rightarrow> int" where
  "verified_time clock r = (case vr_verified_at r of Some (Some at) \<Rightarrow> at | _ \<Rightarrow> clock)"

definition recordTaskVerification :: "int \<Rightarrow> session \<Rightarrow> string \<Rightarrow> verification_request \<Rightarrow> task_verification io" where
  "recordTaskVerification clock s taskId r = validateVerification r
    (await (execute (\<lambda>now. record_request s now taskId r (verified_time clock r))) (\<lambda>_. getTaskVerification s (vr_id r)))"

definition verification_page :: "int \<Rightarrow> verification_row list \<Rightarrow> task_verification list" where
  "verification_page limit rows = map mapVerification (left_text limit (sort_key (\<lambda>v. (- v_verified_at v, v_id v)) rows))"

definition verification_limit :: "int \<Rightarrow> 'a io \<Rightarrow> 'a io" where
  "verification_limit limit = guarded (limit < 1 \<or> limit > 100) (Range_error ''verification limit must be 1..100'')"

definition listTaskVerificationsForOwner ::
  "session \<Rightarrow> string \<Rightarrow> string \<Rightarrow> int \<Rightarrow> string \<Rightarrow> task_verification list io" where
  "listTaskVerificationsForOwner s taskId ownerId limit tenantId =
    await (getTaskForOwner s taskId ownerId tenantId) (\<lambda>_. verification_limit limit
    (query (\<lambda>now d. verification_page limit (select_rows s verification_table (\<lambda>v. v_task_id v = taskId \<and>
      task_of_scope s taskId (Some ownerId) (Some tenantId) d) (verifications d)))))"

definition listTaskVerifications :: "session \<Rightarrow> string \<Rightarrow> int \<Rightarrow> task_verification list io" where
  "listTaskVerifications s taskId limit =
    await (getTask s taskId) (\<lambda>_. verification_limit limit
    (query (\<lambda>now d. verification_page limit (select_rows s verification_table (\<lambda>v. v_task_id v = taskId) (verifications d)))))"

definition listRecentlyVerifiedForOwner :: "session \<Rightarrow> string \<Rightarrow> int \<Rightarrow> string \<Rightarrow> task_verification list io" where
  "listRecentlyVerifiedForOwner s ownerId limit tenantId =
    guarded (blank_text ownerId) (Type_error ''owner id is required'')
    (verification_limit limit
    (query (\<lambda>now d. verification_page limit (select_rows s verification_table (\<lambda>v. v_status v = ''verified'' \<and>
      task_of_scope s (v_task_id v) (Some ownerId) (Some tenantId) d) (verifications d)))))"

section \<open>Artifacts\<close>

record task_artifact =
  ta_entity_version :: int
  ta_id :: string
  ta_task_id :: string
  ta_execution_id :: "string option"
  ta_name :: string
  ta_content_type :: string
  ta_size_bytes :: int
  ta_checksum_sha256 :: string
  ta_expires_at :: int
  ta_lineage :: "string list"
  ta_created_at :: int
  ta_updated_at :: int

record artifact_record = task_artifact +
  ta_reference :: string

record artifact_request =
  ar_id :: string
  ar_execution_id :: "string option"
  ar_name :: string
  ar_content_type :: string
  ar_size_bytes :: int
  ar_checksum_sha256 :: string
  ar_reference :: string
  ar_expires_at :: "int option"
  ar_lineage :: "string list option"

text \<open>\<open>String(value)\<close>; an array is the list of its elements with commas, in which null is empty.\<close>

fun js_String :: "js_value \<Rightarrow> string" and js_join :: "js_value list \<Rightarrow> string list" where
  "js_String Undefined = ''undefined''"
| "js_String Null = ''null''"
| "js_String (Bool b) = (if b then ''true'' else ''false'')"
| "js_String (Num i) = int_text i"
| "js_String (Str x) = x"
| "js_String (Arr vs) = comma_list (js_join vs)"
| "js_String (Obj ps) = ''[object Object]''"
| "js_join [] = []"
| "js_join (v # vs) = (if v = Null \<or> v = Undefined then '''' else js_String v) # js_join vs"

definition lineage_column :: "string \<Rightarrow> string list" where
  "lineage_column x = (case json_column (Some x) of Arr vs \<Rightarrow> map js_String vs | _ \<Rightarrow> [])"

definition mapArtifact :: "artifact_row \<Rightarrow> artifact_record" where
  "mapArtifact a = \<lparr>ta_entity_version = a_version a, ta_id = a_id a, ta_task_id = a_task_id a,
    ta_execution_id = truthy (a_execution_id a), ta_name = a_name a, ta_content_type = a_content_type a,
    ta_size_bytes = a_size_bytes a, ta_checksum_sha256 = a_checksum_sha256 a, ta_expires_at = a_expires_at a,
    ta_lineage = lineage_column (a_lineage a), ta_created_at = a_created_at a, ta_updated_at = a_updated_at a,
    ta_reference = a_reference a\<rparr>"

definition withoutArtifactReference :: "artifact_record \<Rightarrow> task_artifact" where
  "withoutArtifactReference = task_artifact.truncate"

definition validateArtifact :: "artifact_request \<Rightarrow> 'a io \<Rightarrow> 'a io" where
  "validateArtifact r m =
    guarded (blank_text (ar_id r) \<or> blank_text (ar_name r) \<or> blank_text (ar_content_type r) \<or> blank_text (ar_reference r))
      (Type_error ''artifact id, name, contentType and reference are required'')
    (guarded (\<not> safe_integer (ar_size_bytes r) \<or> ar_size_bytes r < 0)
      (Range_error ''artifact sizeBytes must be a non-negative safe integer'')
    (guarded (\<not> sha256_text (ar_checksum_sha256 r)) (Type_error ''artifact checksumSha256 must be 64 lowercase hex characters'')
    (guarded (ar_expires_at r = None) (Type_error ''artifact expiresAt must be an ISO timestamp'')
    (guarded (case ar_lineage r of None \<Rightarrow> False | Some ids \<Rightarrow> length ids > 100 \<or> list_ex blank_text ids)
      (Range_error ''artifact lineage must contain at most 100 non-empty IDs'') m))))"

definition getTaskArtifactRecord :: "session \<Rightarrow> string \<Rightarrow> artifact_record io" where
  "getTaskArtifactRecord s aid =
    await (query (\<lambda>now d. select_one s artifact_table (\<lambda>a. a_id a = aid) (artifacts d))) (\<lambda>row. case row of
        None \<Rightarrow> throw (taskError ''RHINOQ_ARTIFACT_NOT_FOUND'' aid)
      | Some a \<Rightarrow> return (mapArtifact a))"

definition registerTaskArtifact :: "session \<Rightarrow> string \<Rightarrow> artifact_request \<Rightarrow> task_artifact io" where
  "registerTaskArtifact s taskId r = validateArtifact r
    (await (execute (\<lambda>now. register_artifact s now (ar_id r) taskId (ar_execution_id r) (ar_name r) (ar_content_type r)
        (ar_size_bytes r) (ar_checksum_sha256 r) (ar_reference r) (coalesce (ar_expires_at r) 0)
        (print_value (Arr (map Str (coalesce (ar_lineage r) []))))))
      (\<lambda>_. await (getTaskArtifactRecord s (ar_id r)) (\<lambda>a. return (withoutArtifactReference a))))"

definition refreshTaskArtifact :: "session \<Rightarrow> string \<Rightarrow> int \<Rightarrow> string \<Rightarrow> int option \<Rightarrow> task_artifact io" where
  "refreshTaskArtifact s aid expectedVersion reference expiresAt =
    validateVersion ''expectedArtifactVersion'' expectedVersion
    (guarded (blank_text reference \<or> expiresAt = None) (Type_error ''artifact refresh requires reference and expiresAt'')
    (await (execute (\<lambda>now. refresh_artifact s now aid expectedVersion reference (coalesce expiresAt 0)))
      (\<lambda>_. await (getTaskArtifactRecord s aid) (\<lambda>a. return (withoutArtifactReference a)))))"

definition getTaskArtifactForOwner :: "session \<Rightarrow> string \<Rightarrow> string \<Rightarrow> string \<Rightarrow> artifact_record io" where
  "getTaskArtifactForOwner s aid ownerId tenantId =
    await (query (\<lambda>now d. select_one s artifact_table (\<lambda>a. a_id a = aid \<and>
        task_of_scope s (a_task_id a) (Some ownerId) (Some tenantId) d) (artifacts d))) (\<lambda>row. case row of
        None \<Rightarrow> throw (taskError ''RHINOQ_ARTIFACT_NOT_FOUND'' aid)
      | Some a \<Rightarrow> return (mapArtifact a))"

definition artifact_page :: "int \<Rightarrow> artifact_row list \<Rightarrow> task_artifact list" where
  "artifact_page limit rows =
    map (withoutArtifactReference \<circ> mapArtifact) (left_text limit (sort_key (\<lambda>a. (a_created_at a, a_id a)) rows))"

definition artifact_limit :: "int \<Rightarrow> 'a io \<Rightarrow> 'a io" where
  "artifact_limit limit = guarded (limit < 1 \<or> limit > 100) (Range_error ''artifact limit must be 1..100'')"

definition listTaskArtifactsForOwner :: "session \<Rightarrow> string \<Rightarrow> string \<Rightarrow> int \<Rightarrow> string \<Rightarrow> task_artifact list io" where
  "listTaskArtifactsForOwner s taskId ownerId limit tenantId =
    await (getTaskForOwner s taskId ownerId tenantId) (\<lambda>_. artifact_limit limit
    (query (\<lambda>now d. artifact_page limit (select_rows s artifact_table (\<lambda>a. a_task_id a = taskId \<and>
      task_of_scope s taskId (Some ownerId) (Some tenantId) d) (artifacts d)))))"

definition listTaskArtifacts :: "session \<Rightarrow> string \<Rightarrow> int \<Rightarrow> task_artifact list io" where
  "listTaskArtifacts s taskId limit =
    await (getTask s taskId) (\<lambda>_. artifact_limit limit
    (query (\<lambda>now d. artifact_page limit (select_rows s artifact_table (\<lambda>a. a_task_id a = taskId) (artifacts d)))))"

section \<open>Every method is a run\<close>

lemma serve_evidence_calls:
  "serve (s, now, Evidence_call (Record_verification a b c e f g h i j l k n2)) =
    committed (record_verification s now a b c e f g h i j l k n2)"
  "serve (s, now, Evidence_call (Register_artifact a b f c e n e2 e3 n2 e4)) = committed (register_artifact s now a b f c e n e2 e3 n2 e4)"
  "serve (s, now, Evidence_call (Refresh_artifact a n c n2)) = committed (refresh_artifact s now a n c n2)"
  by (simp_all add: serve_def fun_eq_iff)

lemmas runs_evidence_statements [client_runs] = serve_evidence_calls [THEN sym, THEN fun_cong, THEN runs_call]

lemma runs_record_request [client_runs]: "runs (execute (\<lambda>now. record_request s now tid r at))"
  unfolding record_request_def by (intro client_runs)

lemma runs_evidence_reads [client_runs]:
  "runs (getTaskVerification s a)" "runs (getTaskArtifactRecord s a)" "runs (getTaskArtifactForOwner s a b c)"
  unfolding getTaskVerification_def getTaskArtifactRecord_def getTaskArtifactForOwner_def by (intro client_runs)+

lemma runs_evidence_methods [client_runs]:
  "runs (recordTaskVerification clock s a r)" "runs (registerTaskArtifact s a q)" "runs (refreshTaskArtifact s a n b x)"
  unfolding recordTaskVerification_def validateVerification_def registerTaskArtifact_def validateArtifact_def refreshTaskArtifact_def
  by (intro client_runs)+

section \<open>Recording again\<close>

definition records :: "string \<Rightarrow> verification_request \<Rightarrow> int \<Rightarrow> verification_row \<Rightarrow> bool" where
  "records taskId r at v \<longleftrightarrow> v_id v = vr_id r \<and> v_task_id v = taskId \<and> v_verifier v = vr_verifier r \<and> v_status v = vr_status r \<and>
    v_summary v = vr_summary r \<and> v_evidence v = stringify (vr_evidence r) \<and>
    v_finding_rule_id v = map_option vf_rule_id (vr_finding r) \<and> v_finding_subject_type v = map_option vf_subject_type (vr_finding r) \<and>
    v_finding_subject_id v = map_option vf_subject_id (vr_finding r) \<and>
    v_finding_invariant_version v = map_option vf_invariant_version (vr_finding r) \<and>
    v_finding_deep_link v = Option.bind (vr_finding r) vf_deep_link \<and> v_verified_at v = at"

definition requested_row :: "session \<Rightarrow> int \<Rightarrow> string \<Rightarrow> string \<Rightarrow> verification_request \<Rightarrow> int \<Rightarrow> verification_row" where
  "requested_row s now taskId tenant r at = new_verification now (vr_id r) taskId tenant (vr_verifier r) (vr_status r) (vr_summary r)
    (stringify (vr_evidence r)) (map_option vf_rule_id (vr_finding r)) (map_option vf_subject_type (vr_finding r))
    (map_option vf_subject_id (vr_finding r)) (map_option vf_invariant_version (vr_finding r))
    (Option.bind (vr_finding r) vf_deep_link) at"

lemma requested_row_records [simp]: "records taskId r at (requested_row s now taskId tenant r at)"
  by (simp add: records_def requested_row_def new_verification_def)

lemma rest_verifications: "rest d' = rest d \<Longrightarrow> verifications d' = verifications d"
  by (metis (no_types, lifting) db.select_convs(4) db.surjective db.update_convs rest_def)

lemma record_request_recorded:
  assumes c: "record_request s now taskId r at d = Inr (x, d')"
    and v: "select_one s verification_table (\<lambda>v. v_id v = vr_id r) (verifications d') = Some v"
  shows "records taskId r at v" and "\<exists>tenant. default_tenant s = Inr tenant \<and> visible s tenant \<and> verification_check (requested_row s now taskId tenant r at)"
proof -
  from c obtain tenant found rows where t: "default_tenant s = Inr tenant"
    and ins: "insert_row_or_nothing s verification_table (requested_row s now taskId tenant r at) (verifications d) = Inr (found, rows)"
    by (auto simp: record_request_def record_verification_def requested_row_def bind_res_def split: sum.splits)
  show "\<exists>tenant. default_tenant s = Inr tenant \<and> visible s tenant \<and> verification_check (requested_row s now taskId tenant r at)"
    using t ins by (auto simp: insert_row_or_nothing_def verification_table_def requested_row_def new_verification_def split: if_splits)
  show "records taskId r at v"
  proof (cases found)
    case True
    then have "verifications d' = verifications d @ [requested_row s now taskId tenant r at]"
      using c t ins by (auto simp: record_request_def record_verification_def requested_row_def insert_row_or_nothing_def split: if_splits dest!: update_tasksD(3) rest_verifications)
    moreover have "\<forall>y \<in> set (verifications d). v_id y \<noteq> vr_id r"
      using ins True by (auto simp: insert_row_or_nothing_def verification_table_def requested_row_def new_verification_def list_all_iff split: if_splits)
    ultimately have "v = requested_row s now taskId tenant r at" using select_one_SomeD [OF v] by auto
    then show ?thesis by simp
  next
    case False
    then show ?thesis
      using c t ins v select_one_SomeD [OF v] by (auto simp: record_request_def record_verification_def requested_row_def records_def split: if_splits option.splits)
  qed
qed

lemma record_request_again:
  assumes v: "select_one s verification_table (\<lambda>v. v_id v = vr_id r) (verifications d) = Some v"
    and old: "records taskId r at v" and t: "default_tenant s = Inr tenant" "verification_check (requested_row s now taskId tenant r at)"
  shows "record_request s now' taskId r at' d =
    (if at' = at then Inr (True, d) else fail ''RHINOQ_VERIFICATION_CONFLICT'' (vr_id r))"
proof -
  let ?new = "requested_row s now' taskId tenant r at'"
  have "verification_check ?new" using t(2) by (simp add: verification_check_def requested_row_def new_verification_def)
  moreover have "visible s tenant" using default_tenant_InrD [OF t(1)] by simp
  moreover have "v \<in> set (verifications d)" "v_id v = vr_id r" using select_one_SomeD [OF v] by auto
  ultimately have "insert_row_or_nothing s verification_table ?new (verifications d) = Inr (False, verifications d)"
    by (auto simp: insert_row_or_nothing_def verification_table_def requested_row_def new_verification_def list_all_iff)
  then show ?thesis using v old t(1) by (auto simp: record_request_def record_verification_def requested_row_def records_def)
qed

text \<open>What a request that succeeded leaves, and what it does when it is repeated.\<close>

lemma recordTaskVerification_left:
  assumes plan: "at_plan w = []" and first: "recordTaskVerification clock s taskId r w = (Inr tv, w')"
  obtains v d tenant where "w' = w\<lparr>at_db := d\<rparr>" and "tv = mapVerification v"
    and "select_one s verification_table (\<lambda>v. v_id v = vr_id r) (verifications d) = Some v"
    and "records taskId r (verified_time clock r) v" and "default_tenant s = Inr tenant"
    and "verification_check (requested_row s (at_now w) taskId tenant r (verified_time clock r))"
    and "\<And>m :: task_verification io. validateVerification r m = m" and "vr_verified_at r \<noteq> Some None" and "vr_id r \<noteq> []"
proof -
  let ?read = "getTaskVerification s (vr_id r)"
  have valid: "validateVerification r m = m" "vr_verified_at r \<noteq> Some None" "vr_id r \<noteq> []" for m :: "task_verification io"
    using first by (auto simp: recordTaskVerification_def validateVerification_def guarded_def throw_def js_trim_def split: if_splits)
  obtain x d where c: "record_request s (at_now w) taskId r (verified_time clock r) (at_db w) = Inr (x, d)"
    and read: "?read (w\<lparr>at_db := d\<rparr>) = (Inr tv, w')"
    using first by (auto simp: recordTaskVerification_def valid await_def execute_def plan split: sum.splits)
  obtain v where v: "select_one s verification_table (\<lambda>v. v_id v = vr_id r) (verifications d) = Some v"
    and tv: "tv = mapVerification v" and w': "w' = w\<lparr>at_db := d\<rparr>"
    using read by (auto simp: getTaskVerification_def await_def quiet_query plan return_def throw_def split: option.splits)
  obtain tenant where "default_tenant s = Inr tenant"
    "verification_check (requested_row s (at_now w) taskId tenant r (verified_time clock r))"
    using record_request_recorded(2) [OF c v] by blast
  then show thesis by (rule that [OF w' tv v record_request_recorded(1) [OF c v] _ _ valid])
qed

lemma recordTaskVerification_repeated:
  assumes w: "at_plan w = []" and v: "select_one s verification_table (\<lambda>v. v_id v = vr_id r) (verifications (at_db w)) = Some v"
    and old: "records taskId r at v" "default_tenant s = Inr tenant" "verification_check (requested_row s now taskId tenant r at)"
    and valid: "\<And>m :: task_verification io. validateVerification r m = m" "vr_id r \<noteq> []"
  shows "recordTaskVerification clock s taskId r w = (if verified_time clock r = at then (Inr (mapVerification v), w)
    else (Inl (taskError ''RHINOQ_VERIFICATION_CONFLICT'' (vr_id r)), w))"
proof -
  have "getTaskVerification s (vr_id r) w = (Inr (mapVerification v), w)"
    using v by (simp add: getTaskVerification_def await_def quiet_query w return_def)
  then show ?thesis
    using record_request_again [OF v old, of "at_now w" "verified_time clock r"] w valid(2)
    by (auto simp: recordTaskVerification_def valid(1) await_def execute_def fail_def mapDatabaseError_def nullif_def)
qed

text \<open>
  C35: Recording a verification again. While no other client acts, a client that repeats a request which succeeded
  gets the record of the first time and changes nothing if the request carries its time. If the time is left to the clock of
  the client, the repetition is a conflict as soon as the clock has moved on.
\<close>

theorem verification_recorded_again:
  assumes plan: "at_plan w = []" and first: "recordTaskVerification clock s taskId r w = (Inr tv, w')"
    and later: "w'' = w'\<lparr>at_now := now\<rparr>"
  shows "recordTaskVerification clock' s taskId r w'' =
    (if vr_verified_at r \<noteq> None \<or> clock' = clock then (Inr tv, w'')
     else (Inl (taskError ''RHINOQ_VERIFICATION_CONFLICT'' (vr_id r)), w''))"
  using plan first
proof (rule recordTaskVerification_left)
  fix v d tenant
  assume L: "w' = w\<lparr>at_db := d\<rparr>" "tv = mapVerification v"
    "select_one s verification_table (\<lambda>v. v_id v = vr_id r) (verifications d) = Some v"
    "records taskId r (verified_time clock r) v" "default_tenant s = Inr tenant"
    "verification_check (requested_row s (at_now w) taskId tenant r (verified_time clock r))"
    "\<And>m :: task_verification io. validateVerification r m = m" "vr_verified_at r \<noteq> Some None" "vr_id r \<noteq> []"
  have "at_plan w'' = []" "at_db w'' = d" using later L(1) plan by simp_all
  moreover have "verified_time clock' r = verified_time clock r \<longleftrightarrow> vr_verified_at r \<noteq> None \<or> clock' = clock"
    using L(8) by (auto simp: verified_time_def split: option.splits)
  ultimately show ?thesis using recordTaskVerification_repeated [of w'' s r v taskId, OF _ _ L(4-7,9)] L(2,3) by simp
qed

definition sample_verification :: "int option option \<Rightarrow> verification_request" where
  "sample_verification at = \<lparr>vr_id = ''v1'', vr_verifier = ''ledger'', vr_status = ''mismatch'', vr_summary = Some ''off by one'',
    vr_evidence = Undefined,
    vr_finding = Some \<lparr>vf_rule_id = ''task.ledger'', vf_subject_type = ''task'', vf_subject_id = ''t1'', vf_invariant_version = 1, vf_deep_link = None\<rparr>,
    vr_verified_at = at\<rparr>"

definition verified_world :: "int \<Rightarrow> int option option \<Rightarrow> world" where
  "verified_world clock at = snd (recordTaskVerification clock acme ''t1'' (sample_verification at) \<lparr>at_db = sample_db, at_now = 500, at_plan = []\<rparr>)"

theorem verification_recorded_again_witness:
  "(\<exists>tv. recordTaskVerification 520 acme ''t1'' (sample_verification (Some (Some 490))) (verified_world 499 (Some (Some 490))\<lparr>at_now := 521\<rparr>) =
      (Inr tv, verified_world 499 (Some (Some 490))\<lparr>at_now := 521\<rparr>) \<and> tv_status tv = ''mismatch'') \<and>
    recordTaskVerification 520 acme ''t1'' (sample_verification None) (verified_world 499 None\<lparr>at_now := 521\<rparr>) =
      (Inl (taskError ''RHINOQ_VERIFICATION_CONFLICT'' ''v1''), verified_world 499 None\<lparr>at_now := 521\<rparr>)"
proof -
  let ?w = "\<lparr>at_db = sample_db, at_now = 500, at_plan = []\<rparr>"
  have "\<exists>tv. recordTaskVerification 499 acme ''t1'' (sample_verification at) ?w = (Inr tv, verified_world 499 at) \<and> tv_status tv = ''mismatch''"
    if "at = None \<or> at = Some (Some 490)" for at
  proof -
    have ok: "case fst (recordTaskVerification 499 acme ''t1'' (sample_verification None) ?w) of Inl _ \<Rightarrow> False | Inr tv \<Rightarrow> tv_status tv = ''mismatch''"
      "case fst (recordTaskVerification 499 acme ''t1'' (sample_verification (Some (Some 490))) ?w) of Inl _ \<Rightarrow> False | Inr tv \<Rightarrow> tv_status tv = ''mismatch''"
      by code_simp+
    then have "case fst (recordTaskVerification 499 acme ''t1'' (sample_verification at) ?w) of Inl _ \<Rightarrow> False | Inr tv \<Rightarrow> tv_status tv = ''mismatch''"
      using that by blast
    then show ?thesis unfolding verified_world_def
      by (cases "recordTaskVerification 499 acme ''t1'' (sample_verification at) ?w") (auto split: sum.splits)
  qed
  then obtain tv tv' where
    "recordTaskVerification 499 acme ''t1'' (sample_verification (Some (Some 490))) ?w = (Inr tv, verified_world 499 (Some (Some 490)))" "tv_status tv = ''mismatch''"
    "recordTaskVerification 499 acme ''t1'' (sample_verification None) ?w = (Inr tv', verified_world 499 None)"
    by metis
  note A = this
  have "at_plan ?w = []" by simp
  note V = verification_recorded_again [OF this A(1) refl, of 520 521] verification_recorded_again [OF this A(3) refl, of 520 521]
  show ?thesis using V A(2) by (simp add: sample_verification_def)
qed

end
