(* ===== verification/Notification_Worker.thy ===== *)
theory Notification_Worker
  imports Evidence_Client
begin

text \<open>
  From a verification to its delivery: the outbox methods of \<open>PostgresTaskClient\<close> (\<open>postgres/task-client.ts\<close>),
  \<open>recordTaskVerificationChain\<close> (\<open>tasks/verification.ts\<close>) and \<open>TaskNotificationWorker\<close> with its delivery adapters
  (\<open>tasks/notification-worker.ts\<close>). The Finding service, the transport and the policies of the host are parameters. A
  Finding is the object the service returned.
\<close>

section \<open>Instants as text\<close>

text \<open>\<open>Date.prototype.toISOString\<close> of an instant in milliseconds, for the years 0 to 9999.\<close>

definition padded :: "nat \<Rightarrow> int \<Rightarrow> string" where
  "padded n i = (let x = int_text i in replicate (n - length x) CHR ''0'' @ x)"

definition civil_date :: "int \<Rightarrow> int \<times> int \<times> int" where
  "civil_date days = (
    let z = days + 719468; era = z div 146097; doe = z mod 146097;
        yoe = (doe - doe div 1460 + doe div 36524 - doe div 146096) div 365;
        doy = doe - (365 * yoe + yoe div 4 - yoe div 100); mp = (5 * doy + 2) div 153;
        m = if mp < 10 then mp + 3 else mp - 9
    in (yoe + era * 400 + (if m \<le> 2 then 1 else 0), m, doy - (153 * mp + 2) div 5 + 1))"

definition toISOString :: "int \<Rightarrow> string" where
  "toISOString at = (
    let (y, m, dd) = civil_date (at div 86400000); ms = at mod 86400000 in
    padded 4 y @ ''-'' @ padded 2 m @ ''-'' @ padded 2 dd @ ''T'' @ padded 2 (ms div 3600000) @ '':'' @
      padded 2 (ms div 60000 mod 60) @ '':'' @ padded 2 (ms div 1000 mod 60) @ ''.'' @ padded 3 (ms mod 1000) @ ''Z'')"

section \<open>The outbox methods\<close>

record task_notification =
  tn_id :: string
  tn_task_id :: string
  tn_verification_id :: string
  tn_verification :: js_value
  tn_finding :: js_value
  tn_deep_link :: "string option"
  tn_state :: outbox_state
  tn_attempts :: int
  tn_available_at :: int
  tn_lease_owner :: "string option"
  tn_lease_until :: "int option"
  tn_last_error :: "string option"
  tn_created_at :: int
  tn_updated_at :: int

record notification_request =
  nr_notification_id :: string
  nr_verification :: task_verification
  nr_finding :: js_value
  nr_deep_link :: "string option"

definition mapNotification :: "outbox_row \<Rightarrow> task_notification" where
  "mapNotification n = \<lparr>tn_id = n_id n, tn_task_id = n_task_id n, tn_verification_id = n_verification_id n,
    tn_verification = json_column (Some (n_verification n)), tn_finding = json_column (Some (n_finding n)),
    tn_deep_link = truthy (n_deep_link n), tn_state = n_state n, tn_attempts = n_attempts n,
    tn_available_at = n_available_at n, tn_lease_owner = truthy (n_lease_owner n), tn_lease_until = n_lease_until n,
    tn_last_error = truthy (n_last_error n), tn_created_at = n_created_at n, tn_updated_at = n_updated_at n\<rparr>"

definition optional_text :: "string option \<Rightarrow> js_value" where
  "optional_text x = (case x of None \<Rightarrow> Undefined | Some y \<Rightarrow> Str y)"

text \<open>The record a client method returned, as the object \<open>JSON.stringify\<close> gets.\<close>

definition verification_object :: "task_verification \<Rightarrow> js_value" where
  "verification_object v = Obj [(''schemaVersion'', Num 1), (''id'', Str (tv_id v)), (''taskId'', Str (tv_task_id v)),
    (''verifier'', Str (tv_verifier v)), (''status'', Str (tv_status v)), (''summary'', optional_text (tv_summary v)),
    (''evidence'', tv_evidence v),
    (''finding'', case tv_finding v of None \<Rightarrow> Undefined | Some f \<Rightarrow> Obj [(''ruleId'', Str (vf_rule_id f)),
      (''subjectType'', Str (vf_subject_type f)), (''subjectId'', Str (vf_subject_id f)),
      (''invariantVersion'', Num (vf_invariant_version f)), (''deepLink'', optional_text (vf_deep_link f))]),
    (''verifiedAt'', Str (toISOString (tv_verified_at v))), (''createdAt'', Str (toISOString (tv_created_at v)))]"

text \<open>\<open>value?.property\<close>, and whether JavaScript takes a value for true.\<close>

definition property_value :: "string \<Rightarrow> js_value \<Rightarrow> js_value" where
  "property_value k v = coalesce (own_property k v) Undefined"

definition truthy_value :: "js_value \<Rightarrow> bool" where
  "truthy_value v \<longleftrightarrow> v \<notin> {Undefined, Null, Bool False, Num 0, Str ''''}"

text \<open>The \<open>ruleId\<close> of a Finding is a text; without one it counts as empty.\<close>

definition rule_id :: "js_value \<Rightarrow> string" where
  "rule_id finding = (case property_value ''ruleId'' finding of Str x \<Rightarrow> x | _ \<Rightarrow> [])"

definition client_queueTaskNotification :: "session \<Rightarrow> string \<Rightarrow> notification_request \<Rightarrow> task_notification io" where
  "client_queueTaskNotification s taskId q = (
    let v = nr_verification q; verification = verification_object v; finding = nr_finding q;
        size = byteLength (print_value (Obj [(''verification'', verification), (''finding'', finding)])) in
    guarded (blank_text taskId \<or> blank_text (nr_notification_id q) \<or> tv_id v = '''' \<or>
        rule_id finding = '''')
      (Type_error ''task notification requires task, notification, verification and finding'')
    (guarded (tv_task_id v \<noteq> taskId) (Type_error ''notification verification belongs to another task'')
    (guarded (size > 131072) (Range_error ''task notification payload must be JSON up to 128 KiB'')
    (await (execute (\<lambda>now. queueTaskNotification s now taskId (nr_notification_id q) (tv_id v) (tv_task_id v)
        (rule_id finding) (print_value verification) (print_value finding) size (nr_deep_link q)))
      (\<lambda>row. return (mapNotification row))))))"

definition client_claimTaskNotification :: "session \<Rightarrow> string \<Rightarrow> int \<Rightarrow> task_notification option io" where
  "client_claimTaskNotification s owner leaseMs =
    guarded (blank_text owner) (Type_error ''notification lease owner is required'')
    (guarded (leaseMs < 1000 \<or> leaseMs > 3600000) (Range_error ''notification leaseMs must be 1000..3600000'')
    (await (execute (\<lambda>now. claimTaskNotification s now owner leaseMs)) (\<lambda>row. return (map_option mapNotification row))))"

definition client_completeTaskNotification :: "session \<Rightarrow> string \<Rightarrow> string \<Rightarrow> task_notification io" where
  "client_completeTaskNotification s nid owner =
    await (execute (\<lambda>now. completeTaskNotification s now nid owner)) (\<lambda>row. return (mapNotification row))"

definition client_failTaskNotification :: "session \<Rightarrow> string \<Rightarrow> string \<Rightarrow> string \<Rightarrow> int \<Rightarrow> task_notification io" where
  "client_failTaskNotification s nid owner reason retryAfterMs =
    guarded (blank_text reason) (Type_error ''notification failure reason is required'')
    (guarded (retryAfterMs < 0 \<or> retryAfterMs > 86400000) (Range_error ''retryAfterMs must be 0..86400000'')
    (await (execute (\<lambda>now. failTaskNotification s now nid owner reason retryAfterMs)) (\<lambda>row. return (mapNotification row))))"

section \<open>The verification chain\<close>

record finding_observation =
  fo_rule_id :: string
  fo_subject_type :: string
  fo_subject_id :: string
  fo_invariant_version :: int
  fo_observed_at :: int
  fo_evidence :: string

record chain_options =
  co_task_id :: string
  co_verification :: verification_request
  co_finding_base_url :: "string option"

text \<open>
  \<open>url\<close> is the address built from an absolute base and search parameters, \<open>None\<close> where \<open>new URL\<close> throws.
\<close>

definition findingLink ::
  "(string \<Rightarrow> (string \<times> string) list \<Rightarrow> string option) \<Rightarrow> string option \<Rightarrow> verification_finding \<Rightarrow> client_error + string option" where
  "findingLink url base k = (if blank_text (coalesce base '''') then Inr None
    else case url (coalesce base '''') [(''ruleId'', vf_rule_id k), (''subjectType'', vf_subject_type k), (''subjectId'', vf_subject_id k)] of
        None \<Rightarrow> Inl (Type_error ''findingBaseURL must be absolute'')
      | Some x \<Rightarrow> Inr (Some x))"

definition chain_key :: "chain_options \<Rightarrow> verification_finding option" where
  "chain_key opts = (let input = co_verification opts in case vr_finding input of
      Some f \<Rightarrow> Some f
    | None \<Rightarrow> if vr_status input = ''mismatch'' then Some \<lparr>vf_rule_id = ''task.'' @ vr_verifier input, vf_subject_type = ''task'',
        vf_subject_id = co_task_id opts, vf_invariant_version = 1, vf_deep_link = None\<rparr> else None)"

text \<open>\<open>{ ...findingKey, ...(deepLink ? { deepLink } : {}) }\<close>.\<close>

definition linked :: "string option \<Rightarrow> verification_finding \<Rightarrow> verification_finding" where
  "linked link k = (case truthy link of None \<Rightarrow> k | Some x \<Rightarrow> k\<lparr>vf_deep_link := Some x\<rparr>)"

definition chain_link ::
  "(string \<Rightarrow> (string \<times> string) list \<Rightarrow> string option) \<Rightarrow> chain_options \<Rightarrow> client_error + string option" where
  "chain_link url opts = (case chain_key opts of None \<Rightarrow> Inr None | Some k \<Rightarrow> findingLink url (co_finding_base_url opts) k)"

definition chain_request :: "string option \<Rightarrow> chain_options \<Rightarrow> verification_request" where
  "chain_request link opts = (co_verification opts)\<lparr>vr_finding := map_option (linked link) (chain_key opts)\<rparr>"

definition chain_observation :: "chain_options \<Rightarrow> verification_finding \<Rightarrow> task_verification \<Rightarrow> finding_observation" where
  "chain_observation opts k v = \<lparr>fo_rule_id = vf_rule_id k, fo_subject_type = vf_subject_type k, fo_subject_id = vf_subject_id k,
    fo_invariant_version = vf_invariant_version k, fo_observed_at = tv_verified_at v,
    fo_evidence = print_value (Obj [(''taskId'', Str (co_task_id opts)), (''verificationId'', Str (tv_id v)),
      (''summary'', optional_text (tv_summary v))])\<rparr>"

definition chain_notification :: "string option \<Rightarrow> task_verification \<Rightarrow> js_value \<Rightarrow> notification_request" where
  "chain_notification link v finding = \<lparr>nr_notification_id = ''task-verification:'' @ tv_id v, nr_verification = v,
    nr_finding = finding, nr_deep_link = truthy link\<rparr>"

text \<open>
  \<open>observeFinding\<close> and \<open>queueNotification\<close> are the callbacks of the host, if it gave them; \<open>tasksQueue\<close> says whether the
  client has \<open>queueTaskNotification\<close>.
\<close>

definition recordTaskVerificationChain ::
  "(string \<Rightarrow> (string \<times> string) list \<Rightarrow> string option) \<Rightarrow> int \<Rightarrow> session \<Rightarrow> (finding_observation \<Rightarrow> js_value io) option \<Rightarrow>
    (notification_request \<Rightarrow> unit io) option \<Rightarrow> bool \<Rightarrow> chain_options \<Rightarrow> (task_verification \<times> js_value option) io" where
  "recordTaskVerificationChain url clock s observeFinding queueNotification tasksQueue opts = (
    let mismatch = (vr_status (co_verification opts) = ''mismatch'') in
    guarded (mismatch \<and> Option.is_none observeFinding) (Type_error ''mismatch verification requires observeFinding'')
    (guarded (mismatch \<and> Option.is_none queueNotification \<and> \<not> tasksQueue)
      (Type_error ''mismatch verification requires a durable notification queue'')
    (guarded (\<not> Option.is_none queueNotification \<and> Option.is_none observeFinding) (Type_error ''queueNotification requires observeFinding'')
    (await (of_sum (chain_link url opts)) (\<lambda>link.
    await (recordTaskVerification clock s (co_task_id opts) (chain_request link opts)) (\<lambda>v.
    case (if mismatch then chain_key opts else None, observeFinding) of
      (Some k, Some observe) \<Rightarrow>
        await (observe (chain_observation opts k v)) (\<lambda>finding.
        await (case queueNotification of
            Some queue \<Rightarrow> queue (chain_notification link v finding)
          | None \<Rightarrow> await (client_queueTaskNotification s (co_task_id opts) (chain_notification link v finding)) (\<lambda>_. return ()))
          (\<lambda>_. return (v, Some finding)))
    | _ \<Rightarrow> return (v, None)))))))"

section \<open>The worker\<close>

record notification_worker =
  nw_owner :: string
  nw_lease_ms :: int
  nw_retry_after_ms :: int
  nw_idle_ms :: int

datatype notification_run = Idle | Sent task_notification | Failed task_notification string

definition bounded :: "int \<Rightarrow> int \<Rightarrow> int \<Rightarrow> string \<Rightarrow> client_error + int" where
  "bounded v lo hi nm = (if v < lo \<or> v > hi then Inl (Range_error (nm @ '' must be '' @ int_text lo @ ''..'' @ int_text hi)) else Inr v)"

definition new_notification_worker ::
  "string \<Rightarrow> int option \<Rightarrow> int option \<Rightarrow> int option \<Rightarrow> client_error + notification_worker" where
  "new_notification_worker owner leaseMs retryAfterMs idleMs = (
    if blank_text owner then Inl (Type_error ''Task notification worker owner is required'')
    else case bounded (coalesce leaseMs 60000) 1000 3600000 ''leaseMs'' of Inl e \<Rightarrow> Inl e | Inr l \<Rightarrow>
      (case bounded (coalesce retryAfterMs 30000) 1000 86400000 ''retryAfterMs'' of Inl e \<Rightarrow> Inl e | Inr r \<Rightarrow>
      (case bounded (coalesce idleMs 1000) 25 60000 ''idleMs'' of Inl e \<Rightarrow> Inl e | Inr i \<Rightarrow>
        Inr \<lparr>nw_owner = owner, nw_lease_ms = l, nw_retry_after_ms = r, nw_idle_ms = i\<rparr>)))"

definition delivery_message :: "client_error \<Rightarrow> string" where
  "delivery_message e = (if \<not> blank_text (error_message e) then left_text 1000 (error_message e) else ''notification delivery failed'')"

definition runOnce :: "session \<Rightarrow> (task_notification \<Rightarrow> unit io) \<Rightarrow> notification_worker \<Rightarrow> notification_run io" where
  "runOnce s deliver wk =
    await (client_claimTaskNotification s (nw_owner wk) (nw_lease_ms wk)) (\<lambda>claimed. case claimed of
        None \<Rightarrow> return Idle
      | Some n \<Rightarrow> try_catch
          (await (deliver n) (\<lambda>_.
           await (client_completeTaskNotification s (tn_id n) (nw_owner wk)) (\<lambda>sent. return (Sent sent))))
          (\<lambda>e. await (client_failTaskNotification s (tn_id n) (nw_owner wk) (delivery_message e) (nw_retry_after_ms wk))
            (\<lambda>failed. return (Failed failed (delivery_message e)))))"

text \<open>
  \<open>run\<close>: \<open>fuel\<close> bounds the rounds, \<open>aborted k\<close> says whether the signal is set when round \<open>k\<close> would begin. The pause
  after an idle round is left out: the clock moves only where the plan of the world moves it, so in a world without a
  plan all rounds run at one time. The results of the rounds are kept.
\<close>

primrec run_worker ::
  "session \<Rightarrow> (task_notification \<Rightarrow> unit io) \<Rightarrow> notification_worker \<Rightarrow> (nat \<Rightarrow> bool) \<Rightarrow> nat \<Rightarrow> nat \<Rightarrow> notification_run list io" where
  "run_worker s deliver wk aborted 0 k = return []"
| "run_worker s deliver wk aborted (Suc fuel) k = (if aborted k then return []
    else await (runOnce s deliver wk) (\<lambda>r. await (run_worker s deliver wk aborted fuel (Suc k)) (\<lambda>rs. return (r # rs))))"

section \<open>Delivery adapters\<close>

record webhook_message =
  wm_id :: string
  wm_type :: string
  wm_rule_id :: js_value
  wm_subject_type :: js_value
  wm_subject_id :: js_value
  wm_invariant_version :: js_value
  wm_status :: js_value
  wm_severity :: string
  wm_escalation :: bool
  wm_link :: "string option"
  wm_occurrence_count :: js_value
  wm_evidence :: js_value
  wm_observed_at :: js_value

definition webhook_message_of :: "(task_notification \<Rightarrow> string) \<Rightarrow> task_notification \<Rightarrow> webhook_message" where
  "webhook_message_of severity n = (let f = tn_finding n; evidence = property_value ''latestEvidence'' f in
    \<lparr>wm_id = tn_id n, wm_type = ''rhinoq.task.verification'', wm_rule_id = property_value ''ruleId'' f,
      wm_subject_type = property_value ''subjectType'' f, wm_subject_id = property_value ''subjectId'' f,
      wm_invariant_version = property_value ''invariantVersion'' f, wm_status = property_value ''status'' f,
      wm_severity = severity n, wm_escalation = False, wm_link = truthy (tn_deep_link n),
      wm_occurrence_count = property_value ''occurrenceCount'' f,
      wm_evidence = (if truthy_value evidence then evidence else Undefined), wm_observed_at = property_value ''updatedAt'' f\<rparr>)"

definition createTaskWebhookDelivery ::
  "(webhook_message \<Rightarrow> unit io) \<Rightarrow> (task_notification \<Rightarrow> string) \<Rightarrow> task_notification \<Rightarrow> unit io" where
  "createTaskWebhookDelivery sendNotification severity n = sendNotification (webhook_message_of severity n)"

record email_message =
  em_to :: "string list"
  em_subject :: string
  em_text :: string
  em_html :: "string option"
  em_idempotency_key :: string

definition createTaskEmailDelivery ::
  "(task_notification \<Rightarrow> string list io) \<Rightarrow> (task_notification \<Rightarrow> (string \<times> string \<times> string option) io) \<Rightarrow>
    (email_message \<Rightarrow> unit io) \<Rightarrow> task_notification \<Rightarrow> unit io" where
  "createTaskEmailDelivery recipients render send n =
    await (recipients n) (\<lambda>addresses. let to = filter (\<lambda>x. x \<noteq> '''') (map js_trim addresses) in
    guarded (to = []) (Js_error ''Task email delivery resolved no recipients'')
    (await (render n) (\<lambda>(subject, txt, html).
    guarded (blank_text subject \<or> blank_text txt) (Js_error ''Task email delivery requires subject and text'')
    (send \<lparr>em_to = to, em_subject = subject, em_text = txt, em_html = html, em_idempotency_key = tn_id n\<rparr>))))"

section \<open>Every method is a run\<close>

lemma serve_outbox_calls:
  "serve (s, now, Outbox_call (Queue_notification a b c e f g h n l)) = committed (queueTaskNotification s now a b c e f g h n l)"
  "serve (s, now, Outbox_call (Claim_notification a n)) = committed (claimTaskNotification s now a n)"
  "serve (s, now, Outbox_call (Complete_notification a b)) = committed (completeTaskNotification s now a b)"
  "serve (s, now, Outbox_call (Fail_notification a b c n)) = committed (failTaskNotification s now a b c n)"
  by (simp_all add: serve_def fun_eq_iff)

lemmas runs_outbox_statements [client_runs] = serve_outbox_calls [THEN sym, THEN fun_cong, THEN runs_call]

lemma runs_outbox_methods [client_runs]:
  "runs (client_queueTaskNotification s a q)" "runs (client_claimTaskNotification s a n)"
  "runs (client_completeTaskNotification s a b)" "runs (client_failTaskNotification s a b c n)"
  unfolding client_queueTaskNotification_def client_claimTaskNotification_def client_completeTaskNotification_def
    client_failTaskNotification_def Let_def
  by (intro client_runs)+

lemma runs_runOnce [client_runs]: "(\<And>n. runs (deliver n)) \<Longrightarrow> runs (runOnce s deliver wk)"
  unfolding runOnce_def by (intro client_runs)

lemma runs_run_worker [client_runs]: "(\<And>n. runs (deliver n)) \<Longrightarrow> runs (run_worker s deliver wk aborted fuel k)"
  by (induction fuel arbitrary: k) (auto intro!: client_runs)

end
