(* ===== verification/Notification_Properties.thy ===== *)
theory Notification_Properties
  imports Notification_Worker
begin

text \<open>
  Running the verification chain again.
\<close>

section \<open>Running the chain again\<close>

definition sendable :: "task_verification \<Rightarrow> js_value \<Rightarrow> bool" where
  "sendable v finding \<longleftrightarrow> rule_id finding \<noteq> '''' \<and>
    byteLength (print_value (Obj [(''verification'', verification_object v), (''finding'', finding)])) \<le> 131072"

lemma sendable_object: "sendable v f \<Longrightarrow> json_object (print_value f)"
  by (cases f) (auto simp: sendable_def rule_id_def property_value_def own_property_def json_object_def)

lemma verification_text: "json_object (print_value (verification_object v))"
  by (simp add: verification_object_def json_object_def)

lemma queueTaskNotification_left:
  assumes "queueTaskNotification s now taskId nid vid vtask rule vtext ftext bytes link d = Inr (row, d')"
  shows "select_one s outbox_table (\<lambda>n. n_id n = nid) (outbox d') = Some row" and "n_task_id row = taskId"
    and "n_verification_id row = vid" and "verifications d' = verifications d" and "btrim nid \<noteq> ''''" and "\<exists>tenant. default_tenant s = Inr tenant"
  using assms
  by (auto simp: queueTaskNotification_def Let_def outbox_check_def new_notification_def split: if_splits sum.splits option.splits)

text \<open>Whether a notification could be queued does not depend on the Finding once the Finding can be sent.\<close>

lemma client_queue_left:
  assumes plan: "at_plan w = []" and c: "client_queueTaskNotification s taskId q w = (Inr n, w')"
  obtains row d where "w' = w\<lparr>at_db := d\<rparr>" and "select_one s outbox_table (\<lambda>n. n_id n = nr_notification_id q) (outbox d) = Some row"
    and "n_task_id row = taskId" and "n_verification_id row = tv_id (nr_verification q)" and "verifications d = verifications (at_db w)"
    and "\<not> blank_text taskId" "\<not> blank_text (nr_notification_id q)" "tv_id (nr_verification q) \<noteq> ''''" "tv_task_id (nr_verification q) = taskId"
    and "btrim (nr_notification_id q) \<noteq> ''''" "\<exists>tenant. default_tenant s = Inr tenant"
proof -
  let ?f = "nr_finding q" and ?v = "nr_verification q"
  let ?size = "byteLength (print_value (Obj [(''verification'', verification_object ?v), (''finding'', ?f)]))"
  let ?c = "\<lambda>now. queueTaskNotification s now taskId (nr_notification_id q) (tv_id ?v) (tv_task_id ?v)
    (rule_id ?f) (print_value (verification_object ?v)) (print_value ?f) ?size (nr_deep_link q)"
  have g: "\<not> blank_text taskId" "\<not> blank_text (nr_notification_id q)" "tv_id ?v \<noteq> []" "tv_task_id ?v = taskId"
      "await (execute ?c) (\<lambda>row. return (mapNotification row)) w = (Inr n, w')"
    using c by (auto simp only: client_queueTaskNotification_def guarded_def throw_def Let_def prod.inject sum.distinct split: if_splits)
  then obtain row d where r: "?c (at_now w) (at_db w) = Inr (row, d)" and w': "w' = w\<lparr>at_db := d\<rparr>"
    by (auto simp only: await_def execute_def plan return_def quiet_turn Let_def split: sum.splits prod.splits)
  note R = queueTaskNotification_left [OF r]
  show thesis by (rule that [OF w' R(1-4) g(1-4) R(5,6)])
qed

lemma client_queue_again:
  assumes plan: "at_plan w = []" and row: "select_one s outbox_table (\<lambda>n. n_id n = nr_notification_id q) (outbox (at_db w)) = Some row"
      "n_task_id row = taskId" "n_verification_id row = tv_id (nr_verification q)"
    and g: "\<not> blank_text taskId" "\<not> blank_text (nr_notification_id q)" "tv_id (nr_verification q) \<noteq> ''''" "tv_task_id (nr_verification q) = taskId"
    and id: "btrim (nr_notification_id q) \<noteq> ''''" and t: "default_tenant s = Inr tenant" and f: "sendable (nr_verification q) (nr_finding q)"
  shows "client_queueTaskNotification s taskId q w = (Inr (mapNotification row), w)"
proof -
  let ?f = "nr_finding q" and ?v = "nr_verification q"
  let ?size = "byteLength (print_value (Obj [(''verification'', verification_object ?v), (''finding'', ?f)]))"
  let ?c = "\<lambda>now. queueTaskNotification s now taskId (nr_notification_id q) (tv_id ?v) (tv_task_id ?v)
    (rule_id ?f) (print_value (verification_object ?v)) (print_value ?f) ?size (nr_deep_link q)"
  have "btrim tenant \<noteq> ''''" using default_tenant_InrD [OF t] current_tenant_nonblank by blast
  then have "outbox_check (new_notification now (nr_notification_id q) taskId tenant (tv_id ?v) (print_value (verification_object ?v))
      (print_value ?f) (nr_deep_link q))" for now
    using id sendable_object [OF f] by (simp add: outbox_check_def new_notification_def verification_text len_def)
  moreover have "list_ex (\<lambda>n. n_id n = nr_notification_id q) (outbox (at_db w))"
    using select_one_SomeD [OF row(1)] by (auto simp: list_ex_iff)
  ultimately have "?c (at_now w) (at_db w) = Inr (row, at_db w)"
    using row g t f by (simp add: queueTaskNotification_def Let_def sendable_def)
  then have "execute ?c w = (Inr row, w)" using quiet_execute(1) [OF plan, of ?c] by simp
  then show ?thesis using g f by (simp add: client_queueTaskNotification_def Let_def guarded_def sendable_def await_def return_def)
qed

lemma find_last_only: "(\<And>x. x \<in> set xs \<Longrightarrow> \<not> P x) \<Longrightarrow> P y \<Longrightarrow> find P (xs @ [y]) = Some y"
  by (induction xs) auto

lemma client_queue_fresh:
  assumes plan: "at_plan w = []" and fresh: "list_all (\<lambda>n. n_id n \<noteq> nr_notification_id q \<and> n_verification_id n \<noteq> tv_id (nr_verification q)) (outbox (at_db w))"
    and g: "\<not> blank_text taskId" "\<not> blank_text (nr_notification_id q)" "tv_id (nr_verification q) \<noteq> ''''" "tv_task_id (nr_verification q) = taskId"
    and id: "btrim (nr_notification_id q) \<noteq> ''''" and t: "default_tenant s = Inr tenant" and f: "sendable (nr_verification q) (nr_finding q)"
    and key: "task_key_exists taskId tenant (at_db w)" "list_ex (\<lambda>v. v_id v = tv_id (nr_verification q) \<and> v_tenant_id v = tenant) (verifications (at_db w))"
  shows "\<exists>n w'. client_queueTaskNotification s taskId q w = (Inr n, w')"
proof -
  let ?f = "nr_finding q" and ?v = "nr_verification q"
  let ?size = "byteLength (print_value (Obj [(''verification'', verification_object ?v), (''finding'', ?f)]))"
  let ?c = "\<lambda>now. queueTaskNotification s now taskId (nr_notification_id q) (tv_id ?v) (tv_task_id ?v)
    (rule_id ?f) (print_value (verification_object ?v)) (print_value ?f) ?size (nr_deep_link q)"
  let ?n = "new_notification (at_now w) (nr_notification_id q) taskId tenant (tv_id ?v) (print_value (verification_object ?v))
      (print_value ?f) (nr_deep_link q)"
  have ten: "btrim tenant \<noteq> ''''" "visible s tenant" using default_tenant_InrD [OF t] current_tenant_nonblank by blast+
  then have chk: "outbox_check ?n"
    using id sendable_object [OF f] by (simp add: outbox_check_def new_notification_def verification_text len_def)
  have n: "n_id ?n = nr_notification_id q" "n_tenant_id ?n = tenant" "n_verification_id ?n = tv_id ?v" "n_task_id ?n = taskId"
    by (simp_all add: new_notification_def)
  have ins: "insert_row s outbox_table ?n (outbox (at_db w)) = Inr (outbox (at_db w) @ [?n])"
    using chk ten(2) fresh n by (auto simp: insert_row_def outbox_table_def list_all_iff)
  have no: "\<not> list_ex (\<lambda>n. n_id n = nr_notification_id q) (outbox (at_db w))"
    using fresh by (auto simp: list_all_iff list_ex_iff)
  have "find (\<lambda>r. visible s (n_tenant_id r) \<and> n_id r = nr_notification_id q) (outbox (at_db w) @ [?n]) = Some ?n"
    using fresh n ten(2) by (intro find_last_only) (auto simp: list_all_iff)
  then have sel: "select_one s outbox_table (\<lambda>n. n_id n = nr_notification_id q) (outbox (at_db w) @ [?n]) = Some ?n"
    by (simp add: select_one_def outbox_table_def)
  have "?c (at_now w) (at_db w) = Inr (?n, (at_db w)\<lparr>outbox := outbox (at_db w) @ [?n]\<rparr>)"
    using chk ins no sel n key g t f by (simp add: queueTaskNotification_def Let_def sendable_def)
  then have "execute ?c w = (Inr ?n, w\<lparr>at_db := (at_db w)\<lparr>outbox := outbox (at_db w) @ [?n]\<rparr>\<rparr>)"
    using quiet_execute(1) [OF plan, of ?c] by blast
  then show ?thesis using g f by (simp add: client_queueTaskNotification_def Let_def guarded_def sendable_def await_def return_def)
qed

text \<open>
  C34: Running the verification chain again. While no other client acts, a chain for a mismatch that carries its time
  and went through can be run again: it returns the record of the first time, whatever the Finding service now
  answers, and leaves the database as it is, with the one notification of the verification in the outbox.
\<close>

theorem chain_run_again:
  assumes plan: "at_plan w = []" and mismatch: "vr_status (co_verification opts) = ''mismatch''"
    and time: "vr_verified_at (co_verification opts) \<noteq> None" and key: "chain_key opts = Some k"
    and first: "recordTaskVerificationChain url clock s (Some (\<lambda>x. return (reply x))) None True opts w = (Inr (v, f), w')"
    and later: "w'' = w'\<lparr>at_now := now\<rparr>" and fits: "sendable v (reply' (chain_observation opts k v))"
  shows "recordTaskVerificationChain url clock' s (Some (\<lambda>x. return (reply' x))) None True opts w'' =
      (Inr (v, Some (reply' (chain_observation opts k v))), w'') \<and>
    (\<exists>n. select_one s outbox_table (\<lambda>n. n_id n = ''task-verification:'' @ tv_id v) (outbox (at_db w'')) = Some n \<and>
      n_verification_id n = tv_id v)"
proof -
  let ?q = "\<lambda>link r. chain_notification link v (r (chain_observation opts k v))"
  obtain link w1 n where link: "chain_link url opts = Inr link"
    and rec: "recordTaskVerification clock s (co_task_id opts) (chain_request link opts) w = (Inr v, w1)"
    and que: "client_queueTaskNotification s (co_task_id opts) (?q link reply) w1 = (Inr n, w')"
    using first mismatch key
    by (auto simp: recordTaskVerificationChain_def Let_def guarded_def await_def of_sum_def return_def throw_def split: sum.splits prod.splits)
  from plan rec show ?thesis
  proof (rule recordTaskVerification_left)
    fix u d tenant
    assume L: "w1 = w\<lparr>at_db := d\<rparr>" "v = mapVerification u"
      "select_one s verification_table (\<lambda>x. v_id x = vr_id (chain_request link opts)) (verifications d) = Some u"
      "records (co_task_id opts) (chain_request link opts) (verified_time clock (chain_request link opts)) u" "default_tenant s = Inr tenant"
      "verification_check (requested_row s (at_now w) (co_task_id opts) tenant (chain_request link opts) (verified_time clock (chain_request link opts)))"
      "\<And>m :: task_verification io. validateVerification (chain_request link opts) m = m"
      "vr_verified_at (chain_request link opts) \<noteq> Some None" "vr_id (chain_request link opts) \<noteq> []"
    have p1: "at_plan w1 = []" using L(1) plan by simp
    from p1 que show ?thesis
    proof (rule client_queue_left)
      fix row d'
      assume Q: "w' = w1\<lparr>at_db := d'\<rparr>" "select_one s outbox_table (\<lambda>n. n_id n = nr_notification_id (?q link reply)) (outbox d') = Some row"
        "n_task_id row = co_task_id opts" "n_verification_id row = tv_id (nr_verification (?q link reply))"
        "verifications d' = verifications (at_db w1)" "\<not> blank_text (co_task_id opts)" "\<not> blank_text (nr_notification_id (?q link reply))"
        "tv_id (nr_verification (?q link reply)) \<noteq> ''''" "tv_task_id (nr_verification (?q link reply)) = co_task_id opts"
        "btrim (nr_notification_id (?q link reply)) \<noteq> ''''"
      have w'': "at_plan w'' = []" "at_db w'' = d'" using later Q(1) p1 by simp_all
      have "verified_time clock' (chain_request link opts) = verified_time clock (chain_request link opts)"
        using time L(8) by (auto simp: verified_time_def chain_request_def)
      then have "recordTaskVerification clock' s (co_task_id opts) (chain_request link opts) w'' = (Inr v, w'')"
        using recordTaskVerification_repeated [of w'' s "chain_request link opts" u "co_task_id opts", OF w''(1) _ L(4-7,9), of clock']
          L(1-3) Q(5) w''(2) by simp
      moreover have "client_queueTaskNotification s (co_task_id opts) (?q link reply') w'' = (Inr (mapNotification row), w'')"
        by (rule client_queue_again [where tenant = tenant, OF w''(1)]) (use Q L(5) w''(2) fits in \<open>simp_all add: chain_notification_def\<close>)
      ultimately show ?thesis
        using link mismatch key Q(2,4) w''(2)
        by (auto simp: recordTaskVerificationChain_def Let_def guarded_def await_def of_sum_def return_def chain_notification_def)
    qed
  qed
qed

definition sample_chain :: chain_options where
  "sample_chain = \<lparr>co_task_id = ''t1'', co_verification = (sample_verification (Some (Some 490)))\<lparr>vr_finding := None\<rparr>,
    co_finding_base_url = None\<rparr>"

definition sample_key :: verification_finding where
  "sample_key = \<lparr>vf_rule_id = ''task.ledger'', vf_subject_type = ''task'', vf_subject_id = ''t1'', vf_invariant_version = 1, vf_deep_link = None\<rparr>"

definition sample_record :: task_verification where
  "sample_record = \<lparr>tv_id = ''v1'', tv_task_id = ''t1'', tv_verifier = ''ledger'', tv_status = ''mismatch'',
    tv_summary = Some ''off by one'', tv_evidence = Undefined, tv_finding = Some sample_key, tv_verified_at = 490, tv_created_at = 500\<rparr>"

definition counted_finding :: "int \<Rightarrow> js_value" where
  "counted_finding n = Obj [(''ruleId'', Str ''task.ledger''), (''occurrenceCount'', Num n)]"

definition run_chain :: "int \<Rightarrow> int \<Rightarrow> world \<Rightarrow> (client_error + task_verification \<times> js_value option) \<times> world" where
  "run_chain clock n = recordTaskVerificationChain (\<lambda>base ps. None) clock acme (Some (\<lambda>x. return (counted_finding n))) None True sample_chain"

definition chain_start :: world where
  "chain_start = \<lparr>at_db = sample_db, at_now = 500, at_plan = []\<rparr>"

lemma sample_request: "chain_link url sample_chain = Inr None" "chain_request None sample_chain = sample_verification (Some (Some 490))"
    "chain_key sample_chain = Some sample_key" "co_task_id sample_chain = ''t1''" "vr_status (co_verification sample_chain) = ''mismatch''"
  by (simp_all add: chain_link_def chain_key_def chain_request_def sample_chain_def sample_verification_def sample_key_def findingLink_def
      linked_def truthy_def Let_def js_trim_def)

lemma chain_recorded:
  "case recordTaskVerification 499 acme ''t1'' (sample_verification (Some (Some 490))) chain_start of (r, w) \<Rightarrow>
    r = Inr sample_record \<and> outbox (at_db w) = [] \<and> task_key_exists ''t1'' ''acme'' (at_db w) \<and>
    list_ex (\<lambda>v. v_id v = ''v1'' \<and> v_tenant_id v = ''acme'') (verifications (at_db w))"
  by code_simp

lemma sample_sendable: "n = 1 \<or> n = 2 \<Longrightarrow> sendable sample_record (counted_finding n)"
proof -
  have "toISOString 490 = ''1970-01-01T00:00:00.490Z''" "toISOString 500 = ''1970-01-01T00:00:00.500Z''" by code_simp+
  then show "n = 1 \<or> n = 2 \<Longrightarrow> sendable sample_record (counted_finding n)"
    by (auto simp: sendable_def rule_id_def property_value_def own_property_def counted_finding_def sample_record_def sample_key_def
        verification_object_def optional_text_def quoted_def escape_char_def byteLength_def len_def Let_def
        int_text_def nat_text.simps [of "Suc 0"] nat_text.simps [of 2])
qed

lemma chain_first: "\<exists>f. run_chain 499 1 chain_start = (Inr (sample_record, f), snd (run_chain 499 1 chain_start))"
proof -
  let ?r = "recordTaskVerification 499 acme ''t1'' (sample_verification (Some (Some 490))) chain_start"
  let ?q = "chain_notification None sample_record (counted_finding 1)"
  obtain w where w: "?r = (Inr sample_record, w)"
    and d: "outbox (at_db w) = []" "task_key_exists ''t1'' ''acme'' (at_db w)" "list_ex (\<lambda>v. v_id v = ''v1'' \<and> v_tenant_id v = ''acme'') (verifications (at_db w))"
    using chain_recorded by (cases ?r) auto
  have plan: "at_plan w = []" by (rule recordTaskVerification_left [OF _ w]) (simp_all add: chain_start_def)
  have s: "default_tenant acme = Inr ''acme''" "\<not> blank_text ''t1''" "\<not> blank_text ''task-verification:v1''" "btrim ''task-verification:v1'' \<noteq> ''''"
    by code_simp+
  have q: "nr_notification_id ?q = ''task-verification:v1''" "tv_id sample_record = ''v1''" "tv_task_id sample_record = ''t1''"
    "nr_verification ?q = sample_record" "nr_finding ?q = counted_finding 1"
    by (simp_all add: chain_notification_def sample_record_def)
  have "\<exists>n w'. client_queueTaskNotification acme ''t1'' ?q w = (Inr n, w')"
    by (rule client_queue_fresh [OF plan, where tenant = "''acme''"]) (simp_all only: q s d sample_sendable [of 1, simplified], simp_all)
  then show ?thesis
    using w sample_request
    by (auto simp: run_chain_def recordTaskVerificationChain_def Let_def guarded_def await_def of_sum_def return_def)
qed

theorem chain_run_again_witness:
  "run_chain 520 2 (snd (run_chain 499 1 chain_start)\<lparr>at_now := 521\<rparr>) =
      (Inr (sample_record, Some (counted_finding 2)), snd (run_chain 499 1 chain_start)\<lparr>at_now := 521\<rparr>) \<and>
    (\<exists>n. select_one acme outbox_table (\<lambda>n. n_id n = ''task-verification:v1'')
        (outbox (at_db (snd (run_chain 499 1 chain_start)))) = Some n \<and> n_verification_id n = ''v1'')"
proof -
  obtain f where f: "run_chain 499 1 chain_start = (Inr (sample_record, f), snd (run_chain 499 1 chain_start))" using chain_first by blast
  have "at_plan chain_start = []" "vr_status (co_verification sample_chain) = ''mismatch''" "vr_verified_at (co_verification sample_chain) \<noteq> None"
    by (simp_all add: chain_start_def sample_chain_def sample_verification_def)
  from chain_run_again [OF this sample_request(3) f [unfolded run_chain_def] refl, of "\<lambda>x. counted_finding 2" 520 521] sample_sendable [of 2]
  show ?thesis unfolding run_chain_def by (simp add: sample_record_def)
qed

end
