(* ===== verification/Outbox_Drain.thy ===== *)
theory Outbox_Drain
  imports Notification_Worker
begin

text \<open>
  What the notification worker does with the notifications that are due, while no other client acts.
\<close>

section \<open>One row of the outbox\<close>

lemma outbox_update_row:
  assumes ok: "table_ok outbox_table rows" and n: "n \<in> set rows" "visible s (n_tenant_id n)"
    and p: "\<And>m. m \<in> set rows \<Longrightarrow> (visible s (n_tenant_id m) \<and> p m) = (n_id m = n_id n)"
    and keep: "\<And>m. n_id (f m) = n_id m \<and> n_verification_id (f m) = n_verification_id m" and chk: "outbox_check (f n)"
  shows "update_rows s outbox_table p f rows = Inr (upd_where (\<lambda>m. n_id m = n_id n) f rows)"
    and "table_ok outbox_table (upd_where (\<lambda>m. n_id m = n_id n) f rows)"
proof -
  let ?u = "upd_where (\<lambda>m. n_id m = n_id n) f rows"
  have same: "m = n" if "m \<in> set rows" "n_id m = n_id n" for m
    using outbox_key.key_inj [OF ok that(1) n(1) that(2)] .
  have u: "upd_where (\<lambda>m. visible s (n_tenant_id m) \<and> p m) f rows = ?u"
    by (rule upd_where_cong) (simp_all add: p)
  have uniq: "unique_by (tb_conflict outbox_table) ?u"
  proof (rule unique_by_upd_where)
    show "unique_by (tb_conflict outbox_table) rows" using ok by (simp add: table_ok_def)
  qed (auto simp: outbox_table_def keep split: if_splits)
  have checks: "list_all (\<lambda>m. visible s (n_tenant_id m) \<and> p m \<longrightarrow> outbox_check (f m)) rows"
    using p same chk by (auto simp: list_all_iff)
  have tb: "tb_tenant outbox_table = n_tenant_id" "tb_check outbox_table = outbox_check" by (simp_all add: outbox_table_def)
  show "update_rows s outbox_table p f rows = Inr ?u"
    using checks u uniq by (simp add: update_rows_def Let_def tb list_all_iff)
  have "list_all outbox_check rows" using ok by (simp add: table_ok_def tb)
  then have "list_all outbox_check ?u"
    using chk same by (auto simp: list_all_iff set_upd_where)
  then show "table_ok outbox_table ?u" using uniq by (simp add: table_ok_def tb)
qed

lemma find_row_of_key:
  assumes "distinct (map k rows)" and "n \<in> set rows" and "P (f n)" and "\<And>m. P m \<Longrightarrow> k m = k n" and "\<And>m. k (f m) = k m"
  shows "find P (upd_where (\<lambda>m. k m = k n) f rows) = Some (f n)"
  using assms(1,2)
proof (induction rows)
  case (Cons r rows)
  show ?case
  proof (cases "k r = k n")
    case True
    then have "r = n" using Cons.prems by (auto dest: distinct_map_eqD)
    then show ?thesis using assms(3) by (simp add: upd_where_def)
  next
    case False
    then have "\<not> P r" "n \<in> set rows" using assms(4) Cons.prems(2) by auto
    then show ?thesis using Cons False by (simp add: upd_where_def)
  qed
qed simp

section \<open>One round\<close>

definition due_notifications :: "session \<Rightarrow> int \<Rightarrow> outbox_row list \<Rightarrow> outbox_row list" where
  "due_notifications s now rows = sort_key (\<lambda>n. (n_created_at n, n_id n)) (select_rows s outbox_table (notification_ready now) rows)"

text \<open>
  What becomes of a row, and what the round returns, when the transport answers \<open>verdict\<close>.
\<close>

definition handled :: "(task_notification \<Rightarrow> client_error + unit) \<Rightarrow> notification_worker \<Rightarrow> int \<Rightarrow> outbox_row \<Rightarrow> outbox_row" where
  "handled verdict wk now n = (let m = notification_leased now (nw_owner wk) (nw_lease_ms wk) n in
    case verdict (mapNotification m) of
      Inr _ \<Rightarrow> m\<lparr>n_state := N_sent, n_lease_owner := None, n_lease_until := None, n_updated_at := now\<rparr>
    | Inl e \<Rightarrow> m\<lparr>n_state := N_failed, n_lease_owner := None, n_lease_until := None,
        n_available_at := now + nw_retry_after_ms wk, n_last_error := Some (delivery_message e), n_updated_at := now\<rparr>)"

definition round_result :: "(task_notification \<Rightarrow> client_error + unit) \<Rightarrow> notification_worker \<Rightarrow> int \<Rightarrow> outbox_row \<Rightarrow> notification_run" where
  "round_result verdict wk now n = (case verdict (mapNotification (notification_leased now (nw_owner wk) (nw_lease_ms wk) n)) of
      Inr _ \<Rightarrow> Sent (mapNotification (handled verdict wk now n))
    | Inl e \<Rightarrow> Failed (mapNotification (handled verdict wk now n)) (delivery_message e))"

definition valid_worker :: "notification_worker \<Rightarrow> bool" where
  "valid_worker wk \<longleftrightarrow> new_notification_worker (nw_owner wk) (Some (nw_lease_ms wk)) (Some (nw_retry_after_ms wk)) (Some (nw_idle_ms wk)) = Inr wk"

lemma valid_workerD:
  assumes "valid_worker wk"
  shows "\<not> blank_text (nw_owner wk)" and "1000 \<le> nw_lease_ms wk" and "nw_lease_ms wk \<le> 3600000"
    and "1000 \<le> nw_retry_after_ms wk" and "nw_retry_after_ms wk \<le> 86400000"
  using assms by (auto simp: valid_worker_def new_notification_worker_def bounded_def split: if_splits)

lemma handled_same [simp]:
  "n_id (handled verdict wk now n) = n_id n" "n_verification_id (handled verdict wk now n) = n_verification_id n"
  "n_tenant_id (handled verdict wk now n) = n_tenant_id n"
  by (auto simp: handled_def notification_leased_def Let_def split: sum.split)

lemma handled_not_ready: "valid_worker wk \<Longrightarrow> \<not> notification_ready now (handled verdict wk now n)"
  using valid_workerD(4) [of wk] by (auto simp: handled_def notification_ready_def Let_def split: sum.split)

lemma delivery_message_kept: "left_text 2048 (delivery_message e) = delivery_message e" "len (delivery_message e) \<le> 2048"
  by (simp_all add: delivery_message_def left_text_take len_def min_def)

lemma ready_check: "outbox_check n \<Longrightarrow> outbox_check (handled verdict wk now n)"
  "outbox_check n \<Longrightarrow> outbox_check (notification_leased now owner leaseMs n)"
  using delivery_message_kept(2) by (auto simp: handled_def notification_leased_def outbox_check_def Let_def split: sum.split)

text \<open>A round takes the first notification that is due, and only its row changes.\<close>

lemma runOnce_due:
  assumes plan: "at_plan w = []" and ok: "table_ok outbox_table (outbox (at_db w))" and wk: "valid_worker wk"
    and due: "due_notifications s (at_now w) (outbox (at_db w)) = n # ns"
    and say: "\<And>m e. verdict m = Inl e \<Longrightarrow> \<not> blank_text (delivery_message e)"
  shows "runOnce s (\<lambda>m. of_sum (verdict m)) wk w = (Inr (round_result verdict wk (at_now w) n),
    w\<lparr>at_db := (at_db w)\<lparr>outbox := upd_where (\<lambda>m. n_id m = n_id n) (handled verdict wk (at_now w)) (outbox (at_db w))\<rparr>\<rparr>)"
proof -
  let ?d = "at_db w" and ?now = "at_now w" and ?o = "nw_owner wk" and ?key = "\<lambda>m. n_id m = n_id n"
  let ?l = "notification_leased ?now ?o (nw_lease_ms wk)"
  let ?rows = "upd_where ?key ?l (outbox ?d)" and ?final = "upd_where ?key (handled verdict wk ?now) (outbox ?d)"
  let ?d1 = "?d\<lparr>outbox := ?rows\<rparr>" and ?w1 = "w\<lparr>at_db := ?d\<lparr>outbox := ?rows\<rparr>\<rparr>"
  have "n \<in> set (select_rows s outbox_table (notification_ready ?now) (outbox ?d))"
    using due unfolding due_notifications_def by (metis list.set_intros(1) set_sort)
  then have n: "n \<in> set (outbox ?d)" "visible s (n_tenant_id n)" by (simp_all add: outbox_table_def)
  have chk: "outbox_check n" using ok n(1) by (auto simp: table_ok_def outbox_table_def list_all_iff)
  have same: "m = n" if "m \<in> set (outbox ?d)" "n_id m = n_id n" for m using outbox_key.key_inj [OF ok that(1) n(1) that(2)] .
  have l: "n_id (?l m) = n_id m \<and> n_verification_id (?l m) = n_verification_id m" "n_tenant_id (?l m) = n_tenant_id m" for m
    by (simp_all add: notification_leased_def)
  have up: "update_rows s outbox_table ?key ?l (outbox ?d) = Inr ?rows" and ok1: "table_ok outbox_table ?rows"
    using outbox_update_row [OF ok n, of ?key ?l] same n(2) l ready_check(2) [OF chk] by auto
  have "claimTaskNotification s ?now ?o (nw_lease_ms wk) ?d = Inr (Some (?l n), ?d1)"
    using valid_workerD [OF wk] due up by (simp add: claimTaskNotification_def notification_candidate_def due_notifications_def)
  then have claim: "client_claimTaskNotification s ?o (nw_lease_ms wk) w = (Inr (Some (mapNotification (?l n))), ?w1)"
    using valid_workerD [OF wk] plan by (simp add: client_claimTaskNotification_def guarded_def await_def return_def execute_def)
  have l1: "?l n \<in> set ?rows" "visible s (n_tenant_id (?l n))" using n l(2) by (auto simp: set_upd_where)
  have held: "notification_held (n_id n) ?o m \<longleftrightarrow> n_id m = n_id n" if "m \<in> set ?rows" for m
    using that same by (auto simp: set_upd_where notification_held_def notification_leased_def)
  have vis: "visible s (n_tenant_id m)" if m: "m \<in> set ?rows" "n_id m = n_id n" for m
  proof -
    obtain x where "x \<in> set (outbox ?d)" "m = (if ?key x then ?l x else x)" using m(1) by (rule in_upd_whereE)
    moreover from this have "x = n" using m(2) same l(1) by (auto split: if_splits)
    ultimately show ?thesis using l1(2) by simp
  qed
  have "find (\<lambda>r. visible s (n_tenant_id r) \<and> notification_held (n_id n) ?o r) ?rows = Some (?l n)"
  proof (rule find_row_of_key [OF outbox_key.distinct_keys [OF ok] n(1)])
    show "visible s (n_tenant_id (?l n)) \<and> notification_held (n_id n) ?o (?l n)"
      using l1(2) by (simp add: notification_held_def notification_leased_def)
  qed (simp_all add: notification_held_def l)
  then have sel: "select_one s outbox_table (notification_held (n_id n) ?o) ?rows = Some (?l n)"
    by (simp only: select_one_def outbox_table_def table.select_convs)
  have step: "update_rows s outbox_table (notification_held (n_id n) ?o) f ?rows = Inr ?final"
    if f: "\<And>m. n_id (f m) = n_id m \<and> n_verification_id (f m) = n_verification_id m" "f (?l n) = handled verdict wk ?now n" for f
  proof -
    have "update_rows s outbox_table (notification_held (n_id n) ?o) f ?rows = Inr (upd_where (\<lambda>m. n_id m = n_id (?l n)) f ?rows)"
      using outbox_update_row(1) [OF ok1 l1, of "notification_held (n_id n) ?o" f] held vis f l ready_check(1) [OF chk] by auto
    moreover have "upd_where (\<lambda>m. n_id m = n_id (?l n)) f ?rows = ?final"
      using same f(2) l by (auto simp: upd_where_def)
    ultimately show ?thesis by simp
  qed
  show ?thesis
  proof (cases "verdict (mapNotification (?l n))")
    case (Inr u)
    let ?f = "\<lambda>n. n\<lparr>n_state := N_sent, n_lease_owner := None, n_lease_until := None, n_updated_at := ?now\<rparr>"
    have h: "?f (?l n) = handled verdict wk ?now n" using Inr by (simp add: handled_def Let_def)
    then have "completeTaskNotification s ?now (n_id n) ?o ?d1 = Inr (handled verdict wk ?now n, ?d\<lparr>outbox := ?final\<rparr>)"
      using sel step [of ?f] by (simp add: completeTaskNotification_def)
    then show ?thesis
      using claim plan Inr l
      by (simp add: runOnce_def await_def try_catch_def of_sum_def return_def client_completeTaskNotification_def execute_def
          round_result_def mapNotification_def)
  next
    case (Inl e)
    let ?f = "\<lambda>n. n\<lparr>n_state := N_failed, n_lease_owner := None, n_lease_until := None, n_available_at := ?now + nw_retry_after_ms wk,
      n_last_error := Some (delivery_message e), n_updated_at := ?now\<rparr>"
    have h: "?f (?l n) = handled verdict wk ?now n" using Inl by (simp add: handled_def Let_def)
    then have "failTaskNotification s ?now (n_id n) ?o (delivery_message e) (nw_retry_after_ms wk) ?d1 =
        Inr (handled verdict wk ?now n, ?d\<lparr>outbox := ?final\<rparr>)"
      using sel step [of ?f] say [OF Inl] valid_workerD [OF wk] by (simp add: failTaskNotification_def delivery_message_kept)
    then show ?thesis
      using claim plan Inl l say [OF Inl] valid_workerD [OF wk]
      by (simp add: runOnce_def await_def try_catch_def of_sum_def return_def throw_def client_failTaskNotification_def guarded_def execute_def
          round_result_def mapNotification_def)
  qed
qed

section \<open>All rounds\<close>

lemma due_after_round:
  assumes ok: "table_ok outbox_table rows" and due: "due_notifications s now rows = n # ns"
    and f: "\<And>m. n_id (f m) = n_id m" "\<And>m. \<not> notification_ready now (f m)"
  shows "due_notifications s now (upd_where (\<lambda>m. n_id m = n_id n) f rows) = ns"
proof -
  let ?k = "\<lambda>n. (n_created_at n, n_id n)" and ?due = "\<lambda>m. visible s (n_tenant_id m) \<and> notification_ready now m"
  have sel: "select_rows s outbox_table (notification_ready now) xs = filter ?due xs" for xs
    by (simp add: select_rows_def outbox_table_def)
  have "filter ?due (upd_where (\<lambda>m. n_id m = n_id n) f rows) = filter (\<lambda>m. n_id m \<noteq> n_id n) (filter ?due rows)"
    by (induction rows) (auto simp: upd_where_def f(2))
  then have "due_notifications s now (upd_where (\<lambda>m. n_id m = n_id n) f rows) =
      filter (\<lambda>m. n_id m \<noteq> n_id n) (due_notifications s now rows)"
    by (simp add: due_notifications_def sel filter_sort)
  then have "due_notifications s now (upd_where (\<lambda>m. n_id m = n_id n) f rows) = filter (\<lambda>m. n_id m \<noteq> n_id n) (n # ns)"
    by (simp only: due)
  moreover have "distinct (map n_id (sort_key ?k (filter ?due rows)))"
    using outbox_key.distinct_keys [OF ok] by (auto simp: distinct_map inj_on_def)
  then have "distinct (map n_id (n # ns))" using due by (simp add: due_notifications_def sel)
  then have "filter (\<lambda>m. n_id m \<noteq> n_id n) ns = ns" by (intro filter_True ballI) (rule distinct_map_ConsD)
  ultimately show ?thesis by simp
qed

lemma runOnce_idle:
  assumes "at_plan w = []" and "valid_worker wk" and "due_notifications s (at_now w) (outbox (at_db w)) = []"
  shows "runOnce s deliver wk w = (Inr Idle, w)"
  using assms valid_workerD [OF assms(2)]
  by (simp add: runOnce_def client_claimTaskNotification_def guarded_def await_def execute_def claimTaskNotification_def
      notification_candidate_def due_notifications_def return_def)

lemma worker_rounds:
  assumes "at_plan w = []" and "table_ok outbox_table (outbox (at_db w))" and wk: "valid_worker wk"
    and "due_notifications s (at_now w) (outbox (at_db w)) = ns"
    and say: "\<And>m e. verdict m = Inl e \<Longrightarrow> \<not> blank_text (delivery_message e)"
  shows "run_worker s (\<lambda>m. of_sum (verdict m)) wk (\<lambda>_. False) (Suc (length ns)) k w =
    (Inr (map (round_result verdict wk (at_now w)) ns @ [Idle]),
      w\<lparr>at_db := (at_db w)\<lparr>outbox := upd_where (\<lambda>m. visible s (n_tenant_id m) \<and> notification_ready (at_now w) m)
        (handled verdict wk (at_now w)) (outbox (at_db w))\<rparr>\<rparr>)"
  using assms(1,2,4)
proof (induction ns arbitrary: w k)
  case Nil
  have "\<not> (visible s (n_tenant_id m) \<and> notification_ready (at_now w) m)" if "m \<in> set (outbox (at_db w))" for m
    using Nil(3) that by (auto simp: due_notifications_def select_rows_def outbox_table_def filter_empty_conv dest: arg_cong [where f = set])
  then have "upd_where (\<lambda>m. visible s (n_tenant_id m) \<and> notification_ready (at_now w) m) (handled verdict wk (at_now w)) (outbox (at_db w)) =
      outbox (at_db w)"
    by (rule upd_where_none)
  then show ?case using runOnce_idle [OF Nil(1) wk Nil(3)] by (simp add: await_def return_def)
next
  case (Cons n ns)
  let ?h = "handled verdict wk (at_now w)" and ?key = "\<lambda>m. n_id m = n_id n"
  let ?due = "\<lambda>m. visible s (n_tenant_id m) \<and> notification_ready (at_now w) m"
  let ?w = "w\<lparr>at_db := (at_db w)\<lparr>outbox := upd_where ?key ?h (outbox (at_db w))\<rparr>\<rparr>"
  have n: "n \<in> set (outbox (at_db w))" "?due n"
  proof -
    have "n \<in> set (select_rows s outbox_table (notification_ready (at_now w)) (outbox (at_db w)))"
      using Cons.prems(3) unfolding due_notifications_def by (metis list.set_intros(1) set_sort)
    then show "n \<in> set (outbox (at_db w))" "?due n" by (simp_all add: outbox_table_def)
  qed
  have chk: "outbox_check n" using Cons.prems(2) n(1) by (auto simp: table_ok_def outbox_table_def list_all_iff)
  have same: "m = n" if "m \<in> set (outbox (at_db w))" "n_id m = n_id n" for m
    using outbox_key.key_inj [OF Cons.prems(2) that(1) n(1) that(2)] .
  have ok: "table_ok outbox_table (upd_where ?key ?h (outbox (at_db w)))"
    by (rule outbox_update_row(2) [OF Cons.prems(2) n(1), of s ?key])
      (use n(2) same ready_check(1) [OF chk] in auto)
  have "upd_where ?due ?h (upd_where ?key ?h (outbox (at_db w))) = upd_where ?due ?h (outbox (at_db w))"
    unfolding upd_where_def using n(2) same handled_not_ready [OF wk, of "at_now w" verdict] by auto
  then have "run_worker s (\<lambda>m. of_sum (verdict m)) wk (\<lambda>_. False) (Suc (length ns)) (Suc k) ?w =
      (Inr (map (round_result verdict wk (at_now w)) ns @ [Idle]), w\<lparr>at_db := (at_db w)\<lparr>outbox := upd_where ?due ?h (outbox (at_db w))\<rparr>\<rparr>)"
    using Cons.IH [of ?w "Suc k"] Cons.prems(1) ok due_after_round [OF Cons.prems(2,3), of ?h] handled_not_ready [OF wk]
    by simp
  then show ?case
    using runOnce_due [OF Cons.prems(1,2) wk Cons.prems(3) say] by (simp add: await_def return_def del: run_worker.simps(2)) (simp add: await_def return_def)
qed

text \<open>
  C33: The outbox is drained. While no other client acts, a worker attempts every notification that is due exactly
  once, the oldest first, and is idle after that. What the transport accepts is sent; what it
  refuses is put back with its reason until the retry time and does not keep the ones behind it from being
  delivered. All other rows stay as they are.
\<close>

theorem outbox_drained:
  assumes "at_db w = fold serve rs empty_db" and "at_plan w = []" and "valid_worker wk"
    and "\<And>m e. verdict m = Inl e \<Longrightarrow> \<not> blank_text (delivery_message e)"
    and "due_notifications s (at_now w) (outbox (at_db w)) = ns"
  shows "run_worker s (\<lambda>m. of_sum (verdict m)) wk (\<lambda>_. False) (Suc (length ns)) 0 w =
    (Inr (map (round_result verdict wk (at_now w)) ns @ [Idle]),
      w\<lparr>at_db := (at_db w)\<lparr>outbox := upd_where (\<lambda>m. visible s (n_tenant_id m) \<and> notification_ready (at_now w) m)
        (handled verdict wk (at_now w)) (outbox (at_db w))\<rparr>\<rparr>)"
proof -
  have "table_ok outbox_table (outbox (at_db w))"
    using inv_parts(4) [OF full_invD(1) [OF reached_inv [of rs]]] assms(1) by (simp add: outbox_ok_def)
  then show ?thesis using worker_rounds assms(2-5) by blast
qed

text \<open>Two notifications are due; the transport refuses the older one.\<close>

definition outbox_run :: "request list" where
  "outbox_run = sample_run @ [
    (acme, 200, Evidence_call (Record_verification ''v1'' ''t1'' ''ledger'' ''mismatch'' None None None None None None None 200)),
    (acme, 205, Evidence_call (Record_verification ''v2'' ''t1'' ''ledger'' ''mismatch'' None None None None None None None 205)),
    (acme, 210, Outbox_call (Queue_notification ''t1'' ''n1'' ''v1'' ''t1'' ''rule'' ''{}'' ''{}'' 4 None)),
    (acme, 220, Outbox_call (Queue_notification ''t1'' ''n2'' ''v2'' ''t1'' ''rule'' ''{}'' ''{}'' 4 None))]"

definition queued_row :: "string \<Rightarrow> string \<Rightarrow> int \<Rightarrow> outbox_row" where
  "queued_row nid vid now = new_notification now nid ''t1'' ''acme'' vid ''{}'' ''{}'' None"

definition outbox_world :: world where
  "outbox_world = \<lparr>at_db = fold serve (drop 4 outbox_run) sample_db, at_now = 300, at_plan = []\<rparr>"

lemma outbox_world_reached: "at_db outbox_world = fold serve outbox_run empty_db" "at_plan outbox_world = []" "at_now outbox_world = 300"
  by (simp_all add: outbox_world_def outbox_run_def sample_reached sample_length)

lemma outbox_world_rows: "outbox (at_db outbox_world) = [queued_row ''n1'' ''v1'' 210, queued_row ''n2'' ''v2'' 220]"
  by code_simp

definition sample_worker :: notification_worker where
  "sample_worker = \<lparr>nw_owner = ''w1'', nw_lease_ms = 60000, nw_retry_after_ms = 30000, nw_idle_ms = 1000\<rparr>"

definition refuse_n1 :: "task_notification \<Rightarrow> client_error + unit" where
  "refuse_n1 m = (if tn_id m = ''n1'' then Inl (Js_error ''down'') else Inr ())"

theorem outbox_drained_witness:
  "\<exists>f g w'. run_worker acme (\<lambda>m. of_sum (refuse_n1 m)) sample_worker (\<lambda>_. False) 3 0 outbox_world =
      (Inr [Failed f ''down'', Sent g, Idle], w') \<and> map n_state (outbox (at_db w')) = [N_failed, N_sent]"
proof -
  have due: "due_notifications acme (at_now outbox_world) (outbox (at_db outbox_world)) = [queued_row ''n1'' ''v1'' 210, queued_row ''n2'' ''v2'' 220]"
    unfolding outbox_world_rows outbox_world_reached(3) by code_simp
  have wk: "valid_worker sample_worker" by code_simp
  have say: "\<not> blank_text (delivery_message e)" if "refuse_n1 m = Inl e" for m e
  proof -
    have "e = Js_error ''down''" using that by (simp add: refuse_n1_def split: if_splits)
    moreover have "\<not> blank_text (delivery_message (Js_error ''down''))" by code_simp
    ultimately show ?thesis by simp
  qed
  have vis: "visible acme ''acme''" by code_simp
  have msg: "delivery_message (Js_error ''down'') = ''down''" by code_simp
  have ready: "notification_ready 300 (queued_row nid vid now) \<longleftrightarrow> now \<le> 300" for nid vid now
    by (simp add: notification_ready_def queued_row_def new_notification_def)
  let ?n = "queued_row ''n1'' ''v1'' 210" and ?m = "queued_row ''n2'' ''v2'' 220" and ?h = "handled refuse_n1 sample_worker 300"
  have "run_worker acme (\<lambda>m. of_sum (refuse_n1 m)) sample_worker (\<lambda>_. False) 3 0 outbox_world =
      (Inr [round_result refuse_n1 sample_worker 300 ?n, round_result refuse_n1 sample_worker 300 ?m, Idle],
        outbox_world\<lparr>at_db := (at_db outbox_world)\<lparr>outbox := upd_where (\<lambda>m. visible acme (n_tenant_id m) \<and> notification_ready 300 m) ?h [?n, ?m]\<rparr>\<rparr>)"
    using outbox_drained [OF outbox_world_reached(1,2) wk say due] by (simp add: outbox_world_reached(3) outbox_world_rows numeral_3_eq_3)
  moreover have "upd_where (\<lambda>m. visible acme (n_tenant_id m) \<and> notification_ready 300 m) ?h [?n, ?m] = [?h ?n, ?h ?m]"
    by (simp add: upd_where_def ready) (simp add: queued_row_def new_notification_def vis)
  moreover have "n_state (?h ?n) = N_failed" "n_state (?h ?m) = N_sent"
      "round_result refuse_n1 sample_worker 300 ?n = Failed (mapNotification (?h ?n)) ''down''"
      "round_result refuse_n1 sample_worker 300 ?m = Sent (mapNotification (?h ?m))"
    by (simp_all add: round_result_def handled_def refuse_n1_def mapNotification_def notification_leased_def queued_row_def new_notification_def msg Let_def)
  ultimately show ?thesis by simp
qed

end
