(* ===== verification/Sweepers.thy ===== *)
theory Sweepers
  imports Client
begin

text \<open>
  The periodic sweepers: \<open>WaitpointExpiryScheduler\<close> (\<open>tasks/waitpoint-scheduler.ts\<close>) and \<open>TaskReconciler\<close>
  (\<open>tasks/reconciler.ts\<close>). Both classes run one event at a time; between two events a sweep waits at an
  \<open>await\<close>. An event is a call of a method, a timer that fires, the reply a sweep waits for, or the reaction
  that follows a sweep the timer began. Replies are arbitrary. A timer is its number; \<open>tk_pending\<close> are the timers set
  and neither fired nor cleared.
\<close>

section \<open>The timer\<close>

record ticker =
  tk_handle :: "nat option"
  tk_pending :: "nat list"
  tk_next :: nat
  tk_stopped :: bool

definition new_ticker :: ticker where
  "new_ticker = \<lparr>tk_handle = None, tk_pending = [], tk_next = 0, tk_stopped = False\<rparr>"

definition schedule :: "ticker \<Rightarrow> ticker" where
  "schedule t = t\<lparr>tk_pending := tk_pending t @ [tk_next t], tk_handle := Some (tk_next t), tk_next := Suc (tk_next t)\<rparr>"

definition start_ticker :: "string \<Rightarrow> ticker \<Rightarrow> client_error + ticker" where
  "start_ticker message t = (if tk_stopped t then Inl (Js_error message)
    else if tk_handle t \<noteq> None then Inr t else Inr (schedule t))"

definition stop_ticker :: "ticker \<Rightarrow> ticker" where
  "stop_ticker t = (case tk_handle t of None \<Rightarrow> t\<lparr>tk_stopped := True\<rparr>
    | Some h \<Rightarrow> t\<lparr>tk_stopped := True, tk_pending := remove1 h (tk_pending t), tk_handle := None\<rparr>)"

text \<open>A timer fires: its handler forgets the handle. After the sweep the handler schedules the next timer.\<close>

definition fire_ticker :: "nat \<Rightarrow> ticker \<Rightarrow> ticker" where
  "fire_ticker i t = t\<lparr>tk_pending := remove1 i (tk_pending t), tk_handle := None\<rparr>"

definition settle_ticker :: "ticker \<Rightarrow> ticker" where
  "settle_ticker t = (if tk_stopped t then t else schedule t)"

subsection \<open>What both classes promise of their timer\<close>

text \<open>The moves of a timer, with the number of sweeps it began that are not over. The flag marks a call of \<open>start\<close>.\<close>

inductive moves :: "bool \<Rightarrow> ticker \<times> nat \<Rightarrow> ticker \<times> nat \<Rightarrow> bool" where
  stay: "moves b x x"
| started: "start_ticker message t = Inr t' \<Longrightarrow> moves True (t, n) (t', n)"
| stopped: "moves b (t, n) (stop_ticker t, n)"
| fired: "i \<in> set (tk_pending t) \<Longrightarrow> moves b (t, n) (fire_ticker i t, Suc n)"
| settled: "moves b (t, Suc n) (settle_ticker t, n)"

text \<open>The schedule lives on, and the timers and sweeps are no more than the calls of \<open>start\<close>.\<close>

definition ticking :: "ticker \<times> nat \<Rightarrow> bool" where
  "ticking x \<longleftrightarrow> (case x of (t, n) \<Rightarrow> tk_next t = 0 \<or> tk_stopped t \<or> tk_pending t \<noteq> [] \<or> n > 0)"

definition load :: "ticker \<times> nat \<Rightarrow> nat" where
  "load x = length (tk_pending (fst x)) + snd x"

definition tracked :: "ticker \<times> nat \<Rightarrow> bool" where
  "tracked x \<longleftrightarrow> (case tk_pending (fst x) of [] \<Rightarrow> True
    | i # is \<Rightarrow> is = [] \<and> tk_handle (fst x) = Some i \<and> \<not> tk_stopped (fst x))"

lemmas ticker_defs = new_ticker_def schedule_def start_ticker_def stop_ticker_def fire_ticker_def settle_ticker_def

lemma moves_ticking: "moves b x y \<Longrightarrow> ticking x \<Longrightarrow> ticking y"
  by (induction rule: moves.induct) (auto simp: ticking_def ticker_defs split: option.splits if_splits)

lemma moves_load: "moves b x y \<Longrightarrow> load y \<le> load x + of_bool b"
proof (induction rule: moves.induct)
  case (fired i t b n)
  then have "Suc (length (remove1 i (tk_pending t))) = length (tk_pending t)"
    using length_pos_if_in_set [of i "tk_pending t"] by (simp add: length_remove1)
  then show ?case by (simp add: load_def fire_ticker_def)
next
  case (started message t t' n)
  then show ?case by (auto simp: load_def start_ticker_def schedule_def split: if_splits)
next
  case (stopped b t n)
  have "length (remove1 h (tk_pending t)) \<le> length (tk_pending t)" for h by (simp add: length_remove1)
  then show ?case by (simp add: load_def stop_ticker_def trans_le_add1 split: option.split)
qed (simp_all add: load_def schedule_def settle_ticker_def)

lemma moves_tracked:
  assumes "moves b x y" and "tracked x" and "load y \<le> 1"
  shows "tracked y"
  using assms
  by (induction rule: moves.induct)
    (auto simp: tracked_def load_def ticker_defs split: option.splits if_splits list.splits)

text \<open>A history of events; \<open>None\<close> where one of them cannot happen.\<close>

primrec run_events :: "('e \<Rightarrow> 's \<Rightarrow> 's option) \<Rightarrow> 'e list \<Rightarrow> 's \<Rightarrow> 's option" where
  "run_events step [] st = Some st"
| "run_events step (e # es) st = Option.bind (step e st) (run_events step es)"

lemma run_events_snoc [simp]: "run_events step (es @ [e]) st = Option.bind (run_events step es st) (step e)"
  by (induction es arbitrary: st) (auto split: bind_split)

lemma run_events_induct [consumes 1, case_names init step]:
  assumes "run_events step es init = Some st" and "P [] init"
    and "\<And>es e st st'. run_events step es init = Some st \<Longrightarrow> P es st \<Longrightarrow> step e st = Some st' \<Longrightarrow> P (es @ [e]) st'"
  shows "P es st"
  using assms(1)
proof (induction es arbitrary: st rule: rev_induct)
  case Nil
  then show ?case using assms(2) by simp
next
  case (snoc e es)
  then obtain st1 where "run_events step es init = Some st1" "step e st1 = Some st" by (auto split: bind_split_asm)
  then show ?case using snoc.IH assms(3) by blast
qed

definition count_events :: "('e \<Rightarrow> bool) \<Rightarrow> 'e list \<Rightarrow> nat" where
  "count_events p es = length (filter p es)"

lemma count_events_simps [simp]: "count_events p [] = 0" "count_events p (es @ [e]) = count_events p es + of_bool (p e)"
  by (simp_all add: count_events_def)

text \<open>
  \<open>periodic\<close>: what a sweeper shows of its timer. Every event is a move of the timer, and only a call of \<open>start\<close> may
  set one without a sweep that ended. \<open>sane\<close> is what the class keeps of its own state.
\<close>

locale periodic =
  fixes step :: "'e \<Rightarrow> 's \<Rightarrow> 's option" and init :: 's and is_start :: "'e \<Rightarrow> bool" and timer :: "'s \<Rightarrow> ticker" and begun :: "'s \<Rightarrow> nat"
    and sane :: "'s \<Rightarrow> bool"
  assumes init_timer: "timer init = new_ticker" "begun init = 0" and init_sane: "sane init"
    and step_sane: "step e st = Some st' \<Longrightarrow> sane st \<Longrightarrow> sane st'"
    and step_moves: "step e st = Some st' \<Longrightarrow> sane st \<Longrightarrow> moves (is_start e) (timer st, begun st) (timer st', begun st')"
begin

lemma always_sane: "run_events step es init = Some st \<Longrightarrow> sane st"
  by (induction rule: run_events_induct) (auto intro: init_sane step_sane)

lemma schedule_kept: "run_events step es init = Some st \<Longrightarrow> ticking (timer st, begun st)"
proof (induction rule: run_events_induct)
  case init
  then show ?case by (simp add: ticking_def init_timer new_ticker_def)
next
  case (step es e st st')
  then show ?case using moves_ticking [OF step_moves [OF step.hyps(2) always_sane]] by blast
qed

lemma load_bounded: "run_events step es init = Some st \<Longrightarrow> load (timer st, begun st) \<le> count_events is_start es"
proof (induction rule: run_events_induct)
  case init
  then show ?case by (simp add: load_def init_timer new_ticker_def)
next
  case (step es e st st')
  then show ?case using moves_load [OF step_moves [OF step.hyps(2) always_sane [OF step.hyps(1)]]] by simp
qed

lemma started_once:
  assumes "run_events step es init = Some st" and "count_events is_start es \<le> 1"
  shows "tracked (timer st, begun st)"
  using assms
proof (induction rule: run_events_induct)
  case init
  then show ?case by (simp add: tracked_def init_timer new_ticker_def)
next
  case (step es e st st')
  have "load (timer st', begun st') \<le> 1"
    using load_bounded [of "es @ [e]" st'] step.hyps step.prems by simp
  then show ?case using moves_tracked [OF step_moves [OF step.hyps(2) always_sane [OF step.hyps(1)]]] step.IH step.prems by simp
qed

lemma stopped_for_good:
  assumes "run_events step es init = Some st" and "count_events is_start es \<le> 1" and "tk_stopped (timer st)"
  shows "tk_pending (timer st) = []"
  using started_once [OF assms(1,2)] assms(3) by (auto simp: tracked_def split: list.splits)

end

section \<open>The waitpoint expiry scheduler\<close>

datatype expiry_phase = Expiring | Announcing int | Expiry_over

record expiry_sweep =
  xs_by_timer :: bool
  xs_phase :: expiry_phase

record expiry_scheduler =
  xp_timer :: ticker
  xp_running :: bool
  xp_sweeps :: int
  xp_last_expired :: int
  xp_inflight :: "expiry_sweep list"
  xp_reported :: "client_error list"

datatype expiry_event =
    Xp_start | Xp_stop | Xp_fire nat | Xp_sweep
  | Xp_expired nat "client_error + int"
  | Xp_announced nat "client_error + unit"
  | Xp_settle nat

definition MAX_BATCH_LIMIT :: int where
  "MAX_BATCH_LIMIT = 500"

text \<open>The constructor checks \<open>everyMs\<close> and \<open>batchLimit\<close> and gives the values in force.\<close>

definition expiry_options :: "int option \<Rightarrow> int option \<Rightarrow> client_error + (int \<times> int)" where
  "expiry_options everyMs batchLimit = (let every = coalesce everyMs 300000; batch = coalesce batchLimit 100 in
    if every < 1000 then Inl (Range_error ''everyMs must be at least 1000ms'')
    else if batch < 1 \<or> batch > MAX_BATCH_LIMIT then Inl (Range_error ''batchLimit must be between 1 and 500'')
    else Inr (every, batch))"

definition new_expiry_scheduler :: expiry_scheduler where
  "new_expiry_scheduler = \<lparr>xp_timer = new_ticker, xp_running = False, xp_sweeps = 0, xp_last_expired = 0, xp_inflight = [], xp_reported = []\<rparr>"

text \<open>\<open>sweep\<close> up to its first await: a sweep that finds another one running returns 0 at once.\<close>

definition begin_expiry :: "bool \<Rightarrow> expiry_scheduler \<Rightarrow> expiry_scheduler" where
  "begin_expiry by_timer st = st\<lparr>xp_inflight := xp_inflight st @
      [\<lparr>xs_by_timer = by_timer, xs_phase = (if xp_running st then Expiry_over else Expiring)\<rparr>], xp_running := True\<rparr>"

definition set_expiry :: "nat \<Rightarrow> expiry_phase \<Rightarrow> expiry_scheduler \<Rightarrow> expiry_scheduler" where
  "set_expiry i ph st = st\<lparr>xp_inflight := (xp_inflight st)[i := (xp_inflight st ! i)\<lparr>xs_phase := ph\<rparr>]\<rparr>"

text \<open>The \<open>finally\<close> block; an error was reported before, and a reporter that throws is ignored.\<close>

definition end_expiry :: "nat \<Rightarrow> expiry_scheduler \<Rightarrow> expiry_scheduler" where
  "end_expiry i st = (set_expiry i Expiry_over st)\<lparr>xp_running := False, xp_sweeps := xp_sweeps st + 1\<rparr>"

definition report_expiry :: "client_error \<Rightarrow> expiry_scheduler \<Rightarrow> expiry_scheduler" where
  "report_expiry e st = st\<lparr>xp_reported := xp_reported st @ [e]\<rparr>"

definition expiry_phase_of :: "nat \<Rightarrow> expiry_scheduler \<Rightarrow> expiry_phase option" where
  "expiry_phase_of i st = (if i < length (xp_inflight st) then Some (xs_phase (xp_inflight st ! i)) else None)"

text \<open>Without \<open>onExpired\<close> the sweep waits for nothing, that is, for a reply without error.\<close>

definition expiry_step :: "expiry_event \<Rightarrow> expiry_scheduler \<Rightarrow> expiry_scheduler option" where
  "expiry_step ev st = (case ev of
      Xp_start \<Rightarrow> (case start_ticker ''WaitpointExpiryScheduler.start() after stop()'' (xp_timer st) of
          Inl e \<Rightarrow> Some st | Inr t \<Rightarrow> Some (st\<lparr>xp_timer := t\<rparr>))
    | Xp_stop \<Rightarrow> Some (st\<lparr>xp_timer := stop_ticker (xp_timer st)\<rparr>)
    | Xp_fire i \<Rightarrow> if i \<in> set (tk_pending (xp_timer st))
        then Some (begin_expiry True (st\<lparr>xp_timer := fire_ticker i (xp_timer st)\<rparr>)) else None
    | Xp_sweep \<Rightarrow> Some (begin_expiry False st)
    | Xp_expired i reply \<Rightarrow> if expiry_phase_of i st \<noteq> Some Expiring then None
        else (case reply of
            Inl e \<Rightarrow> Some (end_expiry i (report_expiry e st))
          | Inr n \<Rightarrow> let st' = st\<lparr>xp_last_expired := n\<rparr> in
              Some (if n > 0 then set_expiry i (Announcing n) st' else end_expiry i st'))
    | Xp_announced i reply \<Rightarrow> (case expiry_phase_of i st of
          Some (Announcing n) \<Rightarrow> Some (end_expiry i (case reply of Inl e \<Rightarrow> report_expiry e st | Inr _ \<Rightarrow> st))
        | _ \<Rightarrow> None)
    | Xp_settle i \<Rightarrow> if expiry_phase_of i st \<noteq> Some Expiry_over then None
        else Some (st\<lparr>xp_timer := (if xs_by_timer (xp_inflight st ! i) then settle_ticker (xp_timer st) else xp_timer st),
          xp_inflight := take i (xp_inflight st) @ drop (Suc i) (xp_inflight st)\<rparr>))"

section \<open>The reconciler\<close>

datatype lease_ownership = Unowned | Owned | Closed

datatype reconcile_phase = Acquiring | Verifying | Reading | Reconciling "string list" | Releasing | Sweep_over

record reconcile_sweep =
  rs_by_timer :: bool
  rs_phase :: reconcile_phase
  rs_acquired :: bool
  rs_reconciled :: int

text \<open>The calls a sweep makes to the lease, the task source and the application, in order.\<close>

datatype reconcile_call = Call_acquire | Call_verify | Call_release | Call_list | Call_reconcile string

record reconciler =
  rc_timer :: ticker
  rc_running :: bool
  rc_sweeps :: int
  rc_lease_held :: bool
  rc_lease_state :: lease_ownership
  rc_lease_unavailable :: bool
  rc_last_sweep_at :: "int option"
  rc_last_successful_sweep_at :: "int option"
  rc_inflight :: "reconcile_sweep list"
  rc_calls :: "reconcile_call list"
  rc_metrics :: "(string \<times> int) list"

text \<open>
  The options: whether there is a lease and whether it has \<open>verify\<close>; \<open>onError\<close>, of which it only matters whether it throws;
  \<open>onLeaseLost\<close>, with the error it throws if it throws.
\<close>

record reconciler_options =
  ro_lease :: bool
  ro_verify :: bool
  ro_on_error :: "(client_error \<Rightarrow> bool) option"
  ro_on_lease_lost :: "client_error option option"

datatype reconcile_event =
    Rc_start | Rc_stop | Rc_fire nat int | Rc_sweep int
  | Rc_acquired nat "client_error + bool"
  | Rc_verified nat "client_error + bool"
  | Rc_read nat "client_error + string list" int
  | Rc_reconciled nat "client_error + unit" int
  | Rc_released nat "client_error + unit"
  | Rc_settle nat

text \<open>The constructor: the interval and the batch, of which every read asks the smaller of batch and query limit.\<close>

definition reconciler_limits :: "int option \<Rightarrow> int option \<Rightarrow> int option \<Rightarrow> client_error + (int \<times> int \<times> int)" where
  "reconciler_limits everyMs queryLimit batchLimit = (
    let every = coalesce everyMs 300000; limit = coalesce queryLimit 100; batch = coalesce batchLimit limit in
    if every < 1000 then Inl (Range_error ''everyMs must be at least 1000ms'')
    else if batch \<le> 0 then Inl (Range_error ''batchLimit must be a positive integer'')
    else Inr (every, batch, min batch limit))"

definition new_reconciler :: reconciler where
  "new_reconciler = \<lparr>rc_timer = new_ticker, rc_running = False, rc_sweeps = 0, rc_lease_held = False, rc_lease_state = Unowned,
    rc_lease_unavailable = False, rc_last_sweep_at = None, rc_last_successful_sweep_at = None, rc_inflight = [], rc_calls = [], rc_metrics = []\<rparr>"

definition increment :: "string \<Rightarrow> int \<Rightarrow> reconciler \<Rightarrow> reconciler" where
  "increment nm n st = st\<lparr>rc_metrics := rc_metrics st @ [(nm, n)]\<rparr>"

definition called :: "reconcile_call \<Rightarrow> reconciler \<Rightarrow> reconciler" where
  "called c st = st\<lparr>rc_calls := rc_calls st @ [c]\<rparr>"

definition report_reconciler :: "reconciler_options \<Rightarrow> client_error \<Rightarrow> reconciler \<Rightarrow> reconciler" where
  "report_reconciler opts e st = (case ro_on_error opts of None \<Rightarrow> st
    | Some throws \<Rightarrow> if throws e then increment ''rhinoq_reconciler_error_handler_failed_total'' 1 st else st)"

definition reportLeaseLost :: "reconciler_options \<Rightarrow> reconciler \<Rightarrow> reconciler" where
  "reportLeaseLost opts st = (case ro_on_lease_lost opts of
      Some (Some e) \<Rightarrow> report_reconciler opts e (increment ''rhinoq_reconciler_error_handler_failed_total'' 1 st)
    | _ \<Rightarrow> st)"

definition set_sweep :: "nat \<Rightarrow> (reconcile_sweep \<Rightarrow> reconcile_sweep) \<Rightarrow> reconciler \<Rightarrow> reconciler" where
  "set_sweep i f st = st\<lparr>rc_inflight := (rc_inflight st)[i := f (rc_inflight st ! i)]\<rparr>"

definition sweep_phase :: "nat \<Rightarrow> reconciler \<Rightarrow> reconcile_phase option" where
  "sweep_phase i st = (if i < length (rc_inflight st) then Some (rs_phase (rc_inflight st ! i)) else None)"

text \<open>The end of the \<open>finally\<close> block, and the block itself: a lease acquired for the sweep is released first.\<close>

definition over :: "nat \<Rightarrow> reconciler \<Rightarrow> reconciler" where
  "over i st = (set_sweep i (rs_phase_update (\<lambda>_. Sweep_over)) st)\<lparr>rc_running := False, rc_sweeps := rc_sweeps st + 1\<rparr>"

definition finish :: "nat \<Rightarrow> reconciler \<Rightarrow> reconciler" where
  "finish i st = (if rs_acquired (rc_inflight st ! i)
    then called Call_release ((set_sweep i (rs_phase_update (\<lambda>_. Releasing)) st)\<lparr>rc_lease_held := False, rc_lease_state := Unowned\<rparr>)
    else over i st)"

text \<open>The outer \<open>catch\<close>.\<close>

definition sweep_failed :: "reconciler_options \<Rightarrow> nat \<Rightarrow> client_error \<Rightarrow> reconciler \<Rightarrow> reconciler" where
  "sweep_failed opts i e st = finish i (report_reconciler opts e (increment ''rhinoq_reconciler_sweep_failed_total'' 1 st))"

definition read_tasks :: "nat \<Rightarrow> reconciler \<Rightarrow> reconciler" where
  "read_tasks i st = called Call_list (set_sweep i (rs_phase_update (\<lambda>_. Reading)) st)"

text \<open>The loop: the next task, or the end of the sweep.\<close>

definition next_task :: "nat \<Rightarrow> string list \<Rightarrow> int \<Rightarrow> reconciler \<Rightarrow> reconciler" where
  "next_task i ts at st = (case ts of
      [] \<Rightarrow> finish i (st\<lparr>rc_last_successful_sweep_at := Some at\<rparr>)
    | t # _ \<Rightarrow> called (Call_reconcile t) (set_sweep i (rs_phase_update (\<lambda>_. Reconciling ts)) st))"

definition begin_sweep :: "reconciler_options \<Rightarrow> bool \<Rightarrow> int \<Rightarrow> reconciler \<Rightarrow> reconciler" where
  "begin_sweep opts by_timer at st = (
    let sw = \<lambda>ph. \<lparr>rs_by_timer = by_timer, rs_phase = ph, rs_acquired = False, rs_reconciled = 0\<rparr> in
    if rc_running st then (increment ''rhinoq_reconciler_sweep_skipped_total'' 1 st)\<lparr>rc_inflight := rc_inflight st @ [sw Sweep_over]\<rparr>
    else let st' = st\<lparr>rc_running := True, rc_last_sweep_at := Some at,
        rc_inflight := rc_inflight st @ [sw (if ro_lease opts then Acquiring else Reading)]\<rparr> in
      called (if ro_lease opts then Call_acquire else Call_list) st')"

definition acquired :: "reconciler_options \<Rightarrow> nat \<Rightarrow> client_error + bool \<Rightarrow> reconciler \<Rightarrow> reconciler" where
  "acquired opts i reply st = (case reply of
      Inl e \<Rightarrow> sweep_failed opts i e st
    | Inr granted \<Rightarrow> if \<not> granted
        then finish i (increment ''rhinoq_reconciler_lease_not_acquired_total'' 1 (st\<lparr>rc_lease_state := Unowned, rc_lease_unavailable := True\<rparr>))
        else let st' = (set_sweep i (rs_acquired_update (\<lambda>_. True)) st)\<lparr>rc_lease_held := True, rc_lease_state := Owned, rc_lease_unavailable := False\<rparr> in
          if ro_verify opts then called Call_verify (set_sweep i (rs_phase_update (\<lambda>_. Verifying)) st') else read_tasks i st')"

definition verified :: "reconciler_options \<Rightarrow> nat \<Rightarrow> client_error + bool \<Rightarrow> reconciler \<Rightarrow> reconciler" where
  "verified opts i reply st = (case reply of
      Inl e \<Rightarrow> sweep_failed opts i e st
    | Inr live \<Rightarrow> if live then read_tasks i st
        else finish i (reportLeaseLost opts (increment ''rhinoq_reconciler_lease_lost_total'' 1
          ((set_sweep i (rs_acquired_update (\<lambda>_. False)) st)\<lparr>rc_lease_held := False, rc_lease_state := Unowned, rc_lease_unavailable := True\<rparr>))))"

definition stop_reconciler :: "reconciler_options \<Rightarrow> reconciler \<Rightarrow> reconciler" where
  "stop_reconciler opts st = (let st' = st\<lparr>rc_timer := stop_ticker (rc_timer st), rc_lease_state := Closed\<rparr> in
    if rc_lease_held st \<and> ro_lease opts then called Call_release (st'\<lparr>rc_lease_held := False\<rparr>) else st')"

definition reconciled_task :: "reconciler_options \<Rightarrow> nat \<Rightarrow> client_error + unit \<Rightarrow> reconciler \<Rightarrow> reconciler" where
  "reconciled_task opts i reply st = (case reply of
      Inl e \<Rightarrow> report_reconciler opts e (increment ''rhinoq_reconciler_task_failed_total'' 1 st)
    | Inr _ \<Rightarrow> increment ''rhinoq_reconciler_task_reconciled_total'' 1 (set_sweep i (\<lambda>sw. sw\<lparr>rs_reconciled := rs_reconciled sw + 1\<rparr>) st))"

definition reconcile_step :: "reconciler_options \<Rightarrow> reconcile_event \<Rightarrow> reconciler \<Rightarrow> reconciler option" where
  "reconcile_step opts ev st = (case ev of
      Rc_start \<Rightarrow> (case start_ticker ''TaskReconciler.start() after stop(); construct a new one'' (rc_timer st) of
          Inl e \<Rightarrow> Some st | Inr t \<Rightarrow> Some (st\<lparr>rc_timer := t\<rparr>))
    | Rc_stop \<Rightarrow> Some (stop_reconciler opts st)
    | Rc_fire i at \<Rightarrow> if i \<in> set (tk_pending (rc_timer st))
        then Some (begin_sweep opts True at (st\<lparr>rc_timer := fire_ticker i (rc_timer st)\<rparr>)) else None
    | Rc_sweep at \<Rightarrow> Some (begin_sweep opts False at st)
    | Rc_acquired i reply \<Rightarrow> if sweep_phase i st = Some Acquiring then Some (acquired opts i reply st) else None
    | Rc_verified i reply \<Rightarrow> if sweep_phase i st = Some Verifying then Some (verified opts i reply st) else None
    | Rc_read i reply at \<Rightarrow> if sweep_phase i st \<noteq> Some Reading then None
        else Some (case reply of
            Inl e \<Rightarrow> sweep_failed opts i e st
          | Inr ts \<Rightarrow> next_task i ts at (increment ''rhinoq_reconciler_task_selected_total'' (int (length ts)) st))
    | Rc_reconciled i reply at \<Rightarrow> (case sweep_phase i st of
          Some (Reconciling (t # ts)) \<Rightarrow> Some (next_task i ts at (reconciled_task opts i reply st))
        | _ \<Rightarrow> None)
    | Rc_released i reply \<Rightarrow> if sweep_phase i st \<noteq> Some Releasing then None
        else Some (over i (case reply of Inl e \<Rightarrow> report_reconciler opts e st | Inr _ \<Rightarrow> st))
    | Rc_settle i \<Rightarrow> if sweep_phase i st \<noteq> Some Sweep_over then None
        else Some (st\<lparr>rc_timer := (if rs_by_timer (rc_inflight st ! i) then settle_ticker (rc_timer st) else rc_timer st),
          rc_inflight := take i (rc_inflight st) @ drop (Suc i) (rc_inflight st)\<rparr>))"

end
