(* ===== verification/Sweeper_Properties.thy ===== *)
theory Sweeper_Properties
  imports Sweepers
begin

text \<open>
  What the sweepers keep: their schedule, one sweep at a time, and the lease of the reconciler.
\<close>

section \<open>Both are periodic\<close>

definition expiry_begun :: "expiry_scheduler \<Rightarrow> nat" where
  "expiry_begun st = length (filter xs_by_timer (xp_inflight st))"

definition reconciler_begun :: "reconciler \<Rightarrow> nat" where
  "reconciler_begun st = length (filter rs_by_timer (rc_inflight st))"

lemma filter_list_update: "P y = P (xs ! i) \<Longrightarrow> length (filter P (xs[i := y])) = length (filter P xs)"
proof (induction xs arbitrary: i)
  case (Cons x xs)
  then show ?case by (cases i) auto
qed simp

lemma filter_delete_nth:
  assumes "i < length xs"
  shows "length (filter P xs) = length (filter P (take i xs @ drop (Suc i) xs)) + of_bool (P (xs ! i))"
proof -
  have "length (filter P xs) = length (filter P (take i xs @ xs ! i # drop (Suc i) xs))" using id_take_nth_drop [OF assms] by simp
  then show ?thesis by simp
qed

lemma expiry_simps [simp]:
  "xp_timer (begin_expiry b st) = xp_timer st" "expiry_begun (begin_expiry b st) = expiry_begun st + of_bool b"
  "xp_timer (set_expiry i ph st) = xp_timer st" "expiry_begun (set_expiry i ph st) = expiry_begun st"
  "xp_timer (end_expiry i st) = xp_timer st" "expiry_begun (end_expiry i st) = expiry_begun st"
  "xp_timer (report_expiry e st) = xp_timer st" "expiry_begun (report_expiry e st) = expiry_begun st"
  "expiry_begun (st\<lparr>xp_timer := t\<rparr>) = expiry_begun st" "expiry_begun (st\<lparr>xp_last_expired := n\<rparr>) = expiry_begun st"
  by (simp_all add: begin_expiry_def set_expiry_def end_expiry_def report_expiry_def expiry_begun_def filter_list_update)

lemma length_filter_update:
  assumes "i < length xs"
  shows "length (filter P (xs[i := y])) + of_bool (P (xs ! i)) = length (filter P xs) + of_bool (P y)"
  using assms
proof (induction xs arbitrary: i)
  case (Cons x xs)
  then show ?case by (cases i) auto
qed simp

lemma expiry_moves:
  assumes "expiry_step e st = Some st'"
  shows "moves (e = Xp_start) (xp_timer st, expiry_begun st) (xp_timer st', expiry_begun st')"
proof (cases e)
  case Xp_start
  then show ?thesis
    using assms by (auto simp: expiry_step_def intro: moves.intros split: sum.splits)
next
  case Xp_stop
  then show ?thesis using assms moves.stopped by (auto simp: expiry_step_def)
next
  case (Xp_fire i)
  then show ?thesis using assms moves.fired [of i "xp_timer st"] by (auto simp: expiry_step_def split: if_splits)
next
  case Xp_sweep
  then show ?thesis using assms moves.stay by (auto simp: expiry_step_def)
next
  case (Xp_expired i reply)
  then show ?thesis using assms moves.stay by (auto simp: expiry_step_def Let_def split: sum.splits if_splits)
next
  case (Xp_announced i reply)
  then show ?thesis
    using assms moves.stay by (auto simp: expiry_step_def split: sum.splits option.splits expiry_phase.splits)
next
  case (Xp_settle i)
  then have i: "i < length (xp_inflight st)" and st': "st' = st\<lparr>xp_timer := (if xs_by_timer (xp_inflight st ! i) then settle_ticker (xp_timer st) else xp_timer st),
      xp_inflight := take i (xp_inflight st) @ drop (Suc i) (xp_inflight st)\<rparr>"
    using assms by (auto simp: expiry_step_def expiry_phase_of_def split: if_splits)
  show ?thesis
    using filter_delete_nth [OF i, of xs_by_timer] moves.stay moves.settled [of "e = Xp_start" "xp_timer st" "expiry_begun st'"] st'
    by (cases "xs_by_timer (xp_inflight st ! i)") (auto simp: expiry_begun_def)
qed

definition expiry_sane :: "expiry_scheduler \<Rightarrow> bool" where
  "expiry_sane st \<longleftrightarrow> length (filter (\<lambda>sw. xs_phase sw \<noteq> Expiry_over) (xp_inflight st)) = of_bool (xp_running st)"

lemma expiry_set_phase:
  assumes "i < length xs" and "xs_phase (xs ! i) \<noteq> Expiry_over"
  shows "length (filter (\<lambda>sw. xs_phase sw \<noteq> Expiry_over) (xs[i := (xs ! i)\<lparr>xs_phase := ph\<rparr>])) + of_bool (ph = Expiry_over) =
    length (filter (\<lambda>sw. xs_phase sw \<noteq> Expiry_over) xs)"
  using length_filter_update [OF assms(1), of "\<lambda>sw. xs_phase sw \<noteq> Expiry_over" "(xs ! i)\<lparr>xs_phase := ph\<rparr>"] assms(2)
  by (cases "ph = Expiry_over") simp_all

lemma expiry_reply_sane:
  assumes "expiry_phase_of i st = Some ph" and "ph \<noteq> Expiry_over" and "expiry_sane st"
  shows "expiry_sane (end_expiry i (st\<lparr>xp_last_expired := n, xp_reported := es\<rparr>))"
    and "ph' \<noteq> Expiry_over \<Longrightarrow> expiry_sane (set_expiry i ph' (st\<lparr>xp_last_expired := n\<rparr>))"
  using assms expiry_set_phase [of i "xp_inflight st" Expiry_over] expiry_set_phase [of i "xp_inflight st" ph']
  by (auto simp: expiry_sane_def expiry_phase_of_def end_expiry_def set_expiry_def of_bool_def split: if_splits)

lemma expiry_step_sane:
  assumes step: "expiry_step e st = Some st'" and ok: "expiry_sane st"
  shows "expiry_sane st'"
proof (cases e)
  case (Xp_expired i reply)
  then have ph: "expiry_phase_of i st = Some Expiring" using step by (simp add: expiry_step_def split: if_splits)
  show ?thesis
  proof (cases reply)
    case (Inl err)
    then have "st' = end_expiry i (st\<lparr>xp_last_expired := xp_last_expired st, xp_reported := xp_reported st @ [err]\<rparr>)"
      using step ph Xp_expired by (simp add: expiry_step_def report_expiry_def)
    then show ?thesis by (simp only:) (rule expiry_reply_sane(1) [OF ph _ ok], simp)
  next
    case (Inr n)
    then have "st' = (if n > 0 then set_expiry i (Announcing n) (st\<lparr>xp_last_expired := n\<rparr>)
        else end_expiry i (st\<lparr>xp_last_expired := n, xp_reported := xp_reported st\<rparr>))"
      using step ph Xp_expired by (auto simp: expiry_step_def Let_def)
    then show ?thesis
      using expiry_reply_sane(1) [OF ph _ ok, where n = n and es = "xp_reported st"] expiry_reply_sane(2) [OF ph _ ok, where ph' = "Announcing n" and n = n] by simp
  qed
next
  case (Xp_announced i reply)
  then obtain n where ph: "expiry_phase_of i st = Some (Announcing n)"
    using step by (auto simp: expiry_step_def split: option.splits expiry_phase.splits)
  have "st' = end_expiry i (st\<lparr>xp_last_expired := xp_last_expired st, xp_reported := (case reply of Inl err \<Rightarrow> xp_reported st @ [err] | Inr _ \<Rightarrow> xp_reported st)\<rparr>)"
    using step ph Xp_announced by (simp add: expiry_step_def report_expiry_def split: sum.splits)
  then show ?thesis by (simp only:) (rule expiry_reply_sane(1) [OF ph _ ok], simp)
next
  case (Xp_settle i)
  then have "i < length (xp_inflight st)" "xs_phase (xp_inflight st ! i) = Expiry_over"
    "xp_inflight st' = take i (xp_inflight st) @ drop (Suc i) (xp_inflight st)" "xp_running st' = xp_running st"
    using step by (auto simp: expiry_step_def expiry_phase_of_def split: if_splits)
  then show ?thesis
    using ok filter_delete_nth [of i "xp_inflight st" "\<lambda>sw. xs_phase sw \<noteq> Expiry_over"] by (simp add: expiry_sane_def)
qed (use step ok in \<open>auto simp: expiry_step_def begin_expiry_def expiry_sane_def split: if_splits sum.splits\<close>)

interpretation expiry: periodic expiry_step new_expiry_scheduler "\<lambda>e. e = Xp_start" xp_timer expiry_begun expiry_sane
  by unfold_locales (erule expiry_moves | erule (1) expiry_step_sane | simp add: new_expiry_scheduler_def expiry_begun_def expiry_sane_def)+

section \<open>One step of a sweep\<close>

text \<open>
  What a reply does: one sweep changes, and calls are made. \<open>core\<close> is the part of the state that observers do not touch.
\<close>

definition core :: "reconciler \<Rightarrow> ticker \<times> bool \<times> reconcile_sweep list \<times> reconcile_call list" where
  "core st = (rc_timer st, rc_running st, rc_inflight st, rc_calls st)"

definition advance :: "reconciler \<Rightarrow> nat \<Rightarrow> reconcile_sweep \<Rightarrow> reconcile_call list \<Rightarrow> reconciler \<Rightarrow> bool" where
  "advance st i sw cs st' \<longleftrightarrow> rs_by_timer sw = rs_by_timer (rc_inflight st ! i) \<and>
    core st' = (rc_timer st, rc_running st \<and> rs_phase sw \<noteq> Sweep_over, (rc_inflight st)[i := sw], rc_calls st @ cs)"

lemma core_simps [simp]:
  "core (increment nm n st) = core st" "core (report_reconciler opts e st) = core st" "core (reportLeaseLost opts st) = core st"
  "core (st\<lparr>rc_lease_state := l\<rparr>) = core st" "core (st\<lparr>rc_lease_held := b\<rparr>) = core st" "core (st\<lparr>rc_lease_unavailable := b\<rparr>) = core st"
  "core (st\<lparr>rc_last_successful_sweep_at := x\<rparr>) = core st"
  by (auto simp: core_def increment_def report_reconciler_def reportLeaseLost_def split: option.split)

lemma core_set_sweep [simp]:
  "core (set_sweep i f st) = (rc_timer st, rc_running st, (rc_inflight st)[i := f (rc_inflight st ! i)], rc_calls st)"
  "core (called c st) = (rc_timer st, rc_running st, rc_inflight st, rc_calls st @ [c])"
  by (simp_all add: core_def set_sweep_def called_def)

lemma coreD:
  assumes "core st = (t, b, sws, cs)"
  shows "rc_timer st = t" and "rc_running st = b" and "rc_inflight st = sws" and "rc_calls st = cs"
  using assms by (simp_all add: core_def)

text \<open>The end of a sweep that has the state \<open>core st\<close>.\<close>

definition ended :: "reconcile_sweep \<Rightarrow> reconcile_sweep" where
  "ended sw = sw\<lparr>rs_phase := (if rs_acquired sw then Releasing else Sweep_over)\<rparr>"

lemma finish_advances:
  assumes "core st1 = (rc_timer st, rc_running st, (rc_inflight st)[i := sw], rc_calls st)" and "i < length (rc_inflight st)"
    and "rs_by_timer sw = rs_by_timer (rc_inflight st ! i)"
  shows "advance st i (ended sw) (if rs_acquired sw then [Call_release] else []) (finish i st1)"
  using coreD [OF assms(1)] assms(2-3)
  by (simp add: finish_def over_def advance_def ended_def core_def called_def set_sweep_def)

lemma finish_here:
  assumes "core st1 = core st" and "i < length (rc_inflight st)"
  shows "advance st i (ended (rc_inflight st ! i)) (if rs_acquired (rc_inflight st ! i) then [Call_release] else []) (finish i st1)"
  using finish_advances [of st1 st i "rc_inflight st ! i"] assms by (simp add: core_def)

text \<open>A lease in hand, the events by which one is granted or found lost, and what a sweep knows in its phases.\<close>

definition hand :: "reconcile_sweep \<Rightarrow> bool" where
  "hand sw \<longleftrightarrow> rs_acquired sw \<and> rs_phase sw \<noteq> Releasing \<and> rs_phase sw \<noteq> Sweep_over"

definition active :: "reconcile_sweep \<Rightarrow> bool" where
  "active sw \<longleftrightarrow> rs_phase sw \<noteq> Sweep_over"

definition granted :: "reconcile_event \<Rightarrow> bool" where
  "granted e = (case e of Rc_acquired i (Inr b) \<Rightarrow> b | _ \<Rightarrow> False)"

definition lost :: "reconcile_event \<Rightarrow> bool" where
  "lost e = (case e of Rc_verified i (Inr b) \<Rightarrow> \<not> b | _ \<Rightarrow> False)"

definition releases :: "reconcile_call list \<Rightarrow> nat" where
  "releases cs = length (filter (\<lambda>c. c = Call_release) cs)"

definition sweep_ok :: "reconcile_sweep \<Rightarrow> bool" where
  "sweep_ok sw \<longleftrightarrow> (rs_phase sw = Acquiring \<longrightarrow> \<not> rs_acquired sw) \<and> (rs_phase sw = Verifying \<longrightarrow> rs_acquired sw)"

text \<open>The books of one reply.\<close>

definition balanced :: "reconcile_event \<Rightarrow> reconcile_sweep \<Rightarrow> reconcile_sweep \<Rightarrow> reconcile_call list \<Rightarrow> bool" where
  "balanced e sw sw' cs \<longleftrightarrow> sweep_ok sw' \<and> active sw \<and>
    releases cs + of_bool (hand sw') + of_bool (lost e) = of_bool (hand sw) + of_bool (granted e)"

lemmas book_defs = balanced_def sweep_ok_def active_def hand_def releases_def ended_def granted_def lost_def

definition reply_index :: "reconcile_event \<Rightarrow> nat option" where
  "reply_index e = (case e of Rc_acquired i _ \<Rightarrow> Some i | Rc_verified i _ \<Rightarrow> Some i | Rc_read i _ _ \<Rightarrow> Some i
    | Rc_reconciled i _ _ \<Rightarrow> Some i | Rc_released i _ \<Rightarrow> Some i | _ \<Rightarrow> None)"

lemma advanceI:
  assumes "core st' = (rc_timer st, rc_running st, (rc_inflight st)[i := sw], rc_calls st @ cs)"
    and "rs_by_timer sw = rs_by_timer (rc_inflight st ! i)" and "rs_phase sw \<noteq> Sweep_over"
  shows "advance st i sw cs st'"
  using assms by (simp add: advance_def)

lemma acquired_advances:
  assumes i: "i < length (rc_inflight st)" "rs_phase (rc_inflight st ! i) = Acquiring" "\<not> rs_acquired (rc_inflight st ! i)"
  shows "\<exists>sw cs. advance st i sw cs (acquired opts i reply st) \<and> balanced (Rc_acquired i reply) (rc_inflight st ! i) sw cs"
proof (cases reply)
  case (Inl e)
  let ?sw = "rc_inflight st ! i"
  have "advance st i (ended ?sw) [] (acquired opts i reply st)"
    using finish_here [OF _ i(1)] i(3) Inl by (simp add: acquired_def sweep_failed_def)
  moreover have "balanced (Rc_acquired i reply) ?sw (ended ?sw) []" using i Inl by (simp add: book_defs)
  ultimately show ?thesis by blast
next
  case (Inr b)
  show ?thesis
  proof (cases b)
    case False
    let ?sw = "rc_inflight st ! i"
    have "advance st i (ended ?sw) [] (acquired opts i reply st)"
      using finish_here [OF _ i(1)] i(3) Inr False by (simp add: acquired_def)
    moreover have "balanced (Rc_acquired i reply) ?sw (ended ?sw) []" using i Inr False by (simp add: book_defs)
    ultimately show ?thesis by blast
  next
    case True
    let ?sw = "(rc_inflight st ! i)\<lparr>rs_acquired := True, rs_phase := (if ro_verify opts then Verifying else Reading)\<rparr>"
    let ?c = "if ro_verify opts then Call_verify else Call_list"
    have "advance st i ?sw [?c] (acquired opts i reply st)"
      by (rule advanceI) (use i Inr True in \<open>simp_all add: acquired_def read_tasks_def core_def called_def set_sweep_def Let_def\<close>)
    moreover have "balanced (Rc_acquired i reply) (rc_inflight st ! i) ?sw [?c]" using i Inr True by (simp add: book_defs)
    ultimately show ?thesis by blast
  qed
qed

lemma verified_advances:
  assumes i: "i < length (rc_inflight st)" "rs_phase (rc_inflight st ! i) = Verifying" "rs_acquired (rc_inflight st ! i)"
  shows "\<exists>sw cs. advance st i sw cs (verified opts i reply st) \<and> balanced (Rc_verified i reply) (rc_inflight st ! i) sw cs"
proof (cases reply)
  case (Inl e)
  let ?sw = "rc_inflight st ! i"
  have "advance st i (ended ?sw) [Call_release] (verified opts i reply st)"
    using finish_here [OF _ i(1)] i(3) Inl by (simp add: verified_def sweep_failed_def)
  moreover have "balanced (Rc_verified i reply) ?sw (ended ?sw) [Call_release]" using i Inl by (simp add: book_defs)
  ultimately show ?thesis by blast
next
  case (Inr b)
  show ?thesis
  proof (cases b)
    case True
    let ?sw = "(rc_inflight st ! i)\<lparr>rs_phase := Reading\<rparr>"
    have "advance st i ?sw [Call_list] (verified opts i reply st)"
      by (rule advanceI) (use i Inr True in \<open>simp_all add: verified_def read_tasks_def core_def called_def set_sweep_def\<close>)
    moreover have "balanced (Rc_verified i reply) (rc_inflight st ! i) ?sw [Call_list]" using i Inr True by (simp add: book_defs)
    ultimately show ?thesis by blast
  next
    case False
    let ?sw = "(rc_inflight st ! i)\<lparr>rs_acquired := False\<rparr>"
    have "advance st i (ended ?sw) [] (verified opts i reply st)"
      using finish_advances [of _ st i ?sw] i Inr False by (simp add: verified_def)
    moreover have "balanced (Rc_verified i reply) (rc_inflight st ! i) (ended ?sw) []" using i Inr False by (simp add: book_defs)
    ultimately show ?thesis by blast
  qed
qed

lemma next_task_advances:
  assumes "core st1 = (rc_timer st, rc_running st, (rc_inflight st)[i := sw], rc_calls st)" and i: "i < length (rc_inflight st)"
    and sw: "rs_by_timer sw = rs_by_timer (rc_inflight st ! i)" "rs_acquired sw = rs_acquired (rc_inflight st ! i)"
    and ph: "rs_phase (rc_inflight st ! i) \<in> {Reading} \<union> range Reconciling" and e: "\<not> granted e" "\<not> lost e"
  shows "\<exists>sw' cs. advance st i sw' cs (next_task i ts at st1) \<and> balanced e (rc_inflight st ! i) sw' cs"
proof (cases ts)
  case Nil
  let ?cs = "if rs_acquired sw then [Call_release] else []"
  have "advance st i (ended sw) ?cs (next_task i ts at st1)"
    using finish_advances [of "st1\<lparr>rc_last_successful_sweep_at := Some at\<rparr>" st i sw] assms(1) i sw(1) Nil by (simp add: next_task_def)
  moreover have "balanced e (rc_inflight st ! i) (ended sw) ?cs" using sw ph e by (auto simp: book_defs)
  ultimately show ?thesis by blast
next
  case (Cons t us)
  let ?sw = "sw\<lparr>rs_phase := Reconciling ts\<rparr>"
  have "advance st i ?sw [Call_reconcile t] (next_task i ts at st1)"
    by (rule advanceI) (use coreD [OF assms(1)] i sw(1) Cons in \<open>simp_all add: next_task_def core_def called_def set_sweep_def\<close>)
  moreover have "balanced e (rc_inflight st ! i) ?sw [Call_reconcile t]" using sw ph e by (auto simp: book_defs)
  ultimately show ?thesis by blast
qed

lemma reply_advances:
  assumes step: "reconcile_step opts e st = Some st'" and e: "reply_index e = Some i" and ok: "list_all sweep_ok (rc_inflight st)"
  shows "i < length (rc_inflight st)" and "\<exists>sw cs. advance st i sw cs st' \<and> balanced e (rc_inflight st ! i) sw cs"
proof -
  have i: "i < length (rc_inflight st)"
    using step e by (auto simp: reply_index_def reconcile_step_def sweep_phase_def split: reconcile_event.splits if_splits)
  then have swok: "sweep_ok (rc_inflight st ! i)" using ok by (simp add: list_all_length)
  have ph: "sweep_phase i st = Some (rs_phase (rc_inflight st ! i))" using i by (simp add: sweep_phase_def)
  have here: "core st = (rc_timer st, rc_running st, (rc_inflight st)[i := rc_inflight st ! i], rc_calls st)" by (simp add: core_def)
  show "i < length (rc_inflight st)" by (rule i)
  show "\<exists>sw cs. advance st i sw cs st' \<and> balanced e (rc_inflight st ! i) sw cs"
  proof (cases e)
    case (Rc_acquired j reply)
    then show ?thesis
      using step e ph swok acquired_advances [OF i] by (auto simp: reply_index_def reconcile_step_def sweep_ok_def split: if_splits)
  next
    case (Rc_verified j reply)
    then show ?thesis
      using step e ph swok verified_advances [OF i] by (auto simp: reply_index_def reconcile_step_def sweep_ok_def split: if_splits)
  next
    case (Rc_read j reply at)
    then have [simp]: "j = i" using e by (simp add: reply_index_def)
    have p: "rs_phase (rc_inflight st ! i) = Reading" using step ph Rc_read by (simp add: reconcile_step_def split: if_splits)
    have no: "\<not> granted e" "\<not> lost e" using Rc_read by (simp_all add: granted_def lost_def)
    show ?thesis
    proof (cases reply)
      case (Inl err)
      let ?sw = "rc_inflight st ! i" and ?cs = "if rs_acquired (rc_inflight st ! i) then [Call_release] else []"
      have "advance st i (ended ?sw) ?cs st'"
        using finish_here [of "report_reconciler opts err (increment ''rhinoq_reconciler_sweep_failed_total'' 1 st)" st i] i step ph p Rc_read Inl
        by (simp add: reconcile_step_def sweep_failed_def)
      moreover have "balanced e ?sw (ended ?sw) ?cs" using p no by (auto simp: book_defs)
      ultimately show ?thesis by blast
    next
      case (Inr ts)
      then have "st' = next_task i ts at (increment ''rhinoq_reconciler_task_selected_total'' (int (length ts)) st)"
        using step ph p Rc_read by (simp add: reconcile_step_def)
      then show ?thesis using next_task_advances [OF _ i _ _ _ no, of "increment _ _ st" "rc_inflight st ! i" ts at] here p by simp
    qed
  next
    case (Rc_reconciled j reply at)
    then have [simp]: "j = i" using e by (simp add: reply_index_def)
    obtain t ts where p: "rs_phase (rc_inflight st ! i) = Reconciling (t # ts)" and st': "st' = next_task i ts at (reconciled_task opts i reply st)"
      using step ph Rc_reconciled by (auto simp: reconcile_step_def split: reconcile_phase.splits list.splits)
    have no: "\<not> granted e" "\<not> lost e" using Rc_reconciled by (simp_all add: granted_def lost_def)
    show ?thesis
    proof (cases reply)
      case (Inl err)
      then show ?thesis
        using next_task_advances [OF _ i _ _ _ no, of "reconciled_task opts i reply st" "rc_inflight st ! i" ts at] here p st'
        by (simp add: reconciled_task_def)
    next
      case (Inr u)
      let ?sw = "(rc_inflight st ! i)\<lparr>rs_reconciled := rs_reconciled (rc_inflight st ! i) + 1\<rparr>"
      have "core (reconciled_task opts i reply st) = (rc_timer st, rc_running st, (rc_inflight st)[i := ?sw], rc_calls st)"
        using Inr by (simp add: reconciled_task_def)
      then show ?thesis using next_task_advances [OF _ i _ _ _ no, of "reconciled_task opts i reply st" ?sw ts at] p st' by simp
    qed
  next
    case (Rc_released j reply)
    then have [simp]: "j = i" using e by (simp add: reply_index_def)
    have p: "rs_phase (rc_inflight st ! i) = Releasing" and st': "st' = over i (case reply of Inl err \<Rightarrow> report_reconciler opts err st | Inr _ \<Rightarrow> st)"
      using step ph Rc_released by (simp_all add: reconcile_step_def split: if_splits)
    let ?sw = "(rc_inflight st ! i)\<lparr>rs_phase := Sweep_over\<rparr>"
    have "core (case reply of Inl err \<Rightarrow> report_reconciler opts err st | Inr _ \<Rightarrow> st) = core st" by (simp split: sum.split)
    then have "advance st i ?sw [] st'"
      unfolding st' by (simp add: advance_def over_def core_def set_sweep_def)
    moreover have "balanced e (rc_inflight st ! i) ?sw []" using p Rc_released by (simp add: book_defs)
    ultimately show ?thesis by blast
  qed (use e in \<open>simp_all add: reply_index_def\<close>)
qed

section \<open>The schedule of the reconciler\<close>

lemma begin_sweep_core:
  "core (begin_sweep opts b at st) = (rc_timer st, True, rc_inflight st @ [\<lparr>rs_by_timer = b,
      rs_phase = (if rc_running st then Sweep_over else if ro_lease opts then Acquiring else Reading), rs_acquired = False, rs_reconciled = 0\<rparr>],
    rc_calls st @ (if rc_running st then [] else if ro_lease opts then [Call_acquire] else [Call_list]))"
  by (simp add: begin_sweep_def core_def increment_def called_def Let_def)

lemma settle_core:
  assumes "reconcile_step opts (Rc_settle i) st = Some st'"
  shows "i < length (rc_inflight st)" and "rs_phase (rc_inflight st ! i) = Sweep_over"
    and "core st' = (if rs_by_timer (rc_inflight st ! i) then settle_ticker (rc_timer st) else rc_timer st, rc_running st,
      take i (rc_inflight st) @ drop (Suc i) (rc_inflight st), rc_calls st)"
  using assms by (auto simp: reconcile_step_def sweep_phase_def core_def split: if_splits)

lemma stop_core:
  "core (stop_reconciler opts st) = (stop_ticker (rc_timer st), rc_running st, rc_inflight st,
    rc_calls st @ (if rc_lease_held st \<and> ro_lease opts then [Call_release] else []))"
  by (simp add: stop_reconciler_def core_def called_def Let_def)

definition reconciler_sane :: "reconciler \<Rightarrow> bool" where
  "reconciler_sane st \<longleftrightarrow> list_all sweep_ok (rc_inflight st) \<and> length (filter active (rc_inflight st)) = of_bool (rc_running st)"

lemma advance_effect:
  assumes "advance st i sw cs st'" and "i < length (rc_inflight st)"
  shows "rc_timer st' = rc_timer st" and "reconciler_begun st' = reconciler_begun st" and "rc_calls st' = rc_calls st @ cs"
    and "length (filter P (rc_inflight st')) + of_bool (P (rc_inflight st ! i)) = length (filter P (rc_inflight st)) + of_bool (P sw)"
    and "rc_running st' \<longleftrightarrow> rc_running st \<and> active sw" and "set (rc_inflight st') \<subseteq> insert sw (set (rc_inflight st))"
  using assms coreD [of st'] length_filter_update [OF assms(2), of P sw] filter_list_update [of rs_by_timer sw "rc_inflight st" i]
  by (simp_all add: advance_def reconciler_begun_def active_def set_update_subset_insert)

lemma reconciler_step_sane:
  assumes step: "reconcile_step opts e st = Some st'" and ok: "reconciler_sane st"
  shows "reconciler_sane st'"
proof (cases "reply_index e")
  case (Some i)
  have oks: "list_all sweep_ok (rc_inflight st)" using ok by (simp add: reconciler_sane_def)
  obtain sw cs where a: "advance st i sw cs st'" "balanced e (rc_inflight st ! i) sw cs" and i: "i < length (rc_inflight st)"
    using reply_advances [OF step Some oks] by blast
  note E = advance_effect [OF a(1) i]
  have "length (filter active (rc_inflight st')) = of_bool (rc_running st')"
    using E(4) [of active] E(5) ok a(2) by (cases "rc_running st"; cases "active sw") (simp_all add: reconciler_sane_def balanced_def)
  moreover have "list_all sweep_ok (rc_inflight st')" using E(6) oks a(2) by (auto simp: balanced_def list_all_iff)
  ultimately show ?thesis by (simp add: reconciler_sane_def)
next
  case None
  have fresh: "reconciler_sane st'" if "core st' = core (begin_sweep opts b at st1)" "core st1 = (t, rc_running st, rc_inflight st, rc_calls st)" for b at st1 t
    using ok coreD [OF that(2)] coreD [OF that(1) [unfolded begin_sweep_core]]
    by (auto simp: reconciler_sane_def sweep_ok_def active_def)
  show ?thesis
  proof (cases e)
    case (Rc_fire i at)
    then show ?thesis using step fresh by (auto simp: reconcile_step_def core_def split: if_splits)
  next
    case (Rc_sweep at)
    then show ?thesis using step fresh by (auto simp: reconcile_step_def core_def)
  next
    case (Rc_settle i)
    note S = settle_core [OF step [unfolded Rc_settle]]
    have "length (filter active (rc_inflight st')) = length (filter active (rc_inflight st))"
      using filter_delete_nth [OF S(1), of active] S(2) coreD(3) [OF S(3)] by (simp add: active_def)
    moreover have "set (rc_inflight st') \<subseteq> set (rc_inflight st)"
      using coreD(3) [OF S(3)] by (auto dest: in_set_takeD in_set_dropD)
    ultimately show ?thesis using ok coreD(2) [OF S(3)] by (auto simp: reconciler_sane_def list_all_iff)
  qed (use None step ok coreD [OF stop_core] in \<open>auto simp: reply_index_def reconcile_step_def reconciler_sane_def split: sum.splits\<close>)
qed

lemma reconciler_moves:
  assumes step: "reconcile_step opts e st = Some st'" and ok: "reconciler_sane st"
  shows "moves (e = Rc_start) (rc_timer st, reconciler_begun st) (rc_timer st', reconciler_begun st')"
proof (cases "reply_index e")
  case (Some i)
  then obtain sw cs where "advance st i sw cs st'" "i < length (rc_inflight st)"
    using reply_advances [OF step Some] ok by (auto simp: reconciler_sane_def)
  from advance_effect(1,2) [OF this] show ?thesis by (simp add: moves.stay)
next
  case None
  have begun: "reconciler_begun (begin_sweep opts b at st) = reconciler_begun st + of_bool b" "rc_timer (begin_sweep opts b at st) = rc_timer st"
      "reconciler_begun (st\<lparr>rc_timer := t\<rparr>) = reconciler_begun st" for b at st t
    using coreD [OF begin_sweep_core, of opts b at st] by (simp_all add: reconciler_begun_def)
  show ?thesis
  proof (cases e)
    case Rc_start
    then show ?thesis using step by (auto simp: reconcile_step_def reconciler_begun_def intro: moves.intros split: sum.splits)
  next
    case Rc_stop
    then show ?thesis using step moves.stopped coreD(1,3) [OF stop_core, of opts st] by (auto simp: reconcile_step_def reconciler_begun_def)
  next
    case (Rc_fire i at)
    then show ?thesis
      using step moves.fired [of i "rc_timer st"] by (auto simp: reconcile_step_def begun split: if_splits)
  next
    case (Rc_sweep at)
    then show ?thesis using step moves.stay by (auto simp: reconcile_step_def begun)
  next
    case (Rc_settle i)
    note S = settle_core [OF step [unfolded Rc_settle]]
    show ?thesis
      using filter_delete_nth [OF S(1), of rs_by_timer] coreD(1,3) [OF S(3)] moves.stay
        moves.settled [of "e = Rc_start" "rc_timer st" "reconciler_begun st'"]
      by (cases "rs_by_timer (rc_inflight st ! i)") (auto simp: reconciler_begun_def)
  qed (use None in \<open>simp_all add: reply_index_def\<close>)
qed

interpretation reconciler: periodic "reconcile_step opts" new_reconciler "\<lambda>e. e = Rc_start" rc_timer reconciler_begun reconciler_sane for opts
  by unfold_locales (erule (1) reconciler_moves | erule (1) reconciler_step_sane | simp add: new_reconciler_def reconciler_begun_def reconciler_sane_def)+

section \<open>The lease\<close>

definition in_hand :: "reconciler \<Rightarrow> nat" where
  "in_hand st = length (filter hand (rc_inflight st))"

text \<open>One event: what it adds to the leases granted, lost, in hand and given back.\<close>

lemma lease_books:
  assumes step: "reconcile_step opts e st = Some st'" and ok: "reconciler_sane st"
  shows "of_bool (granted e) + (releases (rc_calls st) + in_hand st) \<le> releases (rc_calls st') + in_hand st' + of_bool (lost e) \<and>
    releases (rc_calls st') + in_hand st' + of_bool (lost e) \<le> of_bool (granted e) + (releases (rc_calls st) + in_hand st) + of_bool (e = Rc_stop)"
proof (cases "reply_index e")
  case (Some i)
  then obtain sw cs where a: "advance st i sw cs st'" "balanced e (rc_inflight st ! i) sw cs" and i: "i < length (rc_inflight st)"
    using reply_advances [OF step Some] ok by (auto simp: reconciler_sane_def)
  have "releases (rc_calls st') = releases (rc_calls st) + releases cs"
    using advance_effect(3) [OF a(1) i] by (simp add: releases_def)
  moreover have "in_hand st' + of_bool (hand (rc_inflight st ! i)) = in_hand st + of_bool (hand sw)"
    using advance_effect(4) [OF a(1) i, of hand] by (simp add: in_hand_def)
  ultimately show ?thesis using a(2) by (simp add: balanced_def)
next
  case None
  have no: "\<not> granted e" "\<not> lost e"
    using None by (auto simp: granted_def lost_def reply_index_def split: reconcile_event.splits sum.splits)
  have begun: "in_hand (begin_sweep opts b at st) = in_hand st" "releases (rc_calls (begin_sweep opts b at st)) = releases (rc_calls st)" for b at st
    using coreD [OF begin_sweep_core, of opts b at st] by (simp_all add: in_hand_def hand_def releases_def)
  have timer: "in_hand (st\<lparr>rc_timer := t\<rparr>) = in_hand st" for st t by (simp add: in_hand_def)
  show ?thesis
  proof (cases e)
    case Rc_stop
    then show ?thesis
      using step no coreD(3,4) [OF stop_core, of opts st] by (auto simp: reconcile_step_def in_hand_def releases_def)
  next
    case (Rc_settle i)
    note S = settle_core [OF step [unfolded Rc_settle]]
    have "in_hand st' = in_hand st"
      using filter_delete_nth [OF S(1), of hand] S(2) coreD(3) [OF S(3)] by (simp add: in_hand_def hand_def)
    then show ?thesis using no coreD(4) [OF S(3)] Rc_settle by simp
  qed (use None step no in \<open>auto simp: reply_index_def reconcile_step_def begun timer split: if_splits sum.splits\<close>)
qed

lemma lease_accounts:
  assumes "run_events (reconcile_step opts) es new_reconciler = Some st"
  shows "count_events granted es \<le> releases (rc_calls st) + in_hand st + count_events lost es \<and>
    releases (rc_calls st) + in_hand st + count_events lost es \<le> count_events granted es + count_events (\<lambda>e. e = Rc_stop) es"
  using assms
proof (induction rule: run_events_induct)
  case init
  then show ?case by (simp add: new_reconciler_def in_hand_def releases_def)
next
  case (step es e st st')
  then show ?case using lease_books [OF step.hyps(2) reconciler.always_sane [OF step.hyps(1)]] by simp
qed

text \<open>
  C36: The reconciler sweeps alone and gives its lease back. In every history of calls, timers and replies at most one
  sweep is at work. Once no sweep is at work, every lease that was granted and not found lost was released, and it is
  released more often only where \<open>stop\<close> was called.
\<close>

theorem reconciler_lease_returned:
  assumes "run_events (reconcile_step opts) es new_reconciler = Some st"
  shows "length (filter active (rc_inflight st)) \<le> 1 \<and>
    (\<not> rc_running st \<longrightarrow>
      count_events granted es \<le> releases (rc_calls st) + count_events lost es \<and>
      releases (rc_calls st) + count_events lost es \<le> count_events granted es + count_events (\<lambda>e. e = Rc_stop) es)"
proof -
  have one: "length (filter active (rc_inflight st)) = of_bool (rc_running st)"
    using reconciler.always_sane [OF assms] by (simp add: reconciler_sane_def)
  have "in_hand st = 0" if "\<not> rc_running st"
  proof -
    have "filter active (rc_inflight st) = []" using one that by simp
    then show ?thesis by (auto simp: in_hand_def filter_empty_conv hand_def active_def)
  qed
  then show ?thesis using one lease_accounts [OF assms] by auto
qed

definition leased :: reconciler_options where
  "leased = \<lparr>ro_lease = True, ro_verify = False, ro_on_error = None, ro_on_lease_lost = None\<rparr>"

text \<open>A sweep is at its only task when \<open>stop\<close> is called.\<close>

definition stopped_sweep :: "reconcile_event list" where
  "stopped_sweep = [Rc_sweep 10, Rc_acquired 0 (Inr True), Rc_read 0 (Inr [''t1'']) 20, Rc_stop, Rc_reconciled 0 (Inr ()) 30, Rc_released 0 (Inr ())]"

theorem reconciler_lease_returned_witness:
  "\<exists>st. run_events (reconcile_step leased) stopped_sweep new_reconciler = Some st \<and> \<not> rc_running st \<and>
    count_events granted stopped_sweep = 1 \<and> releases (rc_calls st) \<le> 2 \<and>
    rc_calls st = [Call_acquire, Call_list, Call_reconcile ''t1'', Call_release, Call_release] \<and> rc_lease_state st = Unowned"
proof -
  have "case run_events (reconcile_step leased) stopped_sweep new_reconciler of None \<Rightarrow> False | Some st \<Rightarrow> \<not> rc_running st \<and>
      rc_calls st = [Call_acquire, Call_list, Call_reconcile ''t1'', Call_release, Call_release] \<and> rc_lease_state st = Unowned"
    by code_simp
  then obtain st where st: "run_events (reconcile_step leased) stopped_sweep new_reconciler = Some st" "\<not> rc_running st"
      "rc_calls st = [Call_acquire, Call_list, Call_reconcile ''t1'', Call_release, Call_release]" "rc_lease_state st = Unowned"
    by (auto split: option.splits)
  have "count_events granted stopped_sweep = 1" "count_events (\<lambda>e. e = Rc_stop) stopped_sweep = 1" by code_simp+
  then show ?thesis using reconciler_lease_returned [OF st(1)] st by auto
qed

section \<open>The schedule\<close>

text \<open>
  C37: The schedule of a sweeper. Both the reconciler and the expiry scheduler, once started, have a timer set or a sweep of the
  timer on the way until \<open>stop\<close> is called, whatever the sweeps and callbacks answer; and if \<open>start\<close> was called
  once, no timer is left after \<open>stop\<close>, so that no sweep begins any more by itself.
\<close>

theorem sweepers_keep_schedule:
  assumes "run_events (reconcile_step opts) es new_reconciler = Some st" and "run_events expiry_step xes new_expiry_scheduler = Some xst"
  shows "ticking (rc_timer st, reconciler_begun st) \<and> ticking (xp_timer xst, expiry_begun xst) \<and>
    (count_events (\<lambda>e. e = Rc_start) es \<le> 1 \<and> tk_stopped (rc_timer st) \<longrightarrow> tk_pending (rc_timer st) = []) \<and>
    (count_events (\<lambda>e. e = Xp_start) xes \<le> 1 \<and> tk_stopped (xp_timer xst) \<longrightarrow> tk_pending (xp_timer xst) = [])"
  using reconciler.schedule_kept [OF assms(1)] expiry.schedule_kept [OF assms(2)]
    reconciler.stopped_for_good [OF assms(1)] expiry.stopped_for_good [OF assms(2)] by blast

definition failing_round :: "reconcile_event list" where
  "failing_round = [Rc_start, Rc_fire 0 10, Rc_acquired 0 (Inl (Js_error ''down'')), Rc_settle 0]"

definition expiry_round :: "expiry_event list" where
  "expiry_round = [Xp_start, Xp_fire 0, Xp_expired 0 (Inr 3), Xp_announced 0 (Inl (Js_error ''down'')), Xp_settle 0, Xp_stop]"

theorem sweepers_keep_schedule_witness:
  "\<exists>st xst. run_events (reconcile_step leased) failing_round new_reconciler = Some st \<and>
    run_events expiry_step expiry_round new_expiry_scheduler = Some xst \<and>
    ticking (rc_timer st, reconciler_begun st) \<and> \<not> tk_stopped (rc_timer st) \<and> tk_next (rc_timer st) = 2 \<and>
    tk_stopped (xp_timer xst) \<and> tk_pending (xp_timer xst) = []"
proof -
  have "case run_events (reconcile_step leased) failing_round new_reconciler of None \<Rightarrow> False
      | Some st \<Rightarrow> \<not> tk_stopped (rc_timer st) \<and> tk_next (rc_timer st) = 2"
    "case run_events expiry_step expiry_round new_expiry_scheduler of None \<Rightarrow> False | Some xst \<Rightarrow> tk_stopped (xp_timer xst)"
    "count_events (\<lambda>e. e = Xp_start) expiry_round \<le> 1"
    by code_simp+
  then show ?thesis using sweepers_keep_schedule [of leased failing_round _ expiry_round] by (fastforce split: option.splits)
qed

text \<open>
  A second \<open>start\<close> while a sweep of the timer is on the way sets a second timer, of which \<open>stop\<close> does not know: it fires
  after \<open>stop\<close> and begins a sweep.
\<close>

definition restarted :: "reconcile_event list" where
  "restarted = [Rc_start, Rc_fire 0 10, Rc_start, Rc_acquired 0 (Inr False), Rc_settle 0, Rc_stop, Rc_fire 1 20, Rc_acquired 0 (Inr True), Rc_read 0 (Inr [''t1'']) 30]"

lemma restarted_sweeps_after_stop:
  "map_option (\<lambda>st. (tk_stopped (rc_timer st), rc_calls st)) (run_events (reconcile_step leased) restarted new_reconciler) =
    Some (True, [Call_acquire, Call_acquire, Call_list, Call_reconcile ''t1''])"
  by code_simp

end
