(* ===== verification/Capability_Token.thy ===== *)
theory Capability_Token
  imports Client
begin

text \<open>
  Capability tokens of waitpoints (\<open>tasks/waitpoint-token.ts\<close>): signed claims as \<open>payload.signature\<close>. \<open>hmac\<close> stands for
  HMAC-SHA-256 of the platform, on lists of bytes; of it the signer only needs that a signature has 32 bytes. A character has a
  code below 256, which UTF-8 writes as one or two bytes.
\<close>

section \<open>UTF-8 and base64url\<close>

fun utf8_encode :: "string \<Rightarrow> nat list" where
  "utf8_encode [] = []"
| "utf8_encode (c # cs) = (let n = of_char c in if n < 128 then [n] else [192 + n div 64, 128 + n mod 64]) @ utf8_encode cs"

text \<open>The decoder on texts the encoder writes; for other bytes a question mark stands where the platform puts U+FFFD.\<close>

fun utf8_decode :: "nat list \<Rightarrow> string" where
  "utf8_decode [] = []"
| "utf8_decode (a # bs) = (if a < 128 then char_of a # utf8_decode bs
    else (case bs of b # r \<Rightarrow> if a \<in> {194, 195} \<and> b \<ge> 128 \<and> b < 192 then char_of ((a - 192) * 64 + (b - 128)) # utf8_decode r
        else CHR ''?'' # utf8_decode bs | [] \<Rightarrow> [CHR ''?'']))"

fun base64_digits :: "nat list \<Rightarrow> nat list" where
  "base64_digits [] = []"
| "base64_digits [a] = [a div 4, (a mod 4) * 16]"
| "base64_digits [a, b] = [a div 4, (a mod 4) * 16 + b div 16, (b mod 16) * 4]"
| "base64_digits (a # b # c # r) =
    [a div 4, (a mod 4) * 16 + b div 16, (b mod 16) * 4 + c div 64, c mod 64] @ base64_digits r"

fun base64_bytes :: "nat list \<Rightarrow> nat list" where
  "base64_bytes (p # q # r # s # ds) = [p * 4 + q div 16, (q mod 16) * 16 + r div 4, (r mod 4) * 64 + s] @ base64_bytes ds"
| "base64_bytes [p, q, r] = [p * 4 + q div 16, (q mod 16) * 16 + r div 4]"
| "base64_bytes [p, q] = [p * 4 + q div 16]"
| "base64_bytes ds = []"

definition base64_char :: "nat \<Rightarrow> char" where
  "base64_char n = char_of (if n < 26 then 65 + n else if n < 52 then 71 + n else if n < 62 then n - 4 else if n = 62 then 45 else 95)"

text \<open>The decoder of the platform takes both alphabets and skips what is in neither.\<close>

definition base64_value :: "char \<Rightarrow> nat option" where
  "base64_value c = (let n = of_char c in
    if 65 \<le> n \<and> n \<le> 90 then Some (n - 65) else if 97 \<le> n \<and> n \<le> 122 then Some (n - 71)
    else if 48 \<le> n \<and> n \<le> 57 then Some (n + 4) else if n = 45 \<or> n = 43 then Some 62
    else if n = 95 \<or> n = 47 then Some 63 else None)"

definition base64url :: "nat list \<Rightarrow> string" where
  "base64url bytes = map base64_char (base64_digits bytes)"

definition fromBase64url :: "string \<Rightarrow> nat list" where
  "fromBase64url x = base64_bytes (List.map_filter base64_value x)"

lemma utf8_round_trip: "utf8_decode (utf8_encode x) = x"
proof (induction x)
  case (Cons c cs)
  have n: "of_char c < (256 :: nat)" by simp
  show ?case
  proof (cases "of_char c < (128 :: nat)")
    case False
    define k :: nat where "k = of_char c"
    have "k \<ge> 128" "k < 256" using False n by (simp_all add: k_def)
    then have "2 \<le> k div 64" "k div 64 < 4" using div_le_mono [of 128 k 64] by simp_all
    then have "192 + of_char c div 64 \<in> {194, 195 :: nat}" "(of_char c div 64) * 64 + of_char c mod 64 = (of_char c :: nat)"
      unfolding k_def by auto
    then show ?thesis using False Cons by (auto simp: Let_def)
  qed (simp add: Cons Let_def)
qed simp

lemma utf8_bytes: "list_all (\<lambda>b. b < 256) (utf8_encode x)"
proof (induction x)
  case (Cons c cs)
  have "of_char c < (4 :: nat) * 64" by simp
  then have "of_char c div 64 < (4 :: nat)" by (rule less_mult_imp_div_less)
  moreover have "of_char c mod 64 < (128 :: nat)" using mod_less_divisor [of 64 "of_char c :: nat"] by linarith
  ultimately show ?case using Cons by (simp add: Let_def)
qed simp

lemma base64_digits_bound: "list_all (\<lambda>b. b < 256) bs \<Longrightarrow> list_all (\<lambda>n. n < 64) (base64_digits bs)"
  by (induction bs rule: base64_digits.induct) auto

lemma base64_bytes_digits: "list_all (\<lambda>b. b < 256) bs \<Longrightarrow> base64_bytes (base64_digits bs) = bs"
  by (induction bs rule: base64_digits.induct) auto

lemma base64_char_code: "n < 64 \<Longrightarrow> (of_char (base64_char n) :: nat) =
    (if n < 26 then 65 + n else if n < 52 then 71 + n else if n < 62 then n - 4 else if n = 62 then 45 else 95)"
  by (simp add: base64_char_def)

lemma base64_value_char: "n < 64 \<Longrightarrow> base64_value (base64_char n) = Some n"
  by (auto simp: base64_value_def base64_char_code Let_def)

lemma base64_values: "list_all (\<lambda>n. n < 64) ns \<Longrightarrow> List.map_filter base64_value (map base64_char ns) = ns"
  by (induction ns) (simp_all add: base64_value_char List.map_filter_simps)

lemma base64_round_trip: "list_all (\<lambda>b. b < 256) bs \<Longrightarrow> fromBase64url (base64url bs) = bs"
  by (simp add: fromBase64url_def base64url_def base64_values base64_digits_bound base64_bytes_digits)

lemma base64_no_dot: "list_all (\<lambda>b. b < 256) bs \<Longrightarrow> CHR ''.'' \<notin> set (base64url bs)"
proof -
  assume "list_all (\<lambda>b. b < 256) bs"
  then have "list_all (\<lambda>n. n < 64) (base64_digits bs)" by (rule base64_digits_bound)
  moreover have "base64_char n \<noteq> CHR ''.''" if "n < 64" for n
    using base64_char_code [OF that] by (auto split: if_splits)
  ultimately have "base64_char n \<noteq> CHR ''.''" if "n \<in> set (base64_digits bs)" for n using that by (simp add: list_all_iff)
  then show ?thesis unfolding base64url_def by fastforce
qed

lemma base64url_Nil [simp]: "base64url bs = [] \<longleftrightarrow> bs = []"
  by (cases bs rule: base64_digits.cases) (simp_all add: base64url_def)

section \<open>Claims\<close>

record token_claims =
  wt_waitpoint_id :: string
  wt_task_id :: string
  wt_tenant_id :: string
  wt_owner_id :: string
  wt_action :: string
  wt_expires_at :: int
  wt_nonce :: string

definition claims_object :: "token_claims \<Rightarrow> js_value" where
  "claims_object c = Obj [(''waitpointId'', Str (wt_waitpoint_id c)), (''taskId'', Str (wt_task_id c)), (''tenantId'', Str (wt_tenant_id c)),
    (''ownerId'', Str (wt_owner_id c)), (''action'', Str (wt_action c)), (''expiresAt'', Num (wt_expires_at c)),
    (''nonce'', Str (wt_nonce c)), (''schemaVersion'', Num 2)]"

text \<open>
  \<open>!value.name?.trim()\<close>: missing and blank texts are refused alike; a value that is not a text has no \<open>trim\<close>, which is a
  \<open>TypeError\<close> too.
\<close>

definition claim_text :: "string \<Rightarrow> js_value \<Rightarrow> string option" where
  "claim_text k v = (case own_property k v of Some (Str x) \<Rightarrow> if blank_text x then None else Some x | _ \<Rightarrow> None)"

definition invalid_claims :: client_error where
  "invalid_claims = Type_error ''valid waitpoint token claims are required''"

definition validateClaims :: "js_value \<Rightarrow> client_error + token_claims" where
  "validateClaims v = (
    if own_property ''schemaVersion'' v \<noteq> Some (Num 2) then Inl invalid_claims
    else case (claim_text ''waitpointId'' v, claim_text ''taskId'' v, claim_text ''tenantId'' v, claim_text ''ownerId'' v,
        claim_text ''nonce'' v, own_property ''action'' v, own_property ''expiresAt'' v) of
      (Some w, Some t, Some n, Some u, Some x, Some (Str a), Some (Num e)) \<Rightarrow>
        if a \<in> {''read'', ''resolve''} \<and> \<bar>e\<bar> \<le> 9007199254740991 \<and> e > 0
        then Inr \<lparr>wt_waitpoint_id = w, wt_task_id = t, wt_tenant_id = n, wt_owner_id = u, wt_action = a, wt_expires_at = e, wt_nonce = x\<rparr>
        else Inl invalid_claims
    | _ \<Rightarrow> Inl invalid_claims)"

section \<open>Signing and verifying\<close>

definition signer_key :: "nat list \<Rightarrow> client_error + nat list" where
  "signer_key secret = (if length secret < 32 then Inl (Range_error ''waitpoint token secret must be at least 32 bytes'') else Inr secret)"

definition sign :: "(nat list \<Rightarrow> nat list \<Rightarrow> nat list) \<Rightarrow> nat list \<Rightarrow> token_claims \<Rightarrow> client_error + string" where
  "sign hmac key c = (case validateClaims (claims_object c) of
      Inl e \<Rightarrow> Inl e
    | Inr _ \<Rightarrow> let payload = base64url (utf8_encode (print_value (claims_object c))) in
        Inr (payload @ ''.'' @ base64url (hmac key (utf8_encode payload))))"

fun split_dots :: "string \<Rightarrow> string list" where
  "split_dots [] = [[]]"
| "split_dots (c # cs) = (if c = CHR ''.'' then [] # split_dots cs
    else (case split_dots cs of x # xs \<Rightarrow> (c # x) # xs | [] \<Rightarrow> [[c]]))"

text \<open>\<open>const [payload, signature, extra]\<close>: a part that is not there is taken as empty, since only its truth counts.\<close>

definition token_parts :: "string \<Rightarrow> string \<times> string \<times> string" where
  "token_parts token = (case split_dots token of
      p # s # x # _ \<Rightarrow> (p, s, x) | [p, s] \<Rightarrow> (p, s, []) | [p] \<Rightarrow> (p, [], []) | [] \<Rightarrow> ([], [], []))"

definition verify_token ::
  "(nat list \<Rightarrow> nat list \<Rightarrow> nat list) \<Rightarrow> nat list \<Rightarrow> string \<Rightarrow> string option \<Rightarrow> int \<Rightarrow> client_error + token_claims" where
  "verify_token hmac key token expectedAction now = (case token_parts token of (payload, signature, extra) \<Rightarrow>
    if payload = [] \<or> signature = [] \<or> extra \<noteq> [] then Inl (Js_error ''invalid waitpoint token'')
    else if fromBase64url signature \<noteq> hmac key (utf8_encode payload) then Inl (Js_error ''invalid waitpoint token signature'')
    else case parse_json (utf8_decode (fromBase64url payload)) of
      None \<Rightarrow> Inl (Named_error ''SyntaxError'' ''JSON.parse'')
    | Some v \<Rightarrow> (case validateClaims v of
        Inl e \<Rightarrow> Inl e
      | Inr c \<Rightarrow>
          if wt_expires_at c \<le> now then Inl (Js_error ''waitpoint token expired'')
          else if truthy expectedAction \<noteq> None \<and> truthy expectedAction \<noteq> Some (wt_action c) then Inl (Js_error ''waitpoint token action mismatch'')
          else Inr c))"

section \<open>Round trip\<close>

lemma split_dots_none: "CHR ''.'' \<notin> set x \<Longrightarrow> split_dots x = [x]"
  by (induction x) auto

lemma split_dots_append: "CHR ''.'' \<notin> set x \<Longrightarrow> split_dots (x @ CHR ''.'' # y) = x # split_dots y"
  by (induction x) auto

lemma normal_claims [simp]: "normal (claims_object c) = claims_object c"
  by (simp add: claims_object_def)

lemma parse_claims: "parse_json (print_value (claims_object c)) = Some (claims_object c)"
proof -
  have "stringify (claims_object c) = Some (print_value (claims_object c))" by (simp add: stringify_def claims_object_def)
  then show ?thesis using parse_stringify by fastforce
qed

text \<open>Whether the claims are accepted is decided before the signature is made.\<close>

definition valid_claims :: "token_claims \<Rightarrow> bool" where
  "valid_claims c \<longleftrightarrow> list_all (\<lambda>x. \<not> blank_text x) [wt_waitpoint_id c, wt_task_id c, wt_tenant_id c, wt_owner_id c, wt_nonce c] \<and>
    wt_action c \<in> {''read'', ''resolve''} \<and> 1 \<le> wt_expires_at c \<and> wt_expires_at c \<le> 9007199254740991"

lemma validateClaims_iff: "validateClaims (claims_object c) = (if valid_claims c then Inr c else Inl invalid_claims)"
  by (auto simp: validateClaims_def claims_object_def own_property_def claim_text_def valid_claims_def)

text \<open>
  C38: A signed capability token. \<open>sign\<close> issues a token exactly for valid claims, and \<open>verify\<close> with the same
  key gives back exactly the claims signed, unless the token has expired or is for another action, which are the only
  errors left. The parts after an empty third one do not count.
\<close>

theorem token_round_trip:
  assumes mac: "\<And>d. length (hmac key d) = 32 \<and> list_all (\<lambda>b. b < 256) (hmac key d)"
  shows "(case sign hmac key c of Inl e \<Rightarrow> \<not> valid_claims c \<and> e = invalid_claims
    | Inr token \<Rightarrow> valid_claims c \<and> (\<forall>more. more = [] \<or> (\<exists>r. more = ''..'' @ r) \<longrightarrow>
        verify_token hmac key (token @ more) action now =
          (if wt_expires_at c \<le> now then Inl (Js_error ''waitpoint token expired'')
           else if truthy action \<noteq> None \<and> truthy action \<noteq> Some (wt_action c) then Inl (Js_error ''waitpoint token action mismatch'')
           else Inr c)))"
proof (cases "valid_claims c")
  case True
  let ?payload = "base64url (utf8_encode (print_value (claims_object c)))"
  let ?mac = "hmac key (utf8_encode ?payload)"
  have ne: "?payload \<noteq> []" "base64url ?mac \<noteq> []"
    using mac [of "utf8_encode ?payload"] by (auto simp: claims_object_def)
  have dots: "CHR ''.'' \<notin> set ?payload" "CHR ''.'' \<notin> set (base64url ?mac)"
    using base64_no_dot utf8_bytes mac by blast+
  have parts: "token_parts ((?payload @ ''.'' @ base64url ?mac) @ more) = (?payload, base64url ?mac, [])" if "more = [] \<or> (\<exists>r. more = ''..'' @ r)" for more
    using that dots by (auto simp: token_parts_def split_dots_append split_dots_none)
  have "fromBase64url (base64url ?mac) = ?mac" "utf8_decode (fromBase64url ?payload) = print_value (claims_object c)"
    using mac base64_round_trip utf8_bytes by (simp_all add: utf8_round_trip)
  then show ?thesis
    using True ne parts by (auto simp: sign_def verify_token_def validateClaims_iff parse_claims Let_def)
qed (simp add: sign_def validateClaims_iff)

definition sample_claims :: token_claims where
  "sample_claims = \<lparr>wt_waitpoint_id = ''w1'', wt_task_id = ''t1'', wt_tenant_id = ''acme'', wt_owner_id = ''ann'', wt_action = ''read'',
    wt_expires_at = 900, wt_nonce = ''n1''\<rparr>"

definition sample_hmac :: "nat list \<Rightarrow> nat list \<Rightarrow> nat list" where
  "sample_hmac key d = take 32 (map (\<lambda>b. b mod 256) (key @ d) @ replicate 32 0)"

definition sample_secret :: "nat list" where
  "sample_secret = replicate 32 7"

lemma sample_hmac_bytes: "length (sample_hmac key d) = 32 \<and> list_all (\<lambda>b. b < 256) (sample_hmac key d)"
proof -
  have "b < 256" if "b \<in> set (sample_hmac key d)" for b
    using in_set_takeD [OF that [unfolded sample_hmac_def]] by auto
  then have "list_all (\<lambda>b. b < 256) (sample_hmac key d)" unfolding list_all_iff by blast
  moreover have "length (sample_hmac key d) = 32" by (simp add: sample_hmac_def)
  ultimately show ?thesis by blast
qed

theorem token_round_trip_witness:
  "case sign sample_hmac sample_secret sample_claims of Inl e \<Rightarrow> False
    | Inr token \<Rightarrow> verify_token sample_hmac sample_secret token (Some ''read'') 899 = Inr sample_claims \<and>
        verify_token sample_hmac sample_secret (token @ ''..x'') None 900 = Inl (Js_error ''waitpoint token expired'')"
proof -
  have ok: "valid_claims sample_claims" by code_simp
  have more: "''..x'' = ''..'' @ ''x''" by simp
  have time: "wt_expires_at sample_claims = 900" "wt_action sample_claims = ''read''" by (simp_all add: sample_claims_def)
  obtain token where token: "sign sample_hmac sample_secret sample_claims = Inr token"
    using ok by (simp add: sign_def validateClaims_iff Let_def)
  have "verify_token sample_hmac sample_secret (token @ []) (Some ''read'') 899 = Inr sample_claims"
    using token_round_trip [where hmac = sample_hmac and key = sample_secret and c = sample_claims and action = "Some ''read''" and now = 899, OF sample_hmac_bytes] token time
    by (simp add: truthy_def nullif_def)
  moreover have "verify_token sample_hmac sample_secret (token @ ''..x'') None 900 = Inl (Js_error ''waitpoint token expired'')"
    using token_round_trip [where hmac = sample_hmac and key = sample_secret and c = sample_claims and action = None and now = 900, OF sample_hmac_bytes] token time more
    by auto
  ultimately show ?thesis using token by simp
qed

end
