(* ===== verification/Spec2Isabelle.thy ===== *)
theory Spec2Isabelle
  imports Lease_Runs Command_Properties Findings Projector_Properties Durable_Properties Progress_Coalescer Recovery Task_Stores Task_Handle Waiting
    Notification_Properties Outbox_Drain Sweeper_Properties Capability_Token
begin

text \<open>
  \<^bold>\<open>RhinoQ: the durable Task profile on PostgreSQL and the SDK around it\<close>

  RhinoQ records long-running work in a PostgreSQL schema and lets applications, workers and browsers follow it.
  All paths below are relative to \<^verbatim>\<open>src/sdks/node/src\<close>. The program has four layers.

  \<^item> \<^emph>\<open>The schema\<close> (\<^verbatim>\<open>postgres/task-schema.ts\<close>, \<^verbatim>\<open>durable-step-schema.ts\<close>, \<^verbatim>\<open>durable-step-cancel-schema.ts\<close>,
    \<^verbatim>\<open>resource-lease-schema.ts\<close>): tables under row-level security, triggers, and PL/pgSQL functions that are the only way
    to change them.
  \<^item> \<^emph>\<open>The client\<close> (\<^verbatim>\<open>postgres/task-client.ts\<close>): validation, statements, row mappers and error mapping.
  \<^item> \<^emph>\<open>Services on the client\<close>: the runtime projector, the Task handle, the durable Task context, waiting for input,
    guarded recovery, the verification chain with its notifications, and the periodic sweepers.
  \<^item> \<^emph>\<open>State outside the database\<close>: the progress coalescer of a worker, the stores of a browser, and capability
    tokens.

  \<^bold>\<open>How the code is modelled\<close>

  \<^item> \<^emph>\<open>Tables\<close> (\<open>Prelude\<close>, \<open>Table\<close>, \<open>Schema\<close>, \<open>Store\<close>). A database is a record of row lists; a table has a tenant column, a
    CHECK and a conflict relation. \<open>select_rows\<close>, \<open>insert_row\<close>, \<open>update_rows\<close> and \<open>delete_rows\<close> are SQL statements under the
    tenant policy, with PostgreSQL's error codes as values of a sum type. Statement triggers on executions keep the item
    counts and announce Task changes. Times are milliseconds; a text is a list of bytes.
  \<^item> \<^emph>\<open>Functions\<close> (\<open>Task_Commands\<close>, \<open>Execution_Commands\<close>, \<open>Waitpoints\<close>, \<open>Evidence\<close>, \<open>Notifications\<close>, \<open>Checkpoints\<close>,
    \<open>Durable_Steps\<close>, \<open>Resource_Leases\<close>). One definition per function in its last version, guards in the order of the code,
    early returns and RAISE as branches. A call is atomic: each locks the rows it decides on. What the server makes of a
    column name that is a PL/pgSQL variable too is its setting \<open>plpgsql.variable_conflict\<close>, a parameter of the session
    (\<open>unqualified\<close> in \<open>Durable_Steps\<close>).
  \<^item> \<^emph>\<open>Runs\<close> (\<open>Contract\<close>, \<open>System\<close>). A request is a session, a time and a call; \<open>serve\<close> performs it and \<open>fold serve rs empty_db\<close>
    is the database after any interleaving of sessions. The locale \<open>stepwise\<close> carries what every call keeps along
    a run, and is interpreted for \<open>serve\<close>; \<open>keyed_table\<close> is the contract of a table with a key.
  \<^item> \<^emph>\<open>Client methods\<close> (\<open>Json\<close>, \<open>Client\<close>, \<open>Task_Client\<close>, \<open>Work_Client\<close>, \<open>Evidence_Client\<close>,
    \<open>Notification_Worker\<close>, \<open>Task_Handle\<close>, \<open>Waiting\<close>). A method is a function on
    worlds: the database, a clock, and a plan of what other clients do before each statement still to come. It returns or
    throws. Every method is shown to be a run of requests (\<open>runs\<close>). JSON is printed and parsed as the language does.
  \<^item> \<^emph>\<open>Services\<close> (\<open>Projector\<close>, \<open>Durable_Context\<close>, \<open>Recovery\<close>, \<open>Notification_Worker\<close>, \<open>Sweepers\<close>). Loops that converge take the bound of the code;
    processes that interleave at their awaits are step relations, or step functions on events with arbitrary replies. The
    locale \<open>recovery_ledger\<close> is interpreted for both ledgers, \<open>periodic\<close> for both sweepers.
  \<^item> \<^emph>\<open>Outside the database\<close> (\<open>Progress_Coalescer\<close>, \<open>Task_Stores\<close>, \<open>Capability_Token\<close>). The code between two awaits is one function;
    calls, timers and promise reactions are the steps of an inductive relation. A token is a pure function of claims, key and
    time.

  \<^bold>\<open>What is shown\<close>

  \<^item> \<^emph>\<open>Every reachable database\<close> (this theory, \<open>System\<close>): all constraints and references hold, counts equal the attempts,
    no tenant's rows change through sessions that cannot see them, a Task version identifies what its Snapshot shows and
    is spent by one transition only, an item effect is granted once, outcomes are final.
  \<^item> \<^emph>\<open>Leases, waits and mail along runs\<close> (\<open>Lease_Runs\<close>): completed steps are reused unchanged, closed attempts are fenced,
    one attempt runs at a time, pools are never overcommitted, waitpoints are resolved once, sent notifications stay sent.
  \<^item> \<^emph>\<open>Single functions\<close> (\<open>Command_Properties\<close>): when they succeed, exactly what they change, and the error of every other
    branch; what a creation or a checkpoint answers to a repetition after any further requests; which waitpoints
    expiry takes; agreement of the two settle tests.
  \<^item> \<^emph>\<open>Services\<close> (\<open>Projector_Properties\<close>, \<open>Durable_Properties\<close>, \<open>Recovery\<close>, \<open>Evidence_Client\<close>, \<open>Notification_Properties\<close>,
    \<open>Outbox_Drain\<close>, \<open>Sweeper_Properties\<close>, \<open>Task_Handle\<close>, \<open>Waiting\<close>): a success event
    is projected in a quiet world in both terminal projections; a step's value is replayed without its callback, and a step
    recorded without a value never returns; a
    repair runs at most once per key; \<open>completeTask\<close> completes; when waiting again returns the answer; when recording a
    verification again is a replay; a chain can be run again; the outbox is drained; a sweeper keeps its schedule, sweeps alone and
    returns its lease.
  \<^item> \<^emph>\<open>Outside the database\<close>: the coalescer writes in order and loses nothing on close; stores show the newest status;
    verifying a signed token gives back its claims.
  \<^item> \<^emph>\<open>Where the code falls short\<close> (\<open>Findings\<close> and the last statements of several theories): statements that are true of the
    code and not what its comments say.

  \<^bold>\<open>Bounds\<close>

  Convergence loops of the projector run at most as often as the code lets them (\<open>MAX_CONVERGENCE_ATTEMPTS\<close>), the loop that
  opens attempts takes a bound that the statements quantify over, and \<open>close_loop\<close> is shown to need three rounds. The loop of the
  notification worker takes a number of rounds; one more than the notifications due is shown to drain them. The JSON
  parser takes the length of its input, which is enough for every printed value. All other recursion is structural.

  \<^bold>\<open>Not modelled\<close>

  \<^item> Superseded versions of schema functions, grants, indexes and migration steps; advisory and row locks, since calls are
    atomic.
  \<^item> Third-party code and the platform: PostgreSQL itself beyond the statements used, BullMQ and Redis (\<^verbatim>\<open>bullmq/\<close>), HTTP
    frameworks, React, the browser, SHA-256 and HMAC. Hashes are parameters.
  \<^item> The HTTP, SSE and WebSocket surfaces (\<^verbatim>\<open>tasks/http.ts\<close>, \<^verbatim>\<open>sse.ts\<close>, \<^verbatim>\<open>websocket.ts\<close>, \<^verbatim>\<open>gateway/client.ts\<close>), which translate
    requests to the methods modelled here, and the rendering code (\<^verbatim>\<open>react-components.ts\<close>, \<^verbatim>\<open>ui.ts\<close>, \<^verbatim>\<open>workbench/\<close>).
  \<^item> The command line and code generation (\<^verbatim>\<open>cli/\<close>, \<^verbatim>\<open>adopt/\<close>), deployment profiles (\<^verbatim>\<open>runtime/deployment.ts\<close> and others) and
    Task declarations (\<^verbatim>\<open>tasks/declaration.ts\<close>): composition of callbacks of the application.
  \<^item> The Go engine behind the gateway (\<^verbatim>\<open>src/internal\<close>, \<^verbatim>\<open>src/pkg\<close>), a separate program with its own store.
\<close>

section \<open>Every reachable database\<close>

text \<open>
  C1: whatever sequence of calls sessions make on an empty schema, the database satisfies every CHECK
  and unique constraint, every reference between the tables, the stored item counts equal the
  counts of the attempts themselves, cancellation status and state agree, durable step histories
  are consistent, and no pool is overcommitted.
\<close>

theorem reachable_invariant: "full_inv (fold serve rs empty_db)"
  by (rule reached_inv)

text \<open>
  C2: requests of sessions that cannot see a tenant leave every row of that tenant, in every table,
  exactly as it was.
\<close>

theorem tenant_isolation:
  assumes "list_all (\<lambda>r. \<not> visible (fst r) x) rs"
  shows "tenant_db x (fold serve (rs0 @ rs) empty_db) = tenant_db x (fold serve rs0 empty_db)"
proof -
  have "tenant_db x (fold serve rs d) = tenant_db x d" if "full_inv d" for d
    using assms that
  proof (induction rs arbitrary: d)
    case (Cons r rs)
    then show ?case using serve_isolated [of d r x] sys.ok_step [of d r] by simp
  qed simp
  then show ?thesis using reached_inv by simp
qed

theorem tenant_isolation_witness:
  "tenant_db ''acme'' (fold serve (sample_run @ other_run) empty_db) =
    tenant_db ''acme'' (fold serve sample_run empty_db)"
  by (rule tenant_isolation) ((unfold sample_runs)?, code_simp)

text \<open>
  C3: the version of a Task is a faithful token of what its Snapshot shows. When two states of a run
  give the same Task the same version, the Task row is the same except for its settled stamp and
  time of update, and its attempts are the same except for their own version, time of update and
  effect claims.
\<close>

theorem version_identifies_snapshot:
  assumes "task_version_of tid (fold serve rs0 empty_db) = Some v"
    and "task_version_of tid (fold serve (rs0 @ rs) empty_db) = Some v"
  shows "map_option task_view (find (\<lambda>t. t_id t = tid) (tasks (fold serve (rs0 @ rs) empty_db))) =
      map_option task_view (find (\<lambda>t. t_id t = tid) (tasks (fold serve rs0 empty_db))) \<and>
    map exec_view (executions_of tid (executions (fold serve (rs0 @ rs) empty_db))) =
      map exec_view (executions_of tid (executions (fold serve rs0 empty_db)))"
proof -
  have adv: "advances (reached rs0) (reached (rs0 @ rs))" by (rule sys.le_later) simp
  obtain t where t: "find (\<lambda>t. t_id t = tid) (tasks (reached rs0)) = Some t" "t_version t = v"
    using assms(1) by (auto simp: task_version_of_def)
  obtain u where u: "find (\<lambda>t. t_id t = tid) (tasks (reached (rs0 @ rs))) = Some u" "task_evolves t u"
    using find_evolves [OF _ t(1)] adv by (auto simp: advances_def evolves_def)
  then have "t_version u = v" using assms(2) by (simp add: task_version_of_def)
  then have "task_view u = task_view t" using u(2) t(2) by (simp add: task_evolves_def)
  moreover have "views_kept {} (reached rs0) (reached (rs0 @ rs))"
    using adv by (simp add: advances_def evolves_def)
  ultimately show ?thesis using t(1) u(1) assms unfolding views_kept_def by auto
qed

theorem version_identifies_snapshot_witness:
  "map exec_view (executions_of ''t1'' (executions (fold serve (sample_run @ other_run) empty_db))) =
      map exec_view (executions_of ''t1'' (executions (fold serve sample_run empty_db)))"
  by (rule conjunct2 [OF version_identifies_snapshot [where v = 4]]) ((unfold sample_runs)?, code_simp+)

text \<open>
  C4: a version spent on a transition is spent. Once \<open>transition_task\<close> accepted version \<open>v\<close>, every
  later transition that presents \<open>v\<close>, by any session and to any state, is refused as a version
  conflict, or does not find the Task when the session cannot see it.
\<close>

theorem transition_spends_version:
  assumes "transition_task s now tid v target (fold serve rs empty_db) = Inr (v1, d1)"
  shows "v1 = v + 1 \<and> (\<exists>cur > v. transition_task s' now' tid v target' (fold serve rs' d1) \<in>
    {fail ''RHINOQ_TASK_NOT_FOUND'' tid,
     fail_version ''transitionTask'' tid v cur (Some ''Task'') None})"
proof -
  let ?d = "reached rs" and ?r = "(s, now, Task_call (Transition_task tid v target))"
  have d1: "d1 = reached (rs @ [?r])" by (rule commit_reached [of "transition_task s now tid v target", OF assms]) (simp add: serve_def)
  obtain t where t: "select_task s tid ?d = Some t" "t_version t = v"
    and upd: "\<exists>g. update_returning s t (transitioned now g) ?d = Inr (v1, d1)"
    using assms unfolding transition_task_def by (auto split: option.split_asm if_split_asm)
  obtain g where g: "update_task s (t_id t) (transitioned now g) ?d = Inr d1" "v1 = v + 1"
    using upd t(2) by (auto simp: update_returning_def transitioned_def)
  note T = select_taskD [OF t(1)]
  have t1: "transitioned now g t \<in> set (tasks d1)"
    using update_taskD [OF g(1) wfD(1) [OF reached_parts(2)] T(1,2)] T(1) by (auto simp: set_upd_where)
  have adv: "advances d1 (fold serve rs' d1)" and ok: "core_ok (fold serve rs' d1)"
    using run_advances [OF reached_inv] full_invD(2) [OF sys.ok_run [OF reached_inv]] unfolding d1 by blast+
  show ?thesis
  proof (cases "select_task s' tid (fold serve rs' d1)")
    case None
    then show ?thesis using g(2) by (auto simp: transition_task_def intro: exI [of _ "v + 1"])
  next
    case (Some u)
    have "task_evolves (transitioned now g t) u"
      by (rule select_task_later [OF adv ok t1]) (use Some T(3) in \<open>simp add: transitioned_def\<close>)
    then have "t_version u > v" using t(2) by (simp add: task_evolves_def transitioned_def)
    then show ?thesis using g(2) Some by (auto simp: transition_task_def)
  qed
qed

theorem transition_spends_version_witness:
  "(5::int) = 4 + 1 \<and> (\<exists>cur > 4. transition_task acme 150 ''t1'' 4 ''succeeded'' (fold serve other_run
      (snd (projr (transition_task acme 140 ''t1'' 4 ''failed'' (fold serve sample_run empty_db))))) \<in>
    {fail ''RHINOQ_TASK_NOT_FOUND'' ''t1'',
     fail_version ''transitionTask'' ''t1'' 4 cur (Some ''Task'') None})"
  by (rule transition_spends_version [where s = acme and now = 140 and target = "''failed''" and rs = sample_run])
    ((unfold sample_runs)?, code_simp)

text \<open>
  C6: outcomes are final. A Task that succeeded stays succeeded, and an attempt that succeeded,
  failed or was cancelled keeps that state, whatever is called afterwards.
\<close>

theorem outcomes_final:
  "(\<forall>t \<in> set (tasks (fold serve rs0 empty_db)). t_state t = T_succeeded \<longrightarrow>
      (\<exists>u \<in> set (tasks (fold serve (rs0 @ rs) empty_db)). t_id u = t_id t \<and> t_state u = T_succeeded)) \<and>
    (\<forall>e \<in> set (executions (fold serve rs0 empty_db)). exec_terminal (e_state e) \<longrightarrow>
      (\<exists>f \<in> set (executions (fold serve (rs0 @ rs) empty_db)). e_id f = e_id e \<and> e_state f = e_state e))"
proof -
  have adv: "advances (reached rs0) (reached (rs0 @ rs))" by (rule sys.le_later) simp
  show ?thesis
    using advancesE(1,2) [OF adv] unfolding task_evolves_def exec_evolves_def by blast
qed

theorem outcomes_final_witness:
  "\<exists>u \<in> set (tasks (fold serve ((sample_run @ [(acme, 140, Task_call (Transition_task ''t1'' 4 ''succeeded''))]) @
      other_run) empty_db)). t_id u = ''t1'' \<and> t_state u = T_succeeded"
proof -
  let ?rs0 = "sample_run @ [(acme, 140, Task_call (Transition_task ''t1'' 4 ''succeeded''))]"
  have "\<exists>t \<in> set (tasks (fold serve ?rs0 empty_db)). t_id t = ''t1'' \<and> t_state t = T_succeeded" by ((unfold sample_runs)?, code_simp)
  then show ?thesis using conjunct1 [OF outcomes_final [of ?rs0 other_run]] by metis
qed

section \<open>Effects\<close>

text \<open>
  C5: an item effect is granted once. After \<open>claim_item_effect\<close> answered true for an execution, no
  later claim of the same key (up to surrounding blanks) through any attempt of the same item, by
  any session and after any calls in between, retries included, is answered true: it is answered
  false and changes nothing.
\<close>

theorem item_effect_once:
  assumes claim: "claim_item_effect s now eid k (fold serve rs empty_db) = Inr (True, d1)"
    and e: "select_execution s eid (fold serve rs empty_db) = Some e"
    and f: "select_execution s' eid' (fold serve rs' d1) = Some f" "btrim eid' \<noteq> ''''"
    and same: "e_task_id f = e_task_id e" "e_item_key f = e_item_key e" "btrim k' = btrim k"
  shows "claim_item_effect s' now' eid' k' (fold serve rs' d1) = Inr (False, fold serve rs' d1)"
proof -
  let ?d = "reached rs" and ?r = "(s, now, Execution_call (Claim_item_effect eid k))" and ?d2 = "fold serve rs' d1"
  have d1: "d1 = reached (rs @ [?r])"
    by (rule commit_reached [of "claim_item_effect s now eid k", OF claim]) (simp add: serve_def)
  have adv: "advances d1 ?d2" and ok2: "core_ok ?d2"
    using run_advances [OF reached_inv] full_invD(2) [OF sys.ok_run [OF reached_inv]] unfolding d1 by blast+
  obtain c where c: "c \<in> set (item_attempts s (e_task_id e) (e_item_key e) ?d)"
    and upd: "update_execution s now (e_id c) (effect_claimed now (btrim k)) ?d = Inr d1"
    and valid: "btrim k \<noteq> ''''" "len (btrim k) \<le> 256"
    by (rule claim_item_effect_granted [OF claim e])
  have C: "c \<in> set (executions ?d)" "visible s (e_tenant_id c)" "e_task_id c = e_task_id e" "e_item_key c = e_item_key e"
    using c by (auto simp: item_attempts_def select_rows_def tables)
  have "effect_claimed now (btrim k) c \<in> set (executions d1)"
    using update_executionD(1) [OF upd reached_parts(2) C(1,2)] C(1)
    by (auto simp: effect_claimed_def set_upd_where)
  then obtain a where a: "a \<in> set (executions ?d2)" "exec_evolves (effect_claimed now (btrim k) c) a"
    using advancesE(2) [OF adv] by blast
  note F = select_executionD [OF f(1)]
  have A: "e_task_id a = e_task_id f" "e_item_key a = e_item_key f" "btrim k' \<in> set (e_effect_keys a)"
    using a(2) C(3,4) same set_mono_prefix [of "e_effect_keys (effect_claimed now (btrim k) c)" "e_effect_keys a"]
    by (auto simp: exec_evolves_def effect_claimed_def)
  have "a \<in> set (item_attempts s' (e_task_id f) (e_item_key f) ?d2)"
    using a(1) A F(2) attempt_tenants [OF ok2 F(1) a(1) A(1)]
    by (simp add: item_attempts_def select_rows_def tables)
  then have "list_ex (\<lambda>a. btrim k' \<in> set (e_effect_keys a)) (item_attempts s' (e_task_id f) (e_item_key f) ?d2)"
    using A(3) by (auto simp: list_ex_iff)
  moreover obtain t where "select_task s' (e_task_id f) ?d2 = Some t"
    by (rule parent_selected [OF ok2 F(1,2)])
  ultimately show ?thesis
    using f valid same(3) by (simp add: claim_item_effect_def Let_def)
qed

theorem item_effect_once_witness:
  "claim_item_effect acme 400 ''e2'' ''charge '' (fold serve
      [(acme, 150, Execution_call (Transition_execution ''e1'' 2 ''cancelled'' None)),
       (acme, 160, Execution_call (Retry_execution ''e1'' 3 ''e2''))]
      (snd (projr (claim_item_effect acme 140 ''e1'' ''charge'' (fold serve sample_run empty_db))))) =
    Inr (False, fold serve
      [(acme, 150, Execution_call (Transition_execution ''e1'' 2 ''cancelled'' None)),
       (acme, 160, Execution_call (Retry_execution ''e1'' 3 ''e2''))]
      (snd (projr (claim_item_effect acme 140 ''e1'' ''charge'' (fold serve sample_run empty_db)))))"
proof -
  let ?d = "fold serve sample_run empty_db"
  let ?rs = "[(acme, 150, Execution_call (Transition_execution ''e1'' 2 ''cancelled'' None)),
       (acme, 160, Execution_call (Retry_execution ''e1'' 3 ''e2''))]"
  let ?d1 = "snd (projr (claim_item_effect acme 140 ''e1'' ''charge'' ?d))"
  let ?e = "the (select_execution acme ''e1'' ?d)" and ?f = "the (select_execution acme ''e2'' (fold serve ?rs ?d1))"
  show ?thesis
  proof (rule item_effect_once)
    show "claim_item_effect acme 140 ''e1'' ''charge'' ?d = Inr (True, ?d1)" by ((unfold sample_runs)?, code_simp)
    show "select_execution acme ''e1'' ?d = Some ?e" by ((unfold sample_runs)?, code_simp)
    show "select_execution acme ''e2'' (fold serve ?rs ?d1) = Some ?f" by ((unfold sample_runs)?, code_simp)
    show "btrim ''e2'' \<noteq> ''''" "e_task_id ?f = e_task_id ?e" "e_item_key ?f = e_item_key ?e" by ((unfold sample_runs)?, code_simp)+
    show "btrim ''charge '' = btrim ''charge''" by code_simp
  qed
qed

end
